theory Spec2Isabelle
  imports Complex_Main "HOL-Library.AList"
begin

section \<open>Python values used by \<open>run_processing.py\<close>\<close>

text \<open>
  Scalar values that occur as titles, column values and opaque metadata entries;
  \<open>py_str\<close> is \<open>str(x)\<close>.
\<close>

datatype pyval = PNone | PBool bool | PInt int | PStr string

fun dec_nat :: "nat \<Rightarrow> string" where
  "dec_nat n = (if n < 10 then [char_of (48 + n)]
                else dec_nat (n div 10) @ [char_of (48 + n mod 10)])"

declare dec_nat.simps [simp del]

fun py_str :: "pyval \<Rightarrow> string" where
  "py_str PNone = ''None''"
| "py_str (PBool b) = (if b then ''True'' else ''False'')"
| "py_str (PInt i) = (if i < 0 then ''-'' @ dec_nat (nat (- i)) else dec_nat (nat i))"
| "py_str (PStr s) = s"

text \<open>\<open>sep.join(xs)\<close> on a list of strings.\<close>

fun join :: "string \<Rightarrow> string list \<Rightarrow> string" where
  "join sep [] = []"
| "join sep [x] = x"
| "join sep (x # y # ys) = x @ sep @ join sep (y # ys)"

text \<open>
  Chunk identities are opaque and hashable: \<open>None\<close>, an integer or a string. The code
  tests them for truth in several places, so \<open>None\<close>, \<open>0\<close> and the empty string
  are kept distinguishable from the other ids.
\<close>

datatype pyid = NoneId | IntId int | StrId string

fun id_truthy :: "pyid \<Rightarrow> bool" where
  "id_truthy NoneId = False"
| "id_truthy (IntId i) = (i \<noteq> 0)"
| "id_truthy (StrId s) = (s \<noteq> [])"

section \<open>Data model\<close>

text \<open>
  An element of \<open>related_sections\<close> is a list of titles, a pre-joined string, or
  anything else (which the code skips with a warning).
\<close>

datatype mention = MList "pyval list" | MStr string | MOther pyval

text \<open>
  The metadata dictionary of a chunk. A field is \<open>None\<close> when the key is absent. The
  keys that the code reads by name are fields; every other key is in \<open>md_other\<close>.
\<close>

record metadata =
  md_hierarchy_path :: "pyval list option"
  md_related_sections :: "mention list option"
  md_parent_id :: "pyid option"
  md_section_type :: "pyval option"
  md_content_type :: "pyval option"
  md_document_position :: "pyval option"
  md_link_count :: "pyval option"
  md_contains_links :: "pyval option"
  md_embedding_generated :: "bool option"
  md_other :: "(string \<times> pyval) list"

text \<open>An enriched chunk; \<open>c_id\<close> and \<open>c_metadata\<close> are \<open>None\<close> when the key is absent.\<close>

record chunk =
  c_id :: "pyid option"
  c_metadata :: "metadata option"
  c_type :: "pyval option"
  c_title :: "pyval option"
  c_content :: "pyval option"
  c_level :: "pyval option"

text \<open>The \<open>metadata\<close> payload of a node record.\<close>

record payload =
  p_original_id :: "pyid option"
  p_embedding_generated :: "bool option"
  p_link_count :: pyval
  p_contains_links :: pyval
  p_related_sections :: "mention list option"
  p_other :: "(string \<times> pyval) list"

record node =
  n_document_id :: string
  n_node_type :: pyval
  n_title :: pyval
  n_content :: pyval
  n_level :: pyval
  n_path :: string
  n_section_type :: pyval
  n_content_type :: pyval
  n_document_position :: pyval
  n_metadata :: "payload option"
  n_embedding :: "real list option"

text \<open>
  A row returned by \<open>find_nodes_by_path\<close>. Storage ids are integers; a missing key and
  \<open>None\<close> are both \<open>None\<close> here, and the code treats the id \<open>0\<close> like a missing one.
\<close>

record found_node =
  fn_id :: "int option"
  fn_document_id :: "string option"
  fn_path :: string

record reference =
  source_node_id :: int
  target_node_id :: int
  reference_type :: string
  strength :: real

section \<open>Phase 4: preparing nodes\<close>

definition get_or :: "'a \<Rightarrow> 'a option \<Rightarrow> 'a" where
  "get_or d v = (case v of None \<Rightarrow> d | Some x \<Rightarrow> x)"

definition unknown_path :: string where
  "unknown_path = ''Unknown Path''"

definition path_str_of :: "pyval list option \<Rightarrow> string" where
  "path_str_of hp =
     (let hierarchy_path = get_or [] hp
      in if hierarchy_path \<noteq> [] then join '' > '' (map py_str hierarchy_path)
         else unknown_path)"

definition promoted_keys :: "string list" where
  "promoted_keys = [''hierarchy_path'', ''section_type'', ''content_type'',
     ''document_position'', ''parent_id'', ''child_ids'', ''sibling_ids'']"

text \<open>
  The payload keeps every key of the chunk's metadata that is not promoted to a column,
  so a key \<open>embedding_generated\<close> that the metadata already has is copied with the
  others. Then \<open>original_id\<close>, \<open>link_count\<close> and \<open>contains_links\<close> are written,
  which overwrites a key \<open>original_id\<close> of the metadata.
\<close>

definition metadata_payload :: "pyid \<Rightarrow> metadata \<Rightarrow> payload" where
  "metadata_payload original_id md =
     \<lparr> p_original_id = Some original_id,
       p_embedding_generated = md_embedding_generated md,
       p_link_count = get_or PNone (md_link_count md),
       p_contains_links = get_or PNone (md_contains_links md),
       p_related_sections = md_related_sections md,
       p_other = filter (\<lambda>kv. fst kv \<notin> set promoted_keys \<and> fst kv \<noteq> ''original_id'')
                   (md_other md) \<rparr>"

definition node_data :: "string \<Rightarrow> chunk \<Rightarrow> pyid \<Rightarrow> metadata \<Rightarrow> node" where
  "node_data effective_document_id c original_id md =
     \<lparr> n_document_id = effective_document_id,
       n_node_type = get_or (PStr ''unknown'') (c_type c),
       n_title = get_or PNone (c_title c),
       n_content = get_or (PStr []) (c_content c),
       n_level = get_or PNone (c_level c),
       n_path = path_str_of (md_hierarchy_path md),
       n_section_type = get_or (PStr ''unknown'') (md_section_type md),
       n_content_type = get_or (PStr ''text'') (md_content_type md),
       n_document_position = get_or PNone (md_document_position md),
       n_metadata = Some (metadata_payload original_id md),
       n_embedding = None \<rparr>"

text \<open>
  The three structures that the first loop over \<open>enriched_chunks\<close> fills. Dictionaries
  are association lists in insertion order; \<open>AList.update\<close> overwrites the value of a key
  that is present and appends a new key at the end, as a Python \<open>dict\<close> does.
\<close>

record mapped =
  db_nodes_to_insert :: "node list"
  original_id_to_chunk_map :: "(pyid \<times> chunk) list"
  path_to_original_id_map :: "(string \<times> pyid) list"

definition mapped_empty :: mapped where
  "mapped_empty = \<lparr> db_nodes_to_insert = [], original_id_to_chunk_map = [],
                    path_to_original_id_map = [] \<rparr>"

text \<open>One iteration of the loop \<open>for chunk in enriched_chunks\<close>.\<close>

definition map_chunk :: "string \<Rightarrow> chunk \<Rightarrow> mapped \<Rightarrow> mapped" where
  "map_chunk effective_document_id c m =
     (case c_id c of
        None \<Rightarrow> m
      | Some original_id \<Rightarrow>
         (case c_metadata c of
            None \<Rightarrow> m
          | Some md \<Rightarrow>
             (let path_str = path_str_of (md_hierarchy_path md)
              in \<lparr> db_nodes_to_insert =
                     db_nodes_to_insert m @ [node_data effective_document_id c original_id md],
                   original_id_to_chunk_map =
                     AList.update original_id c (original_id_to_chunk_map m),
                   path_to_original_id_map =
                     (if path_str \<noteq> unknown_path \<and> id_truthy original_id
                      then AList.update path_str original_id (path_to_original_id_map m)
                      else path_to_original_id_map m) \<rparr>)))"

definition node_mapper :: "string \<Rightarrow> chunk list \<Rightarrow> mapped" where
  "node_mapper effective_document_id enriched_chunks =
     fold (map_chunk effective_document_id) enriched_chunks mapped_empty"

section \<open>Phase 4: exact references and pending fuzzy paths\<close>

text \<open>
  The string key of a mention; \<open>None\<close> for a mention that is neither a list nor a
  string.
\<close>

fun path_key_str :: "mention \<Rightarrow> string option" where
  "path_key_str (MList xs) = Some (join '' > '' (map py_str xs))"
| "path_key_str (MStr s) = Some s"
| "path_key_str (MOther v) = None"

text \<open>
  \<open>paths_needing_fuzzy_lookup\<close> is a Python set. It is kept as a list without
  repetitions, in order of first insertion; the order in which Python iterates over the
  set is not fixed, and nothing proved below depends on it.
\<close>

definition set_add :: "'a \<Rightarrow> 'a list \<Rightarrow> 'a list" where
  "set_add x xs = (if x \<in> set xs then xs else xs @ [x])"

record resolved =
  exact_resolved_references :: "(pyid \<times> pyid) list"
  paths_needing_fuzzy_lookup :: "string list"

definition resolved_empty :: resolved where
  "resolved_empty = \<lparr> exact_resolved_references = [], paths_needing_fuzzy_lookup = [] \<rparr>"

definition related_of :: "chunk \<Rightarrow> mention list" where
  "related_of chunk_data =
     (case c_metadata chunk_data of
        None \<Rightarrow> []
      | Some md \<Rightarrow> get_or [] (md_related_sections md))"

text \<open>One iteration of \<open>for related_path_item in related_sections\<close>.\<close>

definition resolve_item ::
  "(string \<times> pyid) list \<Rightarrow> pyid \<Rightarrow> mention \<Rightarrow> resolved \<Rightarrow> resolved" where
  "resolve_item path_map source_original_id related_path_item r =
     (case path_key_str related_path_item of
        None \<Rightarrow> r
      | Some key \<Rightarrow>
         (let pending = r\<lparr>paths_needing_fuzzy_lookup :=
                            set_add key (paths_needing_fuzzy_lookup r)\<rparr>
          in case map_of path_map key of
               None \<Rightarrow> pending
             | Some target_original_id \<Rightarrow>
                 if id_truthy target_original_id
                 then (if source_original_id \<noteq> target_original_id
                       then r\<lparr>exact_resolved_references :=
                                exact_resolved_references r
                                  @ [(source_original_id, target_original_id)]\<rparr>
                       else r)
                 else pending))"

definition resolve_chunk ::
  "(string \<times> pyid) list \<Rightarrow> pyid \<times> chunk \<Rightarrow> resolved \<Rightarrow> resolved" where
  "resolve_chunk path_map item r =
     fold (resolve_item path_map (fst item)) (related_of (snd item)) r"

definition resolve_references :: "mapped \<Rightarrow> resolved" where
  "resolve_references m =
     fold (resolve_chunk (path_to_original_id_map m)) (original_id_to_chunk_map m)
       resolved_empty"

section \<open>Collaborators and the state of a run\<close>

text \<open>
  The components that \<open>process_document\<close> constructs and calls (markdown processor,
  chunker, enricher, store, embedding generator) and the file system are not part of this
  module. They are a record of operations on a world \<open>'w\<close>; an operation that raises
  returns \<open>Inl\<close>. \<open>'p\<close> is the parsed document and \<open>'t\<close> the hierarchy tree;
  \<open>build_hierarchy_tree\<close> returns \<open>None\<close> for a root that is false in Python.
  \<open>path_stem\<close> is \<open>Path(file_path).stem\<close>.
\<close>

type_synonym exn = string

record ('w, 'p, 't) env =
  path_exists :: "string \<Rightarrow> 'w \<Rightarrow> bool"
  path_stem :: "string \<Rightarrow> string"
  init_components :: "'w \<Rightarrow> (exn + unit) \<times> 'w"
  read_text :: "string \<Rightarrow> 'w \<Rightarrow> (exn + string) \<times> 'w"
  parse_document :: "string \<Rightarrow> 'w \<Rightarrow> (exn + 'p) \<times> 'w"
  build_hierarchy_tree :: "'p \<Rightarrow> 'w \<Rightarrow> (exn + 't option) \<times> 'w"
  create_chunks :: "'t \<Rightarrow> 'w \<Rightarrow> (exn + chunk list) \<times> 'w"
  process_chunks :: "chunk list \<Rightarrow> 't \<Rightarrow> 'w \<Rightarrow> (exn + chunk list) \<times> 'w"
  find_nodes_by_path :: "string \<Rightarrow> nat \<Rightarrow> 'w \<Rightarrow> (exn + found_node list) \<times> 'w"
  generate_node_embeddings :: "node list \<Rightarrow> 'w \<Rightarrow> (exn + node list) \<times> 'w"
  delete_nodes_by_document_id :: "string \<Rightarrow> 'w \<Rightarrow> (exn + nat) \<times> 'w"
  insert_node :: "node \<Rightarrow> 'w \<Rightarrow> (exn + int) \<times> 'w"
  update_node_parent :: "int \<Rightarrow> int \<Rightarrow> 'w \<Rightarrow> (exn + unit) \<times> 'w"
  insert_reference :: "reference \<Rightarrow> 'w \<Rightarrow> (exn + unit) \<times> 'w"

text \<open>
  Every call to the store or to the embedding generator is logged, with its arguments and
  whether it returned; \<open>FindNodesByPath\<close>, \<open>GenerateNodeEmbeddings\<close> and
  \<open>InsertNode\<close> log the value returned, \<open>None\<close> when the call raised.
\<close>

datatype call =
    is_find: FindNodesByPath string nat "found_node list option"
  | is_generate: GenerateNodeEmbeddings "node list" "node list option"
  | is_delete: DeleteNodesByDocumentId string bool
  | is_insert_node: InsertNode node "int option"
  | is_update_parent: UpdateNodeParent int int bool
  | is_insert_reference: InsertReference reference bool

text \<open>
  The mutable local variables of \<open>process_document\<close> from the fuzzy lookups on, with
  the world and the log of calls.
\<close>

record 'w run =
  world :: 'w
  calls :: "call list"
  fuzzy_path_to_nodes_map :: "(string \<times> found_node list) list"
  fuzzy_lookup_errors :: nat
  original_id_to_db_id_map :: "(pyid \<times> int) list"
  inserted_count :: nat
  failed_count :: nat
  parent_links_set :: nat
  parent_link_errors :: nat
  references_created :: nat
  reference_errors :: nat
  inserted_reference_pairs :: "(int \<times> int) set"

definition run_init :: "'w \<Rightarrow> 'w run" where
  "run_init w =
     \<lparr> world = w, calls = [], fuzzy_path_to_nodes_map = [], fuzzy_lookup_errors = 0,
       original_id_to_db_id_map = [], inserted_count = 0, failed_count = 0,
       parent_links_set = 0, parent_link_errors = 0, references_created = 0,
       reference_errors = 0, inserted_reference_pairs = {} \<rparr>"

definition returned :: "exn + 'a \<Rightarrow> bool" where
  "returned x = (case x of Inl e \<Rightarrow> False | Inr v \<Rightarrow> True)"

definition returned_value :: "exn + 'a \<Rightarrow> 'a option" where
  "returned_value x = (case x of Inl e \<Rightarrow> None | Inr v \<Rightarrow> Some v)"

definition logged :: "'w \<Rightarrow> call \<Rightarrow> 'w run \<Rightarrow> 'w run" where
  "logged w c r = r\<lparr>world := w, calls := calls r @ [c]\<rparr>"

definition db_find_nodes_by_path ::
  "('w, 'p, 't) env \<Rightarrow> string \<Rightarrow> nat \<Rightarrow> 'w run \<Rightarrow> (exn + found_node list) \<times> 'w run" where
  "db_find_nodes_by_path env path_pattern max_results r =
     (case find_nodes_by_path env path_pattern max_results (world r) of
        (x, w) \<Rightarrow> (x, logged w (FindNodesByPath path_pattern max_results (returned_value x)) r))"

definition embedder_generate_node_embeddings ::
  "('w, 'p, 't) env \<Rightarrow> node list \<Rightarrow> 'w run \<Rightarrow> (exn + node list) \<times> 'w run" where
  "embedder_generate_node_embeddings env nodes r =
     (case generate_node_embeddings env nodes (world r) of
        (x, w) \<Rightarrow> (x, logged w (GenerateNodeEmbeddings nodes (returned_value x)) r))"

definition db_delete_nodes_by_document_id ::
  "('w, 'p, 't) env \<Rightarrow> string \<Rightarrow> 'w run \<Rightarrow> (exn + nat) \<times> 'w run" where
  "db_delete_nodes_by_document_id env document_id r =
     (case delete_nodes_by_document_id env document_id (world r) of
        (x, w) \<Rightarrow> (x, logged w (DeleteNodesByDocumentId document_id (returned x)) r))"

definition db_insert_node ::
  "('w, 'p, 't) env \<Rightarrow> node \<Rightarrow> 'w run \<Rightarrow> (exn + int) \<times> 'w run" where
  "db_insert_node env n r =
     (case insert_node env n (world r) of
        (x, w) \<Rightarrow> (x, logged w (InsertNode n (returned_value x)) r))"

definition db_update_node_parent ::
  "('w, 'p, 't) env \<Rightarrow> int \<Rightarrow> int \<Rightarrow> 'w run \<Rightarrow> (exn + unit) \<times> 'w run" where
  "db_update_node_parent env node_id parent_id r =
     (case update_node_parent env node_id parent_id (world r) of
        (x, w) \<Rightarrow> (x, logged w (UpdateNodeParent node_id parent_id (returned x)) r))"

definition db_insert_reference ::
  "('w, 'p, 't) env \<Rightarrow> reference \<Rightarrow> 'w run \<Rightarrow> (exn + unit) \<times> 'w run" where
  "db_insert_reference env reference_data r =
     (case insert_reference env reference_data (world r) of
        (x, w) \<Rightarrow> (x, logged w (InsertReference reference_data (returned x)) r))"

section \<open>Phase 4: batch fuzzy lookups\<close>

text \<open>One iteration of \<open>for path_pattern in paths_needing_fuzzy_lookup\<close>.\<close>

definition fuzzy_lookup ::
  "('w, 'p, 't) env \<Rightarrow> string \<Rightarrow> string \<Rightarrow> 'w run \<Rightarrow> 'w run" where
  "fuzzy_lookup env effective_document_id path_pattern r =
     (case db_find_nodes_by_path env (''%'' @ path_pattern @ ''%'') 10 r of
        (Inl e_fuzzy, r') \<Rightarrow> r'\<lparr>fuzzy_lookup_errors := fuzzy_lookup_errors r' + 1\<rparr>
      | (Inr target_nodes_raw, r') \<Rightarrow>
          (if target_nodes_raw \<noteq> []
           then (let filtered_target_nodes =
                       filter (\<lambda>n. fn_document_id n = Some effective_document_id)
                         target_nodes_raw
                 in if filtered_target_nodes \<noteq> []
                    then r'\<lparr>fuzzy_path_to_nodes_map :=
                              AList.update path_pattern filtered_target_nodes
                                (fuzzy_path_to_nodes_map r')\<rparr>
                    else r')
           else r'))"

definition fuzzy_lookups ::
  "('w, 'p, 't) env \<Rightarrow> string \<Rightarrow> string list \<Rightarrow> 'w run \<Rightarrow> 'w run" where
  "fuzzy_lookups env effective_document_id paths r =
     fold (fuzzy_lookup env effective_document_id) paths r"

section \<open>Phase 4: inserting nodes\<close>

definition original_id_of :: "node \<Rightarrow> pyid option" where
  "original_id_of n = (case n_metadata n of None \<Rightarrow> None | Some p \<Rightarrow> p_original_id p)"

definition embedding_generated :: "node \<Rightarrow> bool" where
  "embedding_generated n =
     (case n_metadata n of None \<Rightarrow> False | Some p \<Rightarrow> get_or False (p_embedding_generated p))"

definition count_failed :: "'w run \<Rightarrow> 'w run" where
  "count_failed r = r\<lparr>failed_count := failed_count r + 1\<rparr>"

text \<open>One iteration of \<open>for node in db_nodes_with_embeddings\<close>.\<close>

definition insert_one :: "('w, 'p, 't) env \<Rightarrow> node \<Rightarrow> 'w run \<Rightarrow> 'w run" where
  "insert_one env n r =
     (case original_id_of n of
        None \<Rightarrow> count_failed r
      | Some original_id \<Rightarrow>
          if \<not> id_truthy original_id then count_failed r
          else if \<not> embedding_generated n then count_failed r
          else (case db_insert_node env n r of
                  (Inr db_id, r') \<Rightarrow>
                     r'\<lparr>original_id_to_db_id_map :=
                          AList.update original_id db_id (original_id_to_db_id_map r'),
                        inserted_count := inserted_count r' + 1\<rparr>
                | (Inl e, r') \<Rightarrow> count_failed r'))"

definition insert_nodes :: "('w, 'p, 't) env \<Rightarrow> node list \<Rightarrow> 'w run \<Rightarrow> 'w run" where
  "insert_nodes env db_nodes_with_embeddings r = fold (insert_one env) db_nodes_with_embeddings r"

section \<open>Phase 4: relationships\<close>

definition parent_id_of :: "chunk \<Rightarrow> pyid option" where
  "parent_id_of chunk_data =
     (case c_metadata chunk_data of None \<Rightarrow> None | Some md \<Rightarrow> md_parent_id md)"

text \<open>
  One iteration of \<open>for original_id, db_id in original_id_to_db_id_map.items()\<close>; the
  dictionary is not changed by the loop.
\<close>

definition set_parent_link ::
  "('w, 'p, 't) env \<Rightarrow> (pyid \<times> chunk) list \<Rightarrow> pyid \<times> int \<Rightarrow> 'w run \<Rightarrow> 'w run" where
  "set_parent_link env chunk_map item r =
     (case map_of chunk_map (fst item) of
        None \<Rightarrow> r
      | Some chunk_data \<Rightarrow>
         (case parent_id_of chunk_data of
            None \<Rightarrow> r
          | Some original_parent_id \<Rightarrow>
             if id_truthy original_parent_id
             then (case map_of (original_id_to_db_id_map r) original_parent_id of
                     None \<Rightarrow> r
                   | Some db_parent_id \<Rightarrow>
                      (case db_update_node_parent env (snd item) db_parent_id r of
                         (Inr u, r') \<Rightarrow> r'\<lparr>parent_links_set := parent_links_set r' + 1\<rparr>
                       | (Inl e, r') \<Rightarrow>
                           r'\<lparr>parent_link_errors := parent_link_errors r' + 1\<rparr>))
             else r))"

definition set_parent_links ::
  "('w, 'p, 't) env \<Rightarrow> (pyid \<times> chunk) list \<Rightarrow> 'w run \<Rightarrow> 'w run" where
  "set_parent_links env chunk_map r =
     fold (set_parent_link env chunk_map) (original_id_to_db_id_map r) r"

text \<open>
  The body shared by the exact and the fuzzy pass, from \<open>ref_pair = (source_db_id,
  target_db_id)\<close> on; the two passes differ in the reference type and the strength.
\<close>

definition insert_reference_pair ::
  "('w, 'p, 't) env \<Rightarrow> string \<Rightarrow> real \<Rightarrow> int \<Rightarrow> int \<Rightarrow> 'w run \<Rightarrow> 'w run" where
  "insert_reference_pair env rtype s source_db_id target_db_id r =
     (let ref_pair = (source_db_id, target_db_id)
      in if ref_pair \<notin> inserted_reference_pairs r
         then (let reference_data =
                     \<lparr> source_node_id = source_db_id, target_node_id = target_db_id,
                       reference_type = rtype, strength = s \<rparr>
               in case db_insert_reference env reference_data r of
                    (Inr u, r') \<Rightarrow>
                       r'\<lparr>references_created := references_created r' + 1,
                          inserted_reference_pairs :=
                            insert ref_pair (inserted_reference_pairs r')\<rparr>
                  | (Inl e_ref, r') \<Rightarrow> r'\<lparr>reference_errors := reference_errors r' + 1\<rparr>)
         else r)"

text \<open>One iteration of \<open>for source_orig_id, target_orig_id in exact_resolved_references\<close>.\<close>

definition exact_reference ::
  "('w, 'p, 't) env \<Rightarrow> pyid \<times> pyid \<Rightarrow> 'w run \<Rightarrow> 'w run" where
  "exact_reference env pair r =
     (case map_of (original_id_to_db_id_map r) (fst pair) of
        None \<Rightarrow> r
      | Some source_db_id \<Rightarrow>
         (case map_of (original_id_to_db_id_map r) (snd pair) of
            None \<Rightarrow> r
          | Some target_db_id \<Rightarrow>
             if source_db_id \<noteq> 0 \<and> target_db_id \<noteq> 0 \<and> source_db_id \<noteq> target_db_id
             then insert_reference_pair env ''related_section_exact'' 0.9
                    source_db_id target_db_id r
             else r))"

definition exact_references ::
  "('w, 'p, 't) env \<Rightarrow> (pyid \<times> pyid) list \<Rightarrow> 'w run \<Rightarrow> 'w run" where
  "exact_references env refs r = fold (exact_reference env) refs r"

text \<open>One iteration of \<open>for target_node in target_nodes\<close>.\<close>

definition fuzzy_target ::
  "('w, 'p, 't) env \<Rightarrow> int \<Rightarrow> found_node \<Rightarrow> 'w run \<Rightarrow> 'w run" where
  "fuzzy_target env source_db_id target_node r =
     (case fn_id target_node of
        None \<Rightarrow> r
      | Some target_db_id \<Rightarrow>
         if target_db_id \<noteq> 0
            \<and> target_db_id \<in> snd ` set (original_id_to_db_id_map r)
            \<and> target_db_id \<noteq> source_db_id
         then insert_reference_pair env ''related_section_fuzzy'' 0.7
                source_db_id target_db_id r
         else r)"

text \<open>One iteration of the inner \<open>for related_path_item in related_sections\<close>.\<close>

definition fuzzy_item ::
  "('w, 'p, 't) env \<Rightarrow> int \<Rightarrow> mention \<Rightarrow> 'w run \<Rightarrow> 'w run" where
  "fuzzy_item env source_db_id related_path_item r =
     (case path_key_str related_path_item of
        None \<Rightarrow> r
      | Some key \<Rightarrow>
         (case map_of (fuzzy_path_to_nodes_map r) key of
            None \<Rightarrow> r
          | Some target_nodes \<Rightarrow> fold (fuzzy_target env source_db_id) target_nodes r))"

text \<open>One iteration of \<open>for original_id, chunk_data in original_id_to_chunk_map.items()\<close>.\<close>

definition fuzzy_chunk ::
  "('w, 'p, 't) env \<Rightarrow> pyid \<times> chunk \<Rightarrow> 'w run \<Rightarrow> 'w run" where
  "fuzzy_chunk env item r =
     (case map_of (original_id_to_db_id_map r) (fst item) of
        None \<Rightarrow> r
      | Some source_db_id \<Rightarrow>
         if source_db_id = 0 then r
         else fold (fuzzy_item env source_db_id) (related_of (snd item)) r)"

definition fuzzy_references ::
  "('w, 'p, 't) env \<Rightarrow> (pyid \<times> chunk) list \<Rightarrow> 'w run \<Rightarrow> 'w run" where
  "fuzzy_references env chunk_map r = fold (fuzzy_chunk env) chunk_map r"

section \<open>\<open>process_document\<close>\<close>

text \<open>\<open>document_id or Path(file_path).stem\<close>: an empty string counts as absent.\<close>

definition effective_document_id ::
  "('w, 'p, 't) env \<Rightarrow> string \<Rightarrow> string option \<Rightarrow> string" where
  "effective_document_id env file_path document_id =
     (case document_id of
        None \<Rightarrow> path_stem env file_path
      | Some d \<Rightarrow> if d \<noteq> [] then d else path_stem env file_path)"

text \<open>
  The characters that \<open>str.strip()\<close> removes, among the code points below 256.
\<close>

definition py_isspace :: "char \<Rightarrow> bool" where
  "py_isspace c =
     (let n = (of_char c :: nat)
      in (9 \<le> n \<and> n \<le> 13) \<or> (28 \<le> n \<and> n \<le> 32) \<or> n = 133 \<or> n = 160)"

definition upstream :: "('w \<Rightarrow> 'a \<times> 'w) \<Rightarrow> 'w run \<Rightarrow> 'a \<times> 'w run" where
  "upstream f r = (case f (world r) of (x, w) \<Rightarrow> (x, r\<lparr>world := w\<rparr>))"

text \<open>Phases 1 to 3: parse, chunk, enrich. \<open>None\<close> when the run has to stop.\<close>

definition enrich ::
  "('w, 'p, 't) env \<Rightarrow> string \<Rightarrow> 'w run \<Rightarrow> chunk list option \<times> 'w run" where
  "enrich env markdown_text r =
     (case upstream (parse_document env markdown_text) r of
        (Inl e, r1) \<Rightarrow> (None, r1)
      | (Inr parsed_doc, r1) \<Rightarrow>
         (case upstream (build_hierarchy_tree env parsed_doc) r1 of
            (Inl e, r2) \<Rightarrow> (None, r2)
          | (Inr None, r2) \<Rightarrow> (None, r2)
          | (Inr (Some doc_tree_root), r2) \<Rightarrow>
             (case upstream (create_chunks env doc_tree_root) r2 of
                (Inl e, r3) \<Rightarrow> (None, r3)
              | (Inr chunks, r3) \<Rightarrow>
                 (case upstream (process_chunks env chunks doc_tree_root) r3 of
                    (Inl e, r4) \<Rightarrow> (None, r4)
                  | (Inr enriched_chunks, r4) \<Rightarrow> (Some enriched_chunks, r4)))))"

text \<open>
  From the clearing of the document's old nodes to the end: insert the nodes, stop if none
  could be inserted, then set the parent links and create the references.
\<close>

definition store_graph ::
  "('w, 'p, 't) env \<Rightarrow> string \<Rightarrow> (pyid \<times> chunk) list \<Rightarrow> (pyid \<times> pyid) list \<Rightarrow> node list
     \<Rightarrow> 'w run \<Rightarrow> string option \<times> 'w run" where
  "store_graph env effective_id chunk_map exact_refs db_nodes_with_embeddings r =
     (let r1 = snd (db_delete_nodes_by_document_id env effective_id r);
          r2 = insert_nodes env db_nodes_with_embeddings r1
      in if inserted_count r2 = 0 \<and> failed_count r2 > 0 then (None, r2)
         else (let r3 = set_parent_links env chunk_map r2;
                   r4 = exact_references env exact_refs r3;
                   r5 = fuzzy_references env chunk_map r4
               in (Some effective_id, r5)))"

text \<open>Phase 4, from the enriched chunks on.\<close>

definition phase4 ::
  "('w, 'p, 't) env \<Rightarrow> string \<Rightarrow> chunk list \<Rightarrow> 'w run \<Rightarrow> string option \<times> 'w run" where
  "phase4 env effective_id enriched_chunks r =
     (let m = node_mapper effective_id enriched_chunks
      in if db_nodes_to_insert m = [] then (Some effective_id, r)
         else (let res = resolve_references m;
                   r1 = fuzzy_lookups env effective_id (paths_needing_fuzzy_lookup res) r
               in case embedder_generate_node_embeddings env (db_nodes_to_insert m) r1 of
                    (Inl e, r2) \<Rightarrow> (None, r2)
                  | (Inr db_nodes_with_embeddings, r2) \<Rightarrow>
                      store_graph env effective_id (original_id_to_chunk_map m)
                        (exact_resolved_references res) db_nodes_with_embeddings r2))"

text \<open>
  The whole function. It returns the document id or \<open>None\<close>, here together with the
  final state of the run. Printing is left out.
\<close>

definition process_document ::
  "('w, 'p, 't) env \<Rightarrow> string \<Rightarrow> string option \<Rightarrow> 'w \<Rightarrow> string option \<times> 'w run" where
  "process_document env file_path document_id w =
     (let r = run_init w
      in if \<not> path_exists env file_path w then (None, r)
         else (let effective_id = effective_document_id env file_path document_id
               in case upstream (init_components env) r of
                    (Inl e, r1) \<Rightarrow> (None, r1)
                  | (Inr u, r1) \<Rightarrow>
                     (case upstream (read_text env file_path) r1 of
                        (Inl e, r2) \<Rightarrow> (None, r2)
                      | (Inr markdown_text, r2) \<Rightarrow>
                         if list_all py_isspace markdown_text then (Some effective_id, r2)
                         else (case enrich env markdown_text r2 of
                                 (None, r3) \<Rightarrow> (None, r3)
                               | (Some enriched_chunks, r3) \<Rightarrow>
                                   phase4 env effective_id enriched_chunks r3))))"

section \<open>Properties of the logged calls\<close>

text \<open>
  \<open>gated_insert\<close>: a call of \<open>insert_node\<close> is made for a record whose metadata has a
  true \<open>original_id\<close> and \<open>embedding_generated = True\<close>. \<open>no_self_reference\<close>: a call of
  \<open>insert_reference\<close> has two different ends.
\<close>

fun gated_insert :: "call \<Rightarrow> bool" where
  "gated_insert (InsertNode n x) =
     (embedding_generated n \<and> (case original_id_of n of None \<Rightarrow> False | Some i \<Rightarrow> id_truthy i))"
| "gated_insert c = True"

fun no_self_reference :: "call \<Rightarrow> bool" where
  "no_self_reference (InsertReference ref ok) = (source_node_id ref \<noteq> target_node_id ref)"
| "no_self_reference c = True"

text \<open>What every phase may log; used to carry facts about the log through a run.\<close>

fun expected_call :: "call \<Rightarrow> bool" where
  "expected_call (FindNodesByPath p n ok) = (n = 10)"
| "expected_call (InsertNode n x) =
     (embedding_generated n \<and> (case original_id_of n of None \<Rightarrow> False | Some i \<Rightarrow> id_truthy i))"
| "expected_call (InsertReference ref ok) = (source_node_id ref \<noteq> target_node_id ref)"
| "expected_call c = True"

definition adds_only :: "(call \<Rightarrow> bool) \<Rightarrow> 'w run \<Rightarrow> 'w run \<Rightarrow> bool" where
  "adds_only K r r' = (\<exists>cs. calls r' = calls r @ cs \<and> list_all K cs)"

text \<open>
  The directed pairs of storage ids for which \<open>insert_reference\<close> was called, in order,
  and those for which the call returned.
\<close>

fun reference_attempts :: "call list \<Rightarrow> (int \<times> int) list" where
  "reference_attempts [] = []"
| "reference_attempts (InsertReference ref ok # cs) =
     (source_node_id ref, target_node_id ref) # reference_attempts cs"
| "reference_attempts (c # cs) = reference_attempts cs"

fun references_written :: "call list \<Rightarrow> (int \<times> int) list" where
  "references_written [] = []"
| "references_written (InsertReference ref ok # cs) =
     (if ok then (source_node_id ref, target_node_id ref) # references_written cs
      else references_written cs)"
| "references_written (c # cs) = references_written cs"

text \<open>
  \<open>passes_gate\<close>: the two tests before \<open>db.insert_node(node)\<close>. \<open>inserted_nodes\<close>,
  \<open>stored_ids\<close> and \<open>failed_inserts\<close>: the records passed to \<open>insert_node\<close>, the storage
  ids it returned, and the number of its calls that raised.
\<close>

definition passes_gate :: "node \<Rightarrow> bool" where
  "passes_gate n =
     (embedding_generated n \<and> (case original_id_of n of None \<Rightarrow> False | Some i \<Rightarrow> id_truthy i))"

fun inserted_nodes :: "call list \<Rightarrow> node list" where
  "inserted_nodes [] = []"
| "inserted_nodes (InsertNode n x # cs) = n # inserted_nodes cs"
| "inserted_nodes (c # cs) = inserted_nodes cs"

fun stored_ids :: "call list \<Rightarrow> int list" where
  "stored_ids [] = []"
| "stored_ids (InsertNode n x # cs) =
     (case x of None \<Rightarrow> stored_ids cs | Some i \<Rightarrow> i # stored_ids cs)"
| "stored_ids (c # cs) = stored_ids cs"

fun failed_inserts :: "call list \<Rightarrow> nat" where
  "failed_inserts [] = 0"
| "failed_inserts (InsertNode n x # cs) =
     (case x of None \<Rightarrow> Suc (failed_inserts cs) | Some i \<Rightarrow> failed_inserts cs)"
| "failed_inserts (c # cs) = failed_inserts cs"

text \<open>The two counters of the insertion loop, for carrying them through the other loops.\<close>

definition node_counts :: "'w run \<Rightarrow> nat \<times> nat" where
  "node_counts r = (inserted_count r, failed_count r)"

section \<open>A small store, for running the model\<close>

text \<open>
  A world in which the store hands out consecutive ids and can be told to fail: the next
  \<open>ref_failures\<close> calls of \<open>insert_reference\<close> raise, \<open>embed_fails\<close> makes the
  embedding call raise, \<open>insert_fails\<close> makes every \<open>insert_node\<close> raise. The embedding
  generator gives no embedding to a node with empty content. \<open>find_nodes_by_path\<close>
  returns the rows \<open>found\<close>; the chunker returns \<open>cs\<close>.
\<close>

record demo_world =
  next_id :: int
  ref_failures :: nat
  embed_fails :: bool
  insert_fails :: bool

definition demo_embed :: "node \<Rightarrow> node" where
  "demo_embed n =
     (let ok = (n_content n \<noteq> PStr [])
      in n\<lparr>n_metadata := map_option (\<lambda>p. p\<lparr>p_embedding_generated := Some ok\<rparr>) (n_metadata n),
           n_embedding := (if ok then Some [0] else None)\<rparr>)"

definition demo_env :: "chunk list \<Rightarrow> found_node list \<Rightarrow> (demo_world, string, string) env" where
  "demo_env cs found =
     \<lparr> path_exists = (\<lambda>p w. True),
       path_stem = (\<lambda>p. takeWhile (\<lambda>c. c \<noteq> CHR ''.'') p),
       init_components = (\<lambda>w. (Inr (), w)),
       read_text = (\<lambda>p w. (Inr ''# Guide'', w)),
       parse_document = (\<lambda>t w. (Inr t, w)),
       build_hierarchy_tree = (\<lambda>d w. (Inr (Some d), w)),
       create_chunks = (\<lambda>t w. (Inr cs, w)),
       process_chunks = (\<lambda>xs t w. (Inr xs, w)),
       find_nodes_by_path = (\<lambda>p n w. (Inr found, w)),
       generate_node_embeddings =
         (\<lambda>ns w. if embed_fails w then (Inl ''no provider'', w)
                  else (Inr (map demo_embed ns), w)),
       delete_nodes_by_document_id = (\<lambda>d w. (Inr 0, w)),
       insert_node =
         (\<lambda>n w. if insert_fails w then (Inl ''store unavailable'', w)
                 else (Inr (next_id w), w\<lparr>next_id := next_id w + 1\<rparr>)),
       update_node_parent = (\<lambda>i j w. (Inr (), w)),
       insert_reference =
         (\<lambda>ref w. if ref_failures w > 0
                   then (Inl ''store unavailable'', w\<lparr>ref_failures := ref_failures w - 1\<rparr>)
                   else (Inr (), w)) \<rparr>"

definition demo_world0 :: demo_world where
  "demo_world0 = \<lparr> next_id = 1, ref_failures = 0, embed_fails = False, insert_fails = False \<rparr>"

definition demo_chunk ::
  "pyid \<Rightarrow> string list \<Rightarrow> string \<Rightarrow> mention list \<Rightarrow> pyid option \<Rightarrow> chunk" where
  "demo_chunk i hp text rel parent =
     \<lparr> c_id = Some i,
       c_metadata = Some \<lparr> md_hierarchy_path = Some (map PStr hp),
                           md_related_sections = Some rel,
                           md_parent_id = parent,
                           md_section_type = None, md_content_type = None,
                           md_document_position = None, md_link_count = None,
                           md_contains_links = None, md_embedding_generated = None,
                           md_other = [] \<rparr>,
       c_type = Some (PStr ''section''), c_title = None,
       c_content = Some (PStr text), c_level = None \<rparr>"

text \<open>
  The document of the scenario: \<open>Guide\<close> and \<open>Guide > Step1\<close>, where the second chunk
  mentions the first twice (as a string and as a list), itself, and a path that no chunk
  has; a third chunk has no content and so gets no embedding.
\<close>

definition guide_chunks :: "chunk list" where
  "guide_chunks =
     [demo_chunk (StrId ''id1'') [''Guide''] ''intro'' [MStr ''Missing''] None,
      demo_chunk (StrId ''id2'') [''Guide'', ''Step1''] ''step''
        [MStr ''Guide'', MList [PStr ''Guide''], MStr ''Guide > Step1'',
         MStr ''Missing'', MOther (PInt 7)]
        (Some (StrId ''id1'')),
      demo_chunk (StrId ''id3'') [''Guide'', ''Empty''] [] [] (Some (StrId ''id1''))]"

definition guide_found :: "found_node list" where
  "guide_found =
     [\<lparr> fn_id = Some 1, fn_document_id = Some ''guide'', fn_path = ''Missing'' \<rparr>,
      \<lparr> fn_id = Some 2, fn_document_id = Some ''guide'', fn_path = ''Missing > A'' \<rparr>,
      \<lparr> fn_id = Some 2, fn_document_id = Some ''other'', fn_path = ''Missing'' \<rparr>,
      \<lparr> fn_id = Some 9, fn_document_id = Some ''guide'', fn_path = ''Missing > B'' \<rparr>]"

definition guide_run :: "string option \<times> demo_world run" where
  "guide_run = process_document (demo_env guide_chunks guide_found) ''guide.md'' None demo_world0"

text \<open>A node record for which the embedding generator reported failure.\<close>

definition unembedded_node :: node where
  "unembedded_node =
     \<lparr> n_document_id = ''guide'', n_node_type = PStr ''section'', n_title = PNone,
       n_content = PStr [], n_level = PNone, n_path = ''Guide > Empty'',
       n_section_type = PStr ''unknown'', n_content_type = PStr ''text'',
       n_document_position = PNone,
       n_metadata = Some \<lparr> p_original_id = Some (StrId ''id3''),
                           p_embedding_generated = Some False,
                           p_link_count = PNone, p_contains_links = PNone,
                           p_related_sections = Some [], p_other = [] \<rparr>,
       n_embedding = None \<rparr>"

text \<open>
  \<open>counted\<close>: the counters agree with the log. \<open>run_summary\<close>: what the returned
  value and the final state of a run say about each other.
\<close>

definition counted :: "'w run \<Rightarrow> bool" where
  "counted r = (inserted_count r = length (stored_ids (calls r))
     \<and> failed_inserts (calls r) \<le> failed_count r)"

definition run_summary ::
  "string \<Rightarrow> string option \<Rightarrow> 'w run \<Rightarrow> bool" where
  "run_summary eff res r =
     ((\<forall>ns. GenerateNodeEmbeddings ns None \<in> set (calls r) \<longrightarrow>
          res = None \<and> list_all (\<lambda>c. is_find c \<or> is_generate c) (calls r))
      \<and> (\<forall>ns ns'. GenerateNodeEmbeddings ns (Some ns') \<in> set (calls r) \<longrightarrow>
            inserted_nodes (calls r) = filter passes_gate ns'
          \<and> inserted_count r + failed_count r = length ns'
          \<and> (res = None) = (inserted_count r = 0 \<and> 0 < failed_count r))
      \<and> counted r
      \<and> (inserted_count r = 0 \<and> 0 < failed_count r \<longrightarrow> res = None)
      \<and> (res \<noteq> None \<longrightarrow> res = Some eff))"

text \<open>The guide document when every \<open>insert_node\<close> raises, and when the embedding call raises.\<close>

definition failing_run :: "string option \<times> demo_world run" where
  "failing_run = process_document (demo_env guide_chunks guide_found) ''guide.md'' None
     (demo_world0\<lparr>insert_fails := True\<rparr>)"

definition unembedded_run :: "string option \<times> demo_world run" where
  "unembedded_run = process_document (demo_env guide_chunks guide_found) ''guide.md'' None
     (demo_world0\<lparr>embed_fails := True\<rparr>)"

text \<open>
  \<open>checked_before_write seen cs\<close>: no call of \<open>insert_reference\<close> in \<open>cs\<close> is for a
  pair in \<open>seen\<close> or for a pair that an earlier call in \<open>cs\<close> has written.
  \<open>dedup_ok\<close>: the dedup set is the set of pairs written so far, each written once.
\<close>

fun checked_before_write :: "(int \<times> int) set \<Rightarrow> call list \<Rightarrow> bool" where
  "checked_before_write seen [] = True"
| "checked_before_write seen (InsertReference ref ok # cs) =
     ((source_node_id ref, target_node_id ref) \<notin> seen
      \<and> checked_before_write
          (if ok then insert (source_node_id ref, target_node_id ref) seen else seen) cs)"
| "checked_before_write seen (c # cs) = checked_before_write seen cs"

definition dedup_ok :: "'w run \<Rightarrow> bool" where
  "dedup_ok r =
     (distinct (references_written (calls r))
      \<and> inserted_reference_pairs r = set (references_written (calls r))
      \<and> checked_before_write {} (calls r))"

text \<open>The guide document when the first \<open>insert_reference\<close> raises.\<close>

definition retry_run :: "string option \<times> demo_world run" where
  "retry_run = process_document (demo_env guide_chunks guide_found) ''guide.md'' None
     (demo_world0\<lparr>ref_failures := 1\<rparr>)"

text \<open>
  Chunks that the first loop discards: one without \<open>id\<close>, one without \<open>metadata\<close>.
\<close>

definition discarded_chunks :: "chunk list" where
  "discarded_chunks =
     [(demo_chunk (StrId ''id1'') [''Guide''] ''intro'' [] None)\<lparr>c_id := None\<rparr>,
      (demo_chunk (StrId ''id2'') [''Guide'', ''Step1''] ''step'' [MStr ''Guide''] None)
        \<lparr>c_metadata := None\<rparr>]"

text \<open>
  For the fuzzy lookups: the pattern and the cap of a lookup call, the number of lookup
  calls that raised, the calls that a loop has added to the log, and the rows of a result
  that belong to the document.
\<close>

fun query_of :: "call \<Rightarrow> (string \<times> nat) option" where
  "query_of (FindNodesByPath p n x) = Some (p, n)"
| "query_of c = None"

fun raised_finds :: "call list \<Rightarrow> nat" where
  "raised_finds [] = 0"
| "raised_finds (FindNodesByPath p n x # cs) =
     (case x of None \<Rightarrow> Suc (raised_finds cs) | Some rows \<Rightarrow> raised_finds cs)"
| "raised_finds (c # cs) = raised_finds cs"

definition new_calls :: "'w run \<Rightarrow> 'w run \<Rightarrow> call list" where
  "new_calls r r' = drop (length (calls r)) (calls r')"

definition same_document :: "string \<Rightarrow> found_node list \<Rightarrow> found_node list" where
  "same_document d rows = filter (\<lambda>n. fn_document_id n = Some d) rows"

text \<open>
  A document whose chunks mention three paths that no chunk has, and a store for it in
  which the lookup of \<open>%Gone%\<close> raises, the lookup of \<open>%Missing%\<close> returns the rows
  \<open>guide_found\<close>, and every other lookup returns a row of another document.
\<close>

definition lookup_chunks :: "chunk list" where
  "lookup_chunks =
     [demo_chunk (StrId ''id1'') [''Guide''] ''intro'' [MStr ''Missing'', MStr ''Gone''] None,
      demo_chunk (StrId ''id2'') [''Guide'', ''Step1''] ''step''
        [MStr ''Gone'', MList [PStr ''Elsewhere''], MStr ''Missing''] (Some (StrId ''id1''))]"

definition lookup_env :: "(demo_world, string, string) env" where
  "lookup_env = (demo_env lookup_chunks guide_found)
     \<lparr> find_nodes_by_path :=
         (\<lambda>p n w. if p = ''%Gone%'' then (Inl ''timeout'', w)
                  else if p = ''%Missing%'' then (Inr guide_found, w)
                  else (Inr [\<lparr> fn_id = Some 5, fn_document_id = Some ''other'',
                               fn_path = p \<rparr>], w)) \<rparr>"

text \<open>What the store answers to the lookup of a pattern in the present world.\<close>

definition lookup_result ::
  "('w, 'p, 't) env \<Rightarrow> string \<Rightarrow> 'w run \<Rightarrow> found_node list option" where
  "lookup_result env p r =
     returned_value (fst (find_nodes_by_path env (''%'' @ p @ ''%'') 10 (world r)))"

text \<open>
  What a chunk writes into the path index: its path key and its id, or nothing when the
  chunk is discarded, has the sentinel as path, or has an id that is false in Python.
\<close>

definition registered_key :: "chunk \<Rightarrow> (string \<times> pyid) option" where
  "registered_key c =
     (case c_id c of
        None \<Rightarrow> None
      | Some original_id \<Rightarrow>
         (case c_metadata c of
            None \<Rightarrow> None
          | Some md \<Rightarrow>
             (let path_str = path_str_of (md_hierarchy_path md)
              in if path_str \<noteq> unknown_path \<and> id_truthy original_id
                 then Some (path_str, original_id) else None)))"


definition clash_chunks :: "chunk list" where
  "clash_chunks =
     [demo_chunk (StrId ''a'') [''P''] ''first'' [] None,
      demo_chunk (IntId 0) [''P''] ''second'' [] None]"

definition twin_chunks :: "chunk list" where
  "twin_chunks =
     [demo_chunk (StrId ''a'') [''P''] ''first'' [] None,
      demo_chunk (StrId ''b'') [''P''] ''second'' [] None,
      demo_chunk (StrId ''c'') [''Q''] ''third'' [MStr ''P''] None]"

text \<open>The output of the lookup loop, for carrying it through the later loops.\<close>

definition lookup_state :: "'w run \<Rightarrow> (string \<times> found_node list) list \<times> nat" where
  "lookup_state r = (fuzzy_path_to_nodes_map r, fuzzy_lookup_errors r)"

text \<open>The run on the document \<open>lookup_chunks\<close> with the store \<open>lookup_env\<close>.\<close>

definition lookup_run :: "string option \<times> demo_world run" where
  "lookup_run = process_document lookup_env ''guide.md'' None demo_world0"

text \<open>
  The outcome of every \<open>insert_reference\<close> call of a log: the pair and whether the call
  returned.
\<close>

fun reference_outcomes :: "call list \<Rightarrow> ((int \<times> int) \<times> bool) list" where
  "reference_outcomes [] = []"
| "reference_outcomes (InsertReference ref ok # cs) =
     ((source_node_id ref, target_node_id ref), ok) # reference_outcomes cs"
| "reference_outcomes (c # cs) = reference_outcomes cs"

text \<open>
  The pairs of storage ids that the two passes come across, in order, before the dedup set
  is consulted: for the exact pass the candidates whose two ends have a storage id, for the
  fuzzy pass the stored rows found for the mentions of every inserted chunk. They follow
  the three guards of the code (both ids true, target known in this run, ends different).
\<close>

definition exact_discovered :: "(pyid \<times> int) list \<Rightarrow> (pyid \<times> pyid) list \<Rightarrow> (int \<times> int) list" where
  "exact_discovered id_map refs =
     concat (map (\<lambda>pr.
        case map_of id_map (fst pr) of
          None \<Rightarrow> []
        | Some source_db_id \<Rightarrow>
           (case map_of id_map (snd pr) of
              None \<Rightarrow> []
            | Some target_db_id \<Rightarrow>
               if source_db_id \<noteq> 0 \<and> target_db_id \<noteq> 0 \<and> source_db_id \<noteq> target_db_id
               then [(source_db_id, target_db_id)] else [])) refs)"

definition fuzzy_targets_discovered ::
  "(pyid \<times> int) list \<Rightarrow> int \<Rightarrow> found_node list \<Rightarrow> (int \<times> int) list" where
  "fuzzy_targets_discovered id_map source_db_id target_nodes =
     concat (map (\<lambda>target_node.
        case fn_id target_node of
          None \<Rightarrow> []
        | Some target_db_id \<Rightarrow>
           if target_db_id \<noteq> 0 \<and> target_db_id \<in> snd ` set id_map
              \<and> target_db_id \<noteq> source_db_id
           then [(source_db_id, target_db_id)] else []) target_nodes)"

definition fuzzy_items_discovered ::
  "(pyid \<times> int) list \<Rightarrow> (string \<times> found_node list) list \<Rightarrow> int \<Rightarrow> mention list
     \<Rightarrow> (int \<times> int) list" where
  "fuzzy_items_discovered id_map fuzzy_map source_db_id related_sections =
     concat (map (\<lambda>related_path_item.
        case path_key_str related_path_item of
          None \<Rightarrow> []
        | Some key \<Rightarrow>
           (case map_of fuzzy_map key of
              None \<Rightarrow> []
            | Some target_nodes \<Rightarrow>
                fuzzy_targets_discovered id_map source_db_id target_nodes)) related_sections)"

definition fuzzy_discovered ::
  "(pyid \<times> int) list \<Rightarrow> (string \<times> found_node list) list \<Rightarrow> (pyid \<times> chunk) list
     \<Rightarrow> (int \<times> int) list" where
  "fuzzy_discovered id_map fuzzy_map chunk_map =
     concat (map (\<lambda>item.
        case map_of id_map (fst item) of
          None \<Rightarrow> []
        | Some source_db_id \<Rightarrow>
           if source_db_id = 0 then []
           else fuzzy_items_discovered id_map fuzzy_map source_db_id (related_of (snd item)))
        chunk_map)"

text \<open>
  \<open>attempts_follow written ps outs\<close>: walking through the pairs \<open>ps\<close> in order, a pair
  that is already written is passed over, every other pair is attempted, and after the
  attempt the pair is written exactly when the call returned; \<open>outs\<close> are the outcomes of
  these attempts and of no other.
\<close>

fun attempts_follow ::
  "(int \<times> int) set \<Rightarrow> (int \<times> int) list \<Rightarrow> ((int \<times> int) \<times> bool) list \<Rightarrow> bool" where
  "attempts_follow written [] outs = (outs = [])"
| "attempts_follow written (p # ps) outs =
     (if p \<in> written then attempts_follow written ps outs
      else (case outs of
              [] \<Rightarrow> False
            | out # outs' \<Rightarrow>
                fst out = p
                \<and> attempts_follow (if snd out then insert p written else written) ps outs'))"

text \<open>What a pass does to a run when it comes across the pairs \<open>ps\<close>.\<close>

definition attempts_from :: "(int \<times> int) list \<Rightarrow> 'w run \<Rightarrow> 'w run \<Rightarrow> bool" where
  "attempts_from ps r r' =
     (\<exists>cs. calls r' = calls r @ cs
        \<and> list_all is_insert_reference cs
        \<and> attempts_follow (inserted_reference_pairs r) ps (reference_outcomes cs)
        \<and> inserted_reference_pairs r' = inserted_reference_pairs r \<union> set (references_written cs)
        \<and> original_id_to_db_id_map r' = original_id_to_db_id_map r
        \<and> fuzzy_path_to_nodes_map r' = fuzzy_path_to_nodes_map r)"

text \<open>The guide document when the first four \<open>insert_reference\<close> calls raise.\<close>

definition refused_run :: "string option \<times> demo_world run" where
  "refused_run = process_document (demo_env guide_chunks guide_found) ''guide.md'' None
     (demo_world0\<lparr>ref_failures := 4\<rparr>)"

text \<open>
  A document with a single chunk that has no content, so that the embedding call returns
  a batch whose only record has no embedding, and the run on it.
\<close>

definition hollow_chunks :: "chunk list" where
  "hollow_chunks = [demo_chunk (StrId ''id1'') [''Guide''] [] [] None]"

definition hollow_run :: "string option \<times> demo_world run" where
  "hollow_run = process_document (demo_env hollow_chunks guide_found) ''guide.md'' None
     demo_world0"

section \<open>Loops and logged calls\<close>

lemma fold_invariant:
  assumes "P a" and "\<And>x b. x \<in> set xs \<Longrightarrow> P b \<Longrightarrow> P (f x b)"
  shows "P (fold f xs a)"
  using assms by (induction xs arbitrary: a) auto

lemma fold_preserves:
  assumes "\<And>x b. g (f x b) = g b"
  shows "g (fold f xs a) = g a"
  using assms by (induction xs arbitrary: a) auto

lemma adds_only_refl: "adds_only K r r"
  by (simp add: adds_only_def)

lemma adds_only_trans: "adds_only K r r' \<Longrightarrow> adds_only K r' r'' \<Longrightarrow> adds_only K r r''"
  by (auto simp: adds_only_def)

lemma adds_only_mono: "adds_only K r r' \<Longrightarrow> (\<And>c. K c \<Longrightarrow> Q c) \<Longrightarrow> adds_only Q r r'"
  by (auto simp: adds_only_def list_all_iff)

lemma adds_only_fold:
  assumes "\<And>x b. adds_only K b (f x b)"
  shows "adds_only K a (fold f xs a)"
proof (induction xs arbitrary: a)
  case Nil
  show ?case by (simp add: adds_only_refl)
next
  case (Cons x xs)
  show ?case using adds_only_trans [OF assms [of a x] Cons.IH [of "f x a"]] by simp
qed

lemma adds_only_logged: "K c \<Longrightarrow> adds_only K r (logged w c r)"
  by (simp add: adds_only_def logged_def)

lemma adds_only_list_all:
  "adds_only K r r' \<Longrightarrow> list_all K (calls r) \<Longrightarrow> list_all K (calls r')"
  by (auto simp: adds_only_def)


section \<open>What each step logs\<close>

lemma upstream_calls [simp]: "calls (snd (upstream f r)) = calls r"
  by (simp add: upstream_def split: prod.splits)

lemma upstream_adds: "upstream f r = (x, r') \<Longrightarrow> adds_only K r r'"
  by (auto simp: upstream_def adds_only_def split: prod.splits)

lemma fuzzy_lookup_adds:
  "adds_only (\<lambda>c. is_find c \<and> expected_call c) r (fuzzy_lookup env d p r)"
  by (auto simp: fuzzy_lookup_def db_find_nodes_by_path_def Let_def
      intro!: adds_only_logged adds_only_trans [OF adds_only_logged]
      simp: adds_only_def logged_def split: prod.splits sum.splits)

lemma fuzzy_lookups_adds:
  "adds_only (\<lambda>c. is_find c \<and> expected_call c) r (fuzzy_lookups env d ps r)"
  unfolding fuzzy_lookups_def by (rule adds_only_fold) (rule fuzzy_lookup_adds)

lemma insert_one_adds:
  "adds_only (\<lambda>c. is_insert_node c \<and> expected_call c) r (insert_one env n r)"
  by (auto simp: insert_one_def db_insert_node_def count_failed_def adds_only_def logged_def
      split: prod.splits sum.splits option.splits)

lemma insert_nodes_adds:
  "adds_only (\<lambda>c. is_insert_node c \<and> expected_call c) r (insert_nodes env ns r)"
  unfolding insert_nodes_def by (rule adds_only_fold) (rule insert_one_adds)

lemma set_parent_link_adds:
  "adds_only is_update_parent r (set_parent_link env cm item r)"
  by (auto simp: set_parent_link_def db_update_node_parent_def adds_only_def logged_def
      split: prod.splits sum.splits option.splits)

lemma set_parent_links_adds:
  "adds_only is_update_parent r (set_parent_links env cm r)"
  unfolding set_parent_links_def by (rule adds_only_fold) (rule set_parent_link_adds)

lemma insert_reference_pair_adds:
  "s \<noteq> t \<Longrightarrow>
   adds_only (\<lambda>c. is_insert_reference c \<and> expected_call c) r
     (insert_reference_pair env ty st s t r)"
  by (auto simp: insert_reference_pair_def db_insert_reference_def adds_only_def logged_def
      Let_def split: prod.splits sum.splits)

lemma exact_reference_adds:
  "adds_only (\<lambda>c. is_insert_reference c \<and> expected_call c) r (exact_reference env pr r)"
  by (auto simp: exact_reference_def adds_only_refl insert_reference_pair_adds
      split: option.splits)

lemma exact_references_adds:
  "adds_only (\<lambda>c. is_insert_reference c \<and> expected_call c) r (exact_references env refs r)"
  unfolding exact_references_def by (rule adds_only_fold) (rule exact_reference_adds)

lemma fuzzy_target_adds:
  "adds_only (\<lambda>c. is_insert_reference c \<and> expected_call c) r (fuzzy_target env s tn r)"
  by (auto simp: fuzzy_target_def adds_only_refl insert_reference_pair_adds
      split: option.splits)

lemma fuzzy_item_adds:
  "adds_only (\<lambda>c. is_insert_reference c \<and> expected_call c) r (fuzzy_item env s m r)"
  by (auto simp: fuzzy_item_def adds_only_refl intro!: adds_only_fold fuzzy_target_adds
      split: option.splits)

lemma fuzzy_chunk_adds:
  "adds_only (\<lambda>c. is_insert_reference c \<and> expected_call c) r (fuzzy_chunk env item r)"
  by (auto simp: fuzzy_chunk_def adds_only_refl intro!: adds_only_fold fuzzy_item_adds
      split: option.splits)

lemma fuzzy_references_adds:
  "adds_only (\<lambda>c. is_insert_reference c \<and> expected_call c) r (fuzzy_references env cm r)"
  unfolding fuzzy_references_def by (rule adds_only_fold) (rule fuzzy_chunk_adds)


lemma embed_adds:
  "embedder_generate_node_embeddings env ns r = (x, r') \<Longrightarrow> adds_only is_generate r r'"
  by (auto simp: embedder_generate_node_embeddings_def adds_only_def logged_def
      split: prod.splits)

lemma delete_adds:
  "adds_only is_delete r (snd (db_delete_nodes_by_document_id env d r))"
  by (auto simp: db_delete_nodes_by_document_id_def adds_only_def logged_def
      split: prod.splits)

lemma is_delete_expected: "is_delete c \<Longrightarrow> expected_call c"
  by (cases c) auto

lemma is_generate_expected: "is_generate c \<Longrightarrow> expected_call c"
  by (cases c) auto

lemma is_update_parent_expected: "is_update_parent c \<Longrightarrow> expected_call c"
  by (cases c) auto

lemma store_graph_adds:
  "adds_only expected_call r (snd (store_graph env eff cm ex ns r))"
proof -
  let ?r1 = "snd (db_delete_nodes_by_document_id env eff r)"
  let ?r2 = "insert_nodes env ns ?r1"
  let ?r3 = "set_parent_links env cm ?r2"
  let ?r4 = "exact_references env ex ?r3"
  let ?r5 = "fuzzy_references env cm ?r4"
  have 1: "adds_only expected_call r ?r1"
    by (rule adds_only_mono [OF delete_adds]) (rule is_delete_expected)
  have 2: "adds_only expected_call ?r1 ?r2"
    by (rule adds_only_mono [OF insert_nodes_adds]) simp
  have 3: "adds_only expected_call ?r2 ?r3"
    by (rule adds_only_mono [OF set_parent_links_adds]) (rule is_update_parent_expected)
  have 4: "adds_only expected_call ?r3 ?r4"
    by (rule adds_only_mono [OF exact_references_adds]) simp
  have 5: "adds_only expected_call ?r4 ?r5"
    by (rule adds_only_mono [OF fuzzy_references_adds]) simp
  have 12: "adds_only expected_call r ?r2"
    by (rule adds_only_trans [OF 1 2])
  have 15: "adds_only expected_call r ?r5"
    by (rule adds_only_trans [OF 12 adds_only_trans [OF 3 adds_only_trans [OF 4 5]]])
  show ?thesis
    using 12 15 by (simp add: store_graph_def Let_def)
qed

lemma phase4_adds:
  "adds_only expected_call r (snd (phase4 env eff cs r))"
proof (cases "db_nodes_to_insert (node_mapper eff cs) = []")
  case True
  then show ?thesis by (simp add: phase4_def adds_only_refl)
next
  case False
  let ?m = "node_mapper eff cs"
  let ?r1 = "fuzzy_lookups env eff (paths_needing_fuzzy_lookup (resolve_references ?m)) r"
  obtain x r2 where e: "embedder_generate_node_embeddings env (db_nodes_to_insert ?m) ?r1 = (x, r2)"
    by (cases "embedder_generate_node_embeddings env (db_nodes_to_insert ?m) ?r1")
  have 1: "adds_only expected_call r ?r1"
    by (rule adds_only_mono [OF fuzzy_lookups_adds]) simp
  have 2: "adds_only expected_call ?r1 r2"
    by (rule adds_only_mono [OF embed_adds [OF e]]) (rule is_generate_expected)
  have 12: "adds_only expected_call r r2"
    by (rule adds_only_trans [OF 1 2])
  show ?thesis
  proof (cases x)
    case (Inl a)
    then show ?thesis using False e 12 by (simp add: phase4_def Let_def)
  next
    case (Inr ns)
    then show ?thesis
      using False e adds_only_trans [OF 12 store_graph_adds]
      by (simp add: phase4_def Let_def)
  qed
qed

lemma enrich_calls [simp]: "calls (snd (enrich env t r)) = calls r"
proof -
  have u: "\<And>f r x r'. upstream f r = (x, r') \<Longrightarrow> calls r' = calls r"
    by (auto simp: upstream_def split: prod.splits)
  show ?thesis
    by (auto simp: enrich_def dest!: u split: prod.splits sum.splits option.splits)
qed

lemma upstream_calls_eq: "upstream f r = (x, r') \<Longrightarrow> calls r' = calls r"
  by (auto simp: upstream_def split: prod.splits)

lemma enrich_calls_eq: "enrich env t r = (x, r') \<Longrightarrow> calls r' = calls r"
  using enrich_calls [of env t r] by simp

lemma process_document_expected:
  "list_all expected_call (calls (snd (process_document env fp did (w :: 'w))))"
proof -
  have p: "list_all expected_call (calls (snd (phase4 env eff cs r)))" if "calls r = []"
    for eff cs and r :: "'w run"
    using phase4_adds [of r env eff cs] that by (auto simp: adds_only_def)
  show ?thesis
    by (auto simp: process_document_def Let_def run_init_def
        dest!: upstream_calls_eq enrich_calls_eq intro!: p
        split: prod.splits sum.splits option.splits)
qed

section \<open>No self-edges\<close>

lemma resolve_item_no_self:
  "list_all (\<lambda>pr. fst pr \<noteq> snd pr) (exact_resolved_references r) \<Longrightarrow>
   list_all (\<lambda>pr. fst pr \<noteq> snd pr) (exact_resolved_references (resolve_item pm s it r))"
  by (auto simp: resolve_item_def Let_def split: option.splits)

lemma resolve_references_no_self:
  "list_all (\<lambda>pr. fst pr \<noteq> snd pr) (exact_resolved_references (resolve_references m))"
  unfolding resolve_references_def resolve_chunk_def
  by (intro fold_invariant
        [where P = "\<lambda>r. list_all (\<lambda>pr. fst pr \<noteq> snd pr) (exact_resolved_references r)"])
     (auto simp: resolved_empty_def intro: resolve_item_no_self)

lemma expected_no_self: "expected_call c \<Longrightarrow> no_self_reference c"
  by (cases c) auto

text \<open>
  Claim C4. In every run, every call of \<open>insert_reference\<close> (from the exact or from the
  fuzzy pass, whether it returns or raises) has a source storage id different from its
  target storage id; and every exact candidate recorded by the resolver has a source chunk
  different from its target chunk, so a mention that resolves to its own chunk is dropped.
\<close>

theorem no_self_edges:
  "list_all no_self_reference (calls (snd (process_document env file_path document_id w)))
   \<and> list_all (\<lambda>pr. fst pr \<noteq> snd pr) (exact_resolved_references (resolve_references m))"
proof
  have "list_all expected_call (calls (snd (process_document env file_path document_id w)))"
    by (rule process_document_expected)
  then show
    "list_all no_self_reference (calls (snd (process_document env file_path document_id w)))"
    by (auto simp: list_all_iff intro: expected_no_self)
  show "list_all (\<lambda>pr. fst pr \<noteq> snd pr) (exact_resolved_references (resolve_references m))"
    by (rule resolve_references_no_self)
qed

text \<open>
  In the run on the guide document the second chunk mentions its own path and a fuzzy row
  has the id of its source; one exact and one fuzzy edge are written, none of them a loop.
\<close>

theorem no_self_edges_witness:
  "reference_attempts (calls (snd guide_run)) = [(2, 1), (1, 2)]
   \<and> exact_resolved_references (resolve_references (node_mapper ''guide'' guide_chunks))
       = [(StrId ''id2'', StrId ''id1''), (StrId ''id2'', StrId ''id1'')]
   \<and> list_all no_self_reference (calls (snd guide_run))
   \<and> list_all (\<lambda>pr. fst pr \<noteq> snd pr)
        (exact_resolved_references (resolve_references (node_mapper ''guide'' guide_chunks)))"
proof -
  have a: "reference_attempts (calls (snd guide_run)) = [(2, 1), (1, 2)]"
    by code_simp
  have b: "exact_resolved_references (resolve_references (node_mapper ''guide'' guide_chunks))
       = [(StrId ''id2'', StrId ''id1''), (StrId ''id2'', StrId ''id1'')]"
    by code_simp
  show ?thesis
    using a b
      no_self_edges [of "demo_env guide_chunks guide_found" "''guide.md''" None demo_world0
        "node_mapper ''guide'' guide_chunks"]
    by (simp add: guide_run_def)
qed

section \<open>Embedding gate\<close>

lemma inserted_nodes_append [simp]:
  "inserted_nodes (xs @ ys) = inserted_nodes xs @ inserted_nodes ys"
  by (induction xs rule: inserted_nodes.induct) auto

lemma stored_ids_append [simp]: "stored_ids (xs @ ys) = stored_ids xs @ stored_ids ys"
  by (induction xs rule: stored_ids.induct) (auto split: option.splits)

lemma failed_inserts_append [simp]:
  "failed_inserts (xs @ ys) = failed_inserts xs + failed_inserts ys"
  by (induction xs rule: failed_inserts.induct) (auto split: option.splits)

lemma expected_gated: "expected_call c \<Longrightarrow> gated_insert c"
  by (cases c) auto

lemma insert_one_skip:
  "\<not> passes_gate n \<Longrightarrow> insert_one env n r = r\<lparr>failed_count := failed_count r + 1\<rparr>"
  by (auto simp: insert_one_def passes_gate_def count_failed_def split: option.splits)

lemma insert_one_nodes:
  "inserted_nodes (calls (insert_one env n r)) =
     inserted_nodes (calls r) @ (if passes_gate n then [n] else [])"
  by (auto simp: insert_one_def passes_gate_def count_failed_def db_insert_node_def logged_def
      split: option.splits prod.splits sum.splits)

lemma insert_one_counts:
  "inserted_count (insert_one env n r) + failed_count (insert_one env n r) =
     inserted_count r + failed_count r + 1"
  by (auto simp: insert_one_def count_failed_def db_insert_node_def logged_def
      split: option.splits prod.splits sum.splits)

lemma insert_nodes_nodes:
  "inserted_nodes (calls (insert_nodes env ns r)) =
     inserted_nodes (calls r) @ filter passes_gate ns"
  unfolding insert_nodes_def
  by (induction ns arbitrary: r) (auto simp: insert_one_nodes)

lemma insert_nodes_counts:
  "inserted_count (insert_nodes env ns r) + failed_count (insert_nodes env ns r) =
     inserted_count r + failed_count r + length ns"
  unfolding insert_nodes_def
proof (induction ns arbitrary: r)
  case Nil
  show ?case by simp
next
  case (Cons n ns)
  show ?case using Cons.IH [of "insert_one env n r"] insert_one_counts [of env n r] by simp
qed

text \<open>
  Claim C2. In every run, \<open>insert_node\<close> is only ever called with a record whose
  metadata has \<open>embedding_generated = True\<close> (and a true \<open>original_id\<close>). The insertion
  loop calls it for exactly the records of the batch that pass these two tests, in order,
  and counts every record either as inserted or as failed. A record without
  \<open>original_id\<close>, or whose flag is false or absent, is skipped: nothing is called and
  only \<open>failed_count\<close> goes up by one.
\<close>

theorem embedding_gating:
  "list_all gated_insert (calls (snd (process_document env file_path document_id w)))
   \<and> inserted_nodes (calls (insert_nodes env ns r)) =
       inserted_nodes (calls r) @ filter passes_gate ns
   \<and> inserted_count (insert_nodes env ns r) + failed_count (insert_nodes env ns r) =
       inserted_count r + failed_count r + length ns
   \<and> (original_id_of n = None \<or> \<not> embedding_generated n \<longrightarrow>
        \<not> passes_gate n \<and> insert_one env n r = r\<lparr>failed_count := failed_count r + 1\<rparr>)
   \<and> embedding_generated n =
        (\<exists>p. n_metadata n = Some p \<and> p_embedding_generated p = Some True)"
proof (intro conjI)
  have "list_all expected_call (calls (snd (process_document env file_path document_id w)))"
    by (rule process_document_expected)
  then show
    "list_all gated_insert (calls (snd (process_document env file_path document_id w)))"
    by (auto simp: list_all_iff intro: expected_gated)
  show "inserted_nodes (calls (insert_nodes env ns r)) =
       inserted_nodes (calls r) @ filter passes_gate ns"
    by (rule insert_nodes_nodes)
  show "inserted_count (insert_nodes env ns r) + failed_count (insert_nodes env ns r) =
       inserted_count r + failed_count r + length ns"
    by (rule insert_nodes_counts)
  show "original_id_of n = None \<or> \<not> embedding_generated n \<longrightarrow>
        \<not> passes_gate n \<and> insert_one env n r = r\<lparr>failed_count := failed_count r + 1\<rparr>"
  proof
    assume "original_id_of n = None \<or> \<not> embedding_generated n"
    then have "\<not> passes_gate n" by (auto simp: passes_gate_def)
    then show "\<not> passes_gate n \<and> insert_one env n r = r\<lparr>failed_count := failed_count r + 1\<rparr>"
      by (simp add: insert_one_skip)
  qed
  show "embedding_generated n =
        (\<exists>p. n_metadata n = Some p \<and> p_embedding_generated p = Some True)"
    by (auto simp: embedding_generated_def get_or_def split: option.splits)
qed


text \<open>
  The record without an embedding is skipped and counted; the run on the guide document
  inserts the two records with an embedding and counts the third as failed.
\<close>

theorem embedding_gating_witness:
  "(original_id_of unembedded_node = None \<or> \<not> embedding_generated unembedded_node)
   \<and> insert_one (demo_env guide_chunks guide_found) unembedded_node (run_init demo_world0)
       = (run_init demo_world0)\<lparr>failed_count := 1\<rparr>
   \<and> map n_path (inserted_nodes (calls (snd guide_run))) = [''Guide'', ''Guide > Step1'']
   \<and> list_all gated_insert (calls (snd guide_run))
   \<and> inserted_count (snd guide_run) = 2 \<and> failed_count (snd guide_run) = 1"
proof -
  have h: "original_id_of unembedded_node = None \<or> \<not> embedding_generated unembedded_node"
    by code_simp
  have a: "map n_path (inserted_nodes (calls (snd guide_run))) = [''Guide'', ''Guide > Step1'']"
    by code_simp
  have c: "inserted_count (snd guide_run) = 2 \<and> failed_count (snd guide_run) = 1"
    by code_simp
  have f: "failed_count (run_init demo_world0) = 0"
    by (simp add: run_init_def)
  note t = embedding_gating [of "demo_env guide_chunks guide_found" "''guide.md''" None
      demo_world0 "[]" "run_init demo_world0" unembedded_node]
  from t have g: "list_all gated_insert (calls (snd guide_run))"
    by (simp add: guide_run_def)
  from t h have
    "insert_one (demo_env guide_chunks guide_found) unembedded_node (run_init demo_world0)
       = (run_init demo_world0)\<lparr>failed_count := failed_count (run_init demo_world0) + 1\<rparr>"
    by blast
  then show ?thesis using h a c g f by simp
qed

section \<open>Counters of the insertion loop\<close>

lemma upstream_frame: "upstream f r = (x, r') \<Longrightarrow> r' = r\<lparr>world := world r'\<rparr>"
  by (auto simp: upstream_def split: prod.splits)

lemma enrich_frame: "enrich env t r = (x, r') \<Longrightarrow> r' = r\<lparr>world := world r'\<rparr>"
  by (auto simp: enrich_def upstream_def split: prod.splits sum.splits option.splits)

lemma reaches_phase4:
  assumes "path_exists env file_path w"
    and "upstream (init_components env) (run_init w) = (Inr u, r1)"
    and "upstream (read_text env file_path) r1 = (Inr markdown_text, r2)"
    and "\<not> list_all py_isspace markdown_text"
    and "enrich env markdown_text r2 = (Some cs, r3)"
  shows "process_document env file_path document_id w =
           phase4 env (effective_document_id env file_path document_id) cs r3"
    and "r3 = (run_init w)\<lparr>world := world r3\<rparr>"
proof -
  show "process_document env file_path document_id w =
           phase4 env (effective_document_id env file_path document_id) cs r3"
    using assms by (simp add: process_document_def Let_def)
  from upstream_frame [OF assms(2)] upstream_frame [OF assms(3)] enrich_frame [OF assms(5)]
  have "r1 = (run_init w)\<lparr>world := world r1\<rparr>" "r2 = r1\<lparr>world := world r2\<rparr>"
    "r3 = r2\<lparr>world := world r3\<rparr>"
    by simp_all
  then show "r3 = (run_init w)\<lparr>world := world r3\<rparr>"
    by (metis (no_types, lifting) run.surjective run.update_convs(1))
qed

lemma fuzzy_lookup_counts: "node_counts (fuzzy_lookup env d p r) = node_counts r"
  by (auto simp: node_counts_def fuzzy_lookup_def db_find_nodes_by_path_def logged_def Let_def
      split: prod.splits sum.splits)

lemma fuzzy_lookups_counts: "node_counts (fuzzy_lookups env d ps r) = node_counts r"
  unfolding fuzzy_lookups_def by (rule fold_preserves) (rule fuzzy_lookup_counts)

lemma embed_counts:
  "embedder_generate_node_embeddings env ns r = (x, r') \<Longrightarrow> node_counts r' = node_counts r"
  by (auto simp: node_counts_def embedder_generate_node_embeddings_def logged_def
      split: prod.splits)

lemma delete_counts:
  "node_counts (snd (db_delete_nodes_by_document_id env d r)) = node_counts r"
  by (auto simp: node_counts_def db_delete_nodes_by_document_id_def logged_def
      split: prod.splits)

lemma set_parent_link_counts: "node_counts (set_parent_link env cm item r) = node_counts r"
  by (auto simp: node_counts_def set_parent_link_def db_update_node_parent_def logged_def
      split: prod.splits sum.splits option.splits)

lemma set_parent_links_counts: "node_counts (set_parent_links env cm r) = node_counts r"
  unfolding set_parent_links_def by (rule fold_preserves) (rule set_parent_link_counts)

lemma insert_reference_pair_counts:
  "node_counts (insert_reference_pair env ty st s t r) = node_counts r"
  by (auto simp: node_counts_def insert_reference_pair_def db_insert_reference_def logged_def
      Let_def split: prod.splits sum.splits)

lemma exact_reference_counts: "node_counts (exact_reference env pr r) = node_counts r"
  by (auto simp: exact_reference_def insert_reference_pair_counts split: option.splits)

lemma exact_references_counts: "node_counts (exact_references env refs r) = node_counts r"
  unfolding exact_references_def by (rule fold_preserves) (rule exact_reference_counts)

lemma fuzzy_target_counts: "node_counts (fuzzy_target env s tn r) = node_counts r"
  by (auto simp: fuzzy_target_def insert_reference_pair_counts split: option.splits)

lemma fuzzy_item_counts: "node_counts (fuzzy_item env s m r) = node_counts r"
  by (auto simp: fuzzy_item_def fold_preserves [of node_counts, OF fuzzy_target_counts]
      split: option.splits)

lemma fuzzy_chunk_counts: "node_counts (fuzzy_chunk env item r) = node_counts r"
  by (auto simp: fuzzy_chunk_def fold_preserves [of node_counts, OF fuzzy_item_counts]
      split: option.splits)

lemma fuzzy_references_counts: "node_counts (fuzzy_references env cm r) = node_counts r"
  unfolding fuzzy_references_def by (rule fold_preserves) (rule fuzzy_chunk_counts)

lemma no_insert_node_calls:
  "list_all (\<lambda>c. \<not> is_insert_node c) cs \<Longrightarrow>
     inserted_nodes cs = [] \<and> stored_ids cs = [] \<and> failed_inserts cs = 0"
  by (induction cs rule: inserted_nodes.induct) auto

lemma adds_no_insert_node:
  assumes "adds_only K r r'" and "\<And>c. K c \<Longrightarrow> \<not> is_insert_node c"
  shows "inserted_nodes (calls r') = inserted_nodes (calls r)
     \<and> stored_ids (calls r') = stored_ids (calls r)
     \<and> failed_inserts (calls r') = failed_inserts (calls r)"
proof -
  from assms obtain cs where c: "calls r' = calls r @ cs" "list_all (\<lambda>c. \<not> is_insert_node c) cs"
    by (auto simp: adds_only_def list_all_iff)
  show ?thesis using no_insert_node_calls [OF c(2)] c(1) by simp
qed

lemma counted_frame:
  assumes "counted r" and "adds_only K r r'" and "\<And>c. K c \<Longrightarrow> \<not> is_insert_node c"
    and "node_counts r' = node_counts r"
  shows "counted r'"
  using assms(1,4) adds_no_insert_node [OF assms(2,3)]
  by (simp add: counted_def node_counts_def)

lemma insert_one_counted: "counted r \<Longrightarrow> counted (insert_one env n r)"
  by (auto simp: counted_def insert_one_def count_failed_def db_insert_node_def logged_def
      returned_value_def split: option.splits prod.splits sum.splits)

lemma insert_nodes_counted: "counted r \<Longrightarrow> counted (insert_nodes env ns r)"
  unfolding insert_nodes_def by (rule fold_invariant) (auto intro: insert_one_counted)


lemma embed_calls:
  "embedder_generate_node_embeddings env ns r = (x, r') \<Longrightarrow>
     calls r' = calls r @ [GenerateNodeEmbeddings ns (returned_value x)]"
  by (auto simp: embedder_generate_node_embeddings_def logged_def split: prod.splits)

lemma store_graph_writes:
  "adds_only (\<lambda>c. \<not> is_find c \<and> \<not> is_generate c) r (snd (store_graph env eff cm ex ns r))"
proof -
  let ?K = "\<lambda>c. \<not> is_find c \<and> \<not> is_generate c"
  let ?r1 = "snd (db_delete_nodes_by_document_id env eff r)"
  let ?r2 = "insert_nodes env ns ?r1"
  let ?r3 = "set_parent_links env cm ?r2"
  let ?r4 = "exact_references env ex ?r3"
  let ?r5 = "fuzzy_references env cm ?r4"
  have k: "\<And>c. is_delete c \<Longrightarrow> ?K c" "\<And>c. is_insert_node c \<Longrightarrow> ?K c"
    "\<And>c. is_update_parent c \<Longrightarrow> ?K c" "\<And>c. is_insert_reference c \<Longrightarrow> ?K c"
    by (case_tac [!] c) auto
  have 1: "adds_only ?K r ?r1"
    by (rule adds_only_mono [OF delete_adds]) (simp add: k)
  have 2: "adds_only ?K ?r1 ?r2"
    by (rule adds_only_mono [OF insert_nodes_adds]) (simp add: k)
  have 3: "adds_only ?K ?r2 ?r3"
    by (rule adds_only_mono [OF set_parent_links_adds]) (simp add: k)
  have 4: "adds_only ?K ?r3 ?r4"
    by (rule adds_only_mono [OF exact_references_adds]) (simp add: k)
  have 5: "adds_only ?K ?r4 ?r5"
    by (rule adds_only_mono [OF fuzzy_references_adds]) (simp add: k)
  have 12: "adds_only ?K r ?r2"
    by (rule adds_only_trans [OF 1 2])
  have 15: "adds_only ?K r ?r5"
    by (rule adds_only_trans [OF 12 adds_only_trans [OF 3 adds_only_trans [OF 4 5]]])
  show ?thesis
    using 12 15 by (simp add: store_graph_def Let_def)
qed

lemma store_graph_summary:
  assumes sg: "store_graph env eff cm ex ns r = (res, r')"
  shows "(res = None) = (inserted_count r' = 0 \<and> 0 < failed_count r')"
    and "res \<noteq> None \<Longrightarrow> res = Some eff"
    and "inserted_nodes (calls r') = inserted_nodes (calls r) @ filter passes_gate ns"
    and "inserted_count r' + failed_count r' = inserted_count r + failed_count r + length ns"
    and "counted r \<Longrightarrow> counted r'"
proof -
  let ?r1 = "snd (db_delete_nodes_by_document_id env eff r)"
  let ?r2 = "insert_nodes env ns ?r1"
  let ?r3 = "set_parent_links env cm ?r2"
  let ?r4 = "exact_references env ex ?r3"
  let ?r5 = "fuzzy_references env cm ?r4"
  have n: "\<And>c. is_delete c \<Longrightarrow> \<not> is_insert_node c"
    "\<And>c. is_update_parent c \<Longrightarrow> \<not> is_insert_node c"
    "\<And>c. is_insert_reference c \<Longrightarrow> \<not> is_insert_node c"
    by (case_tac [!] c) auto
  have a35: "adds_only (\<lambda>c. is_update_parent c \<or> is_insert_reference c) ?r2 ?r5"
    by (rule adds_only_trans [OF adds_only_mono [OF set_parent_links_adds]
          adds_only_trans [OF adds_only_mono [OF exact_references_adds]
            adds_only_mono [OF fuzzy_references_adds]]]) auto
  have c35: "node_counts ?r5 = node_counts ?r2"
    by (simp add: fuzzy_references_counts exact_references_counts set_parent_links_counts)
  have i1: "inserted_nodes (calls ?r1) = inserted_nodes (calls r)"
    using adds_no_insert_node [OF delete_adds n(1)] by blast
  have i2: "inserted_nodes (calls ?r2) = inserted_nodes (calls r) @ filter passes_gate ns"
    using insert_nodes_nodes [of env ns ?r1] i1 by simp
  have i5: "inserted_nodes (calls ?r5) = inserted_nodes (calls ?r2)"
    using adds_no_insert_node [OF a35] n by blast
  have s2: "inserted_count ?r2 + failed_count ?r2 = inserted_count r + failed_count r + length ns"
    using insert_nodes_counts [of env ns ?r1] delete_counts [of env eff r]
    by (simp add: node_counts_def)
  have k2: "counted ?r2" if "counted r"
    by (rule insert_nodes_counted [OF counted_frame [OF that delete_adds n(1) delete_counts]])
  have k5: "counted ?r5" if "counted r"
    by (rule counted_frame [OF k2 [OF that] a35 _ c35]) (use n in blast)
  have r': "r' = (if inserted_count ?r2 = 0 \<and> 0 < failed_count ?r2 then ?r2 else ?r5)"
    and res: "res = (if inserted_count ?r2 = 0 \<and> 0 < failed_count ?r2 then None else Some eff)"
    using sg by (auto simp: store_graph_def Let_def split: if_splits)
  have c': "node_counts r' = node_counts ?r2"
    using r' c35 by simp
  show "(res = None) = (inserted_count r' = 0 \<and> 0 < failed_count r')"
    using res c' by (simp add: node_counts_def)
  show "res \<noteq> None \<Longrightarrow> res = Some eff"
    using res by (simp split: if_splits)
  show "inserted_nodes (calls r') = inserted_nodes (calls r) @ filter passes_gate ns"
    using r' i2 i5 by simp
  show "inserted_count r' + failed_count r' = inserted_count r + failed_count r + length ns"
    using s2 c' by (simp add: node_counts_def)
  show "counted r \<Longrightarrow> counted r'"
    using r' k2 k5 by simp
qed


lemma run_summary_quiet:
  "calls r = [] \<Longrightarrow> node_counts r = (0, 0) \<Longrightarrow> res = None \<or> res = Some eff \<Longrightarrow>
     run_summary eff res r"
  by (auto simp: run_summary_def counted_def node_counts_def)

lemma phase4_summary:
  assumes p: "phase4 env eff cs r = (res, r')" and c0: "calls r = []"
    and n0: "node_counts r = (0, 0)"
  shows "run_summary eff res r'"
proof (cases "db_nodes_to_insert (node_mapper eff cs) = []")
  case True
  with p have "res = Some eff" "r' = r" by (auto simp: phase4_def)
  then show ?thesis using c0 n0 by (simp add: run_summary_quiet)
next
  case False
  let ?m = "node_mapper eff cs"
  let ?r1 = "fuzzy_lookups env eff (paths_needing_fuzzy_lookup (resolve_references ?m)) r"
  obtain x r2 where
    e: "embedder_generate_node_embeddings env (db_nodes_to_insert ?m) ?r1 = (x, r2)"
    by (cases "embedder_generate_node_embeddings env (db_nodes_to_insert ?m) ?r1")
  from fuzzy_lookups_adds [of r env eff "paths_needing_fuzzy_lookup (resolve_references ?m)"]
  obtain fs where fs: "calls ?r1 = fs" "list_all is_find fs"
    using c0 by (auto simp: adds_only_def list_all_iff)
  have c2: "calls r2 = fs @ [GenerateNodeEmbeddings (db_nodes_to_insert ?m) (returned_value x)]"
    using embed_calls [OF e] fs by simp
  have n2: "node_counts r2 = (0, 0)"
    using embed_counts [OF e] fuzzy_lookups_counts [of env eff _ r] n0 by simp
  have ff: "\<And>c. c \<in> set fs \<Longrightarrow> is_find c"
    using fs(2) by (auto simp: list_all_iff)
  have nf: "\<And>c. c \<in> set fs \<Longrightarrow> \<not> is_generate c \<and> \<not> is_insert_node c"
    using fs(2) by (auto simp: list_all_iff)
  have i2: "inserted_nodes (calls r2) = []" "stored_ids (calls r2) = []"
    "failed_inserts (calls r2) = 0"
    using no_insert_node_calls [of fs] nf c2 by (auto simp: list_all_iff)
  have k2: "counted r2"
    using i2 n2 by (simp add: counted_def node_counts_def)
  show ?thesis
  proof (cases x)
    case (Inl a)
    with p e False have r: "res = None" "r' = r2" by (auto simp: phase4_def Let_def)
    have "list_all (\<lambda>c. is_find c \<or> is_generate c) (calls r2)"
      using c2 fs(2) by (auto simp: list_all_iff)
    moreover have "GenerateNodeEmbeddings ns (Some ns') \<notin> set (calls r2)" for ns ns'
      using c2 Inl by (auto simp: returned_value_def dest!: ff)
    ultimately show ?thesis
      using r k2 n2 by (auto simp: run_summary_def node_counts_def)
  next
    case (Inr ns0)
    with p e False have sg:
      "store_graph env eff (original_id_to_chunk_map ?m)
         (exact_resolved_references (resolve_references ?m)) ns0 r2 = (res, r')"
      by (auto simp: phase4_def Let_def)
    note ss = store_graph_summary [OF sg]
    from store_graph_writes [of r2 env eff "original_id_to_chunk_map ?m"
        "exact_resolved_references (resolve_references ?m)" ns0] sg
    obtain ws where ws: "calls r' = calls r2 @ ws"
      "list_all (\<lambda>c. \<not> is_find c \<and> \<not> is_generate c) ws"
      by (auto simp: adds_only_def)
    have g: "ns' = ns0" if "GenerateNodeEmbeddings ns (Some ns') \<in> set (calls r')" for ns ns'
      using that ws c2 Inr by (auto simp: returned_value_def list_all_iff dest!: ff)
    have ng: "GenerateNodeEmbeddings ns None \<notin> set (calls r')" for ns
      using ws c2 Inr by (auto simp: returned_value_def list_all_iff dest!: ff)
    have s: "inserted_count r' + failed_count r' = length ns0"
      using ss(4) n2 by (simp add: node_counts_def)
    have i: "inserted_nodes (calls r') = filter passes_gate ns0"
      using ss(3) i2 by simp
    show ?thesis
      unfolding run_summary_def
      using ng g s i ss(1) ss(2) ss(5) [OF k2] by (auto dest!: g)
  qed
qed

lemma upstream_quiet:
  "upstream f r = (x, r') \<Longrightarrow> calls r' = calls r \<and> node_counts r' = node_counts r"
  by (auto simp: upstream_def node_counts_def split: prod.splits)

lemma enrich_quiet:
  "enrich env t r = (x, r') \<Longrightarrow> calls r' = calls r \<and> node_counts r' = node_counts r"
  using enrich_frame [of env t r x r']
  by (metis (no_types, lifting) node_counts_def run.select_convs(2,6,7) run.surjective
      run.update_convs(1))

lemma process_document_summary:
  assumes pd: "process_document env fp did w = (res, r)"
  shows "run_summary (effective_document_id env fp did) res r"
proof (cases "path_exists env fp w")
  case False
  with pd have "res = None" "r = run_init w" by (auto simp: process_document_def)
  then show ?thesis by (simp add: run_summary_quiet run_init_def node_counts_def)
next
  case True
  let ?eff = "effective_document_id env fp did"
  obtain x1 r1 where u1: "upstream (init_components env) (run_init w) = (x1, r1)"
    by (cases "upstream (init_components env) (run_init w)")
  have q1: "calls r1 = []" "node_counts r1 = (0, 0)"
    using upstream_quiet [OF u1] by (simp_all add: run_init_def node_counts_def)
  show ?thesis
  proof (cases x1)
    case (Inl e)
    with pd True u1 have "res = None" "r = r1" by (auto simp: process_document_def Let_def)
    then show ?thesis using q1 by (simp add: run_summary_quiet)
  next
    case (Inr u)
    obtain x2 r2 where u2: "upstream (read_text env fp) r1 = (x2, r2)"
      by (cases "upstream (read_text env fp) r1")
    have q2: "calls r2 = []" "node_counts r2 = (0, 0)"
      using upstream_quiet [OF u2] q1 by simp_all
    show ?thesis
    proof (cases x2)
      case (Inl e)
      with pd True u1 u2 Inr have "res = None" "r = r2"
        by (auto simp: process_document_def Let_def)
      then show ?thesis using q2 by (simp add: run_summary_quiet)
    next
      case rd: (Inr markdown_text)
      show ?thesis
      proof (cases "list_all py_isspace markdown_text")
        case True
        with pd \<open>path_exists env fp w\<close> u1 u2 Inr rd have "res = Some ?eff" "r = r2"
          by (auto simp: process_document_def Let_def)
        then show ?thesis using q2 by (simp add: run_summary_quiet)
      next
        case False
        obtain x3 r3 where u3: "enrich env markdown_text r2 = (x3, r3)"
          by (cases "enrich env markdown_text r2")
        have q3: "calls r3 = []" "node_counts r3 = (0, 0)"
          using enrich_quiet [OF u3] q2 by simp_all
        show ?thesis
        proof (cases x3)
          case None
          with pd \<open>path_exists env fp w\<close> u1 u2 u3 Inr rd False
          have "res = None" "r = r3"
            by (auto simp: process_document_def Let_def)
          then show ?thesis using q3 by (simp add: run_summary_quiet)
        next
          case (Some enriched_chunks)
          with pd \<open>path_exists env fp w\<close> u1 u2 u3 Inr rd False
          have "phase4 env ?eff enriched_chunks r3 = (res, r)"
            by (auto simp: process_document_def Let_def)
          then show ?thesis using q3 by (rule phase4_summary)
        qed
      qed
    qed
  qed
qed

section \<open>Fatal and non-fatal failures\<close>

text \<open>
  Claim C3. Whenever a run ends with \<open>inserted_count = 0\<close> and \<open>failed_count > 0\<close> it
  returns \<open>None\<close>, never the document id. The counters mean what they say:
  \<open>inserted_count\<close> is the number of \<open>insert_node\<close> calls that returned, and every
  call that raised is counted in \<open>failed_count\<close>. In particular, if the batch handed to
  the insertion loop is not empty and no \<open>insert_node\<close> call returned, the result is
  \<open>None\<close>.
\<close>

theorem all_insert_failure:
  "process_document env file_path document_id w = (res, r) \<Longrightarrow>
     (inserted_count r = 0 \<and> 0 < failed_count r \<longrightarrow> res = None)
   \<and> inserted_count r = length (stored_ids (calls r))
   \<and> failed_inserts (calls r) \<le> failed_count r
   \<and> (GenerateNodeEmbeddings ns (Some ns') \<in> set (calls r) \<and> ns' \<noteq> []
        \<and> stored_ids (calls r) = [] \<longrightarrow> res = None)"
proof -
  assume "process_document env file_path document_id w = (res, r)"
  from process_document_summary [OF this]
  show ?thesis
    unfolding run_summary_def counted_def by (auto simp: neq_Nil_conv)
qed


text \<open>
  When every \<open>insert_node\<close> raises on the guide document, nothing is inserted, three
  records are counted as failed (two raised, one had no embedding), and the run returns
  \<open>None\<close>.
\<close>

theorem all_insert_failure_witness:
  "inserted_count (snd failing_run) = 0 \<and> 0 < failed_count (snd failing_run)
   \<and> failed_inserts (calls (snd failing_run)) = 2
   \<and> fst failing_run = None"
proof -
  have h: "inserted_count (snd failing_run) = 0 \<and> 0 < failed_count (snd failing_run)"
    by code_simp
  have f: "failed_inserts (calls (snd failing_run)) = 2"
    by code_simp
  have p: "process_document (demo_env guide_chunks guide_found) ''guide.md'' None
     (demo_world0\<lparr>insert_fails := True\<rparr>) = (fst failing_run, snd failing_run)"
    by (simp add: failing_run_def)
  from all_insert_failure [OF p] h f show ?thesis
    by blast
qed

lemma stored_le_inserted: "length (stored_ids cs) \<le> length (inserted_nodes cs)"
  by (induction cs rule: stored_ids.induct) (auto split: option.splits)

lemma unembedded_le_gated:
  "length (filter (\<lambda>n. \<not> embedding_generated n) ns) + length (filter passes_gate ns)
     \<le> length ns"
  by (induction ns) (auto simp: passes_gate_def)

text \<open>
  Claim C8, as the code has it. If the embedding call raised, the run returns \<open>None\<close>,
  and its log holds nothing but the fuzzy lookups and the embedding call: no store write
  was made. If the embedding call returned a batch, the run is not stopped at that step,
  whatever the flags of the records are: every record of the batch reaches the insertion
  loop, the records with a false or missing flag are among the skipped ones counted in
  \<open>failed_count\<close>, and exactly the records passing the gate are handed to
  \<open>insert_node\<close>. The run then returns \<open>None\<close> exactly when no node was inserted and at
  least one record was counted as failed, and it returns the document id as soon as one
  node was inserted.
\<close>

theorem embedding_failure_fatal:
  "process_document env file_path document_id w = (res, r) \<Longrightarrow>
     (GenerateNodeEmbeddings ns None \<in> set (calls r) \<longrightarrow>
        res = None \<and> list_all (\<lambda>c. is_find c \<or> is_generate c) (calls r))
   \<and> (GenerateNodeEmbeddings ns (Some ns') \<in> set (calls r) \<longrightarrow>
        inserted_nodes (calls r) = filter passes_gate ns'
      \<and> inserted_count r + failed_count r = length ns'
      \<and> length (filter (\<lambda>n. \<not> embedding_generated n) ns') \<le> failed_count r
      \<and> (res = None) = (inserted_count r = 0 \<and> 0 < failed_count r)
      \<and> (0 < inserted_count r \<longrightarrow> res = Some (effective_document_id env file_path document_id)))"
proof -
  assume "process_document env file_path document_id w = (res, r)"
  note s = process_document_summary [OF this, unfolded run_summary_def counted_def]
  from s have s1: "res = None \<and> list_all (\<lambda>c. is_find c \<or> is_generate c) (calls r)"
    if "GenerateNodeEmbeddings ns None \<in> set (calls r)"
    using that by blast
  from s have s3: "inserted_count r = length (stored_ids (calls r))"
    and s4: "res \<noteq> None \<longrightarrow> res = Some (effective_document_id env file_path document_id)"
    by blast+
  have s2: "inserted_nodes (calls r) = filter passes_gate ns'
      \<and> inserted_count r + failed_count r = length ns'
      \<and> length (filter (\<lambda>n. \<not> embedding_generated n) ns') \<le> failed_count r
      \<and> (res = None) = (inserted_count r = 0 \<and> 0 < failed_count r)
      \<and> (0 < inserted_count r \<longrightarrow> res = Some (effective_document_id env file_path document_id))"
    if g: "GenerateNodeEmbeddings ns (Some ns') \<in> set (calls r)"
  proof -
    from s g have a: "inserted_nodes (calls r) = filter passes_gate ns'"
      and b: "inserted_count r + failed_count r = length ns'"
      and d: "(res = None) = (inserted_count r = 0 \<and> 0 < failed_count r)"
      by blast+
    from stored_le_inserted [of "calls r"] a s3
    have "inserted_count r \<le> length (filter passes_gate ns')" by simp
    with b unembedded_le_gated [of ns']
    have c: "length (filter (\<lambda>n. \<not> embedding_generated n) ns') \<le> failed_count r"
      by linarith
    from d s4 have e: "0 < inserted_count r \<longrightarrow>
        res = Some (effective_document_id env file_path document_id)"
      by auto
    from a b c d e show ?thesis by blast
  qed
  from s1 s2 show ?thesis by blast
qed


text \<open>
  Claim C8 as stated fails: failures of single records can end the run. For a document
  whose only chunk gets no embedding, the embedding call returns, the record is skipped
  and counted as failed, nothing is inserted, and the run returns \<open>None\<close>.
\<close>

theorem per_record_failure_counterexample:
  "GenerateNodeEmbeddings (db_nodes_to_insert (node_mapper ''guide'' hollow_chunks))
       (Some (map demo_embed (db_nodes_to_insert (node_mapper ''guide'' hollow_chunks))))
     \<in> set (calls (snd hollow_run))
   \<and> map embedding_generated
         (map demo_embed (db_nodes_to_insert (node_mapper ''guide'' hollow_chunks))) = [False]
   \<and> inserted_count (snd hollow_run) = 0 \<and> failed_count (snd hollow_run) = 1
   \<and> fst hollow_run = None"
  by code_simp

text \<open>
  On the guide document: when the embedding call raises the run returns \<open>None\<close> after
  one lookup and the embedding call; when it returns with one record unembedded, that
  record is counted as failed and the run returns the document id.
\<close>

theorem embedding_failure_fatal_witness:
  "GenerateNodeEmbeddings (db_nodes_to_insert (node_mapper ''guide'' guide_chunks)) None
       \<in> set (calls (snd unembedded_run))
   \<and> fst unembedded_run = None
   \<and> list_all (\<lambda>c. is_find c \<or> is_generate c) (calls (snd unembedded_run))
   \<and> GenerateNodeEmbeddings (db_nodes_to_insert (node_mapper ''guide'' guide_chunks))
         (Some (map demo_embed (db_nodes_to_insert (node_mapper ''guide'' guide_chunks))))
       \<in> set (calls (snd guide_run))
   \<and> length (filter (\<lambda>n. \<not> embedding_generated n)
         (map demo_embed (db_nodes_to_insert (node_mapper ''guide'' guide_chunks)))) = 1
   \<and> failed_count (snd guide_run) = 1 \<and> inserted_count (snd guide_run) = 2
   \<and> fst guide_run = Some ''guide''"
proof -
  let ?ns = "db_nodes_to_insert (node_mapper ''guide'' guide_chunks)"
  have h1: "GenerateNodeEmbeddings ?ns None \<in> set (calls (snd unembedded_run))"
    by code_simp
  have h2: "GenerateNodeEmbeddings ?ns (Some (map demo_embed ?ns)) \<in> set (calls (snd guide_run))"
    by code_simp
  have c: "length (filter (\<lambda>n. \<not> embedding_generated n) (map demo_embed ?ns)) = 1"
    "failed_count (snd guide_run) = 1" "inserted_count (snd guide_run) = 2"
    by code_simp+
  have e: "effective_document_id (demo_env guide_chunks guide_found) ''guide.md'' None = ''guide''"
    by code_simp
  have p1: "process_document (demo_env guide_chunks guide_found) ''guide.md'' None
     (demo_world0\<lparr>embed_fails := True\<rparr>) = (fst unembedded_run, snd unembedded_run)"
    by (simp add: unembedded_run_def)
  have p2: "process_document (demo_env guide_chunks guide_found) ''guide.md'' None
     demo_world0 = (fst guide_run, snd guide_run)"
    by (simp add: guide_run_def)
  from embedding_failure_fatal [OF p1, of ?ns] h1
  have a1: "fst unembedded_run = None
    \<and> list_all (\<lambda>c. is_find c \<or> is_generate c) (calls (snd unembedded_run))"
    by blast
  from embedding_failure_fatal [OF p2, of ?ns "map demo_embed ?ns"] h2 c e
  have a2: "fst guide_run = Some ''guide''"
    by simp
  show ?thesis using h1 h2 c a1 a2 by simp
qed

section \<open>Deduplication of reference edges\<close>

lemma references_written_append [simp]:
  "references_written (xs @ ys) = references_written xs @ references_written ys"
  by (induction xs rule: references_written.induct) auto

lemma checked_before_write_append:
  "checked_before_write seen (xs @ ys) =
     (checked_before_write seen xs
      \<and> checked_before_write (seen \<union> set (references_written xs)) ys)"
  by (induction seen xs rule: checked_before_write.induct) (auto simp: insert_commute)

lemma no_reference_calls:
  "list_all (\<lambda>c. \<not> is_insert_reference c) cs \<Longrightarrow>
     references_written cs = [] \<and> checked_before_write seen cs"
  by (induction seen cs rule: checked_before_write.induct) auto

lemma dedup_frame:
  assumes "dedup_ok r" and "adds_only K r r'" and "\<And>c. K c \<Longrightarrow> \<not> is_insert_reference c"
    and "inserted_reference_pairs r' = inserted_reference_pairs r"
  shows "dedup_ok r'"
proof -
  from assms(2,3) obtain cs where
    c: "calls r' = calls r @ cs" "list_all (\<lambda>c. \<not> is_insert_reference c) cs"
    by (auto simp: adds_only_def list_all_iff)
  from no_reference_calls [OF c(2)] assms(1,4) c(1) show ?thesis
    by (simp add: dedup_ok_def checked_before_write_append)
qed

lemma insert_reference_pair_dedup:
  "dedup_ok r \<Longrightarrow> dedup_ok (insert_reference_pair env ty st s t r)"
  by (auto simp: insert_reference_pair_def db_insert_reference_def logged_def Let_def
      dedup_ok_def checked_before_write_append returned_def
      split: prod.splits sum.splits)

lemma exact_reference_dedup: "dedup_ok r \<Longrightarrow> dedup_ok (exact_reference env pr r)"
  by (auto simp: exact_reference_def insert_reference_pair_dedup split: option.splits)

lemma exact_references_dedup: "dedup_ok r \<Longrightarrow> dedup_ok (exact_references env refs r)"
  unfolding exact_references_def by (rule fold_invariant) (auto intro: exact_reference_dedup)

lemma fuzzy_target_dedup: "dedup_ok r \<Longrightarrow> dedup_ok (fuzzy_target env s tn r)"
  by (auto simp: fuzzy_target_def insert_reference_pair_dedup split: option.splits)

lemma fuzzy_item_dedup: "dedup_ok r \<Longrightarrow> dedup_ok (fuzzy_item env s m r)"
  by (auto simp: fuzzy_item_def intro!: fold_invariant [where P = dedup_ok] fuzzy_target_dedup
      split: option.splits)

lemma fuzzy_chunk_dedup: "dedup_ok r \<Longrightarrow> dedup_ok (fuzzy_chunk env item r)"
  by (auto simp: fuzzy_chunk_def intro!: fold_invariant [where P = dedup_ok] fuzzy_item_dedup
      split: option.splits)

lemma fuzzy_references_dedup: "dedup_ok r \<Longrightarrow> dedup_ok (fuzzy_references env cm r)"
  unfolding fuzzy_references_def by (rule fold_invariant) (auto intro: fuzzy_chunk_dedup)

lemma fuzzy_lookup_pairs:
  "inserted_reference_pairs (fuzzy_lookup env d p r) = inserted_reference_pairs r"
  by (auto simp: fuzzy_lookup_def db_find_nodes_by_path_def logged_def Let_def
      split: prod.splits sum.splits)

lemma fuzzy_lookups_pairs:
  "inserted_reference_pairs (fuzzy_lookups env d ps r) = inserted_reference_pairs r"
  unfolding fuzzy_lookups_def by (rule fold_preserves) (rule fuzzy_lookup_pairs)

lemma embed_pairs:
  "embedder_generate_node_embeddings env ns r = (x, r') \<Longrightarrow>
     inserted_reference_pairs r' = inserted_reference_pairs r"
  by (auto simp: embedder_generate_node_embeddings_def logged_def split: prod.splits)

lemma delete_pairs:
  "inserted_reference_pairs (snd (db_delete_nodes_by_document_id env d r)) =
     inserted_reference_pairs r"
  by (auto simp: db_delete_nodes_by_document_id_def logged_def split: prod.splits)

lemma insert_one_pairs:
  "inserted_reference_pairs (insert_one env n r) = inserted_reference_pairs r"
  by (auto simp: insert_one_def count_failed_def db_insert_node_def logged_def
      split: option.splits prod.splits sum.splits)

lemma insert_nodes_pairs:
  "inserted_reference_pairs (insert_nodes env ns r) = inserted_reference_pairs r"
  unfolding insert_nodes_def by (rule fold_preserves) (rule insert_one_pairs)

lemma set_parent_link_pairs:
  "inserted_reference_pairs (set_parent_link env cm item r) = inserted_reference_pairs r"
  by (auto simp: set_parent_link_def db_update_node_parent_def logged_def
      split: prod.splits sum.splits option.splits)

lemma set_parent_links_pairs:
  "inserted_reference_pairs (set_parent_links env cm r) = inserted_reference_pairs r"
  unfolding set_parent_links_def by (rule fold_preserves) (rule set_parent_link_pairs)

lemma store_graph_dedup:
  assumes "dedup_ok r"
  shows "dedup_ok (snd (store_graph env eff cm ex ns r))"
proof -
  let ?r1 = "snd (db_delete_nodes_by_document_id env eff r)"
  let ?r2 = "insert_nodes env ns ?r1"
  let ?r3 = "set_parent_links env cm ?r2"
  let ?r4 = "exact_references env ex ?r3"
  let ?r5 = "fuzzy_references env cm ?r4"
  have n: "\<And>c. is_delete c \<Longrightarrow> \<not> is_insert_reference c"
    "\<And>c. is_insert_node c \<Longrightarrow> \<not> is_insert_reference c"
    "\<And>c. is_update_parent c \<Longrightarrow> \<not> is_insert_reference c"
    by (case_tac [!] c) auto
  have 1: "dedup_ok ?r1"
    by (rule dedup_frame [OF assms delete_adds n(1) delete_pairs])
  have 2: "dedup_ok ?r2"
    by (rule dedup_frame [OF 1 insert_nodes_adds _ insert_nodes_pairs]) (simp add: n)
  have 3: "dedup_ok ?r3"
    by (rule dedup_frame [OF 2 set_parent_links_adds n(3) set_parent_links_pairs])
  have 5: "dedup_ok ?r5"
    by (rule fuzzy_references_dedup [OF exact_references_dedup [OF 3]])
  show ?thesis using 2 5 by (simp add: store_graph_def Let_def)
qed

lemma phase4_dedup:
  assumes "dedup_ok r"
  shows "dedup_ok (snd (phase4 env eff cs r))"
proof (cases "db_nodes_to_insert (node_mapper eff cs) = []")
  case True
  then show ?thesis using assms by (simp add: phase4_def)
next
  case False
  let ?m = "node_mapper eff cs"
  let ?r1 = "fuzzy_lookups env eff (paths_needing_fuzzy_lookup (resolve_references ?m)) r"
  obtain x r2 where
    e: "embedder_generate_node_embeddings env (db_nodes_to_insert ?m) ?r1 = (x, r2)"
    by (cases "embedder_generate_node_embeddings env (db_nodes_to_insert ?m) ?r1")
  have n: "\<And>c. is_find c \<Longrightarrow> \<not> is_insert_reference c"
    "\<And>c. is_generate c \<Longrightarrow> \<not> is_insert_reference c"
    by (case_tac [!] c) auto
  have 1: "dedup_ok ?r1"
    by (rule dedup_frame [OF assms fuzzy_lookups_adds _ fuzzy_lookups_pairs]) (simp add: n)
  have 2: "dedup_ok r2"
    by (rule dedup_frame [OF 1 embed_adds [OF e] n(2) embed_pairs [OF e]])
  show ?thesis
    using False e 2 store_graph_dedup [OF 2]
    by (cases x) (simp_all add: phase4_def Let_def)
qed

lemma dedup_ok_world [simp]: "dedup_ok (r\<lparr>world := w\<rparr>) = dedup_ok r"
  by (simp add: dedup_ok_def)

lemma upstream_dedup: "upstream f r = (x, r') \<Longrightarrow> dedup_ok r' = dedup_ok r"
  by (auto simp: upstream_def split: prod.splits)

lemma enrich_dedup: "enrich env t r = (x, r') \<Longrightarrow> dedup_ok r' = dedup_ok r"
  using enrich_frame [of env t r x r'] dedup_ok_world [where r = r and w = "world r'"] by simp

lemma process_document_dedup: "dedup_ok (snd (process_document env fp did w))"
proof -
  have i: "dedup_ok (run_init w)"
    by (simp add: dedup_ok_def run_init_def)
  show ?thesis
    using i
    by (auto simp: process_document_def Let_def dest!: upstream_dedup enrich_dedup
        intro!: phase4_dedup split: prod.splits sum.splits option.splits)
qed

section \<open>Every discovered pair that is not yet written is attempted\<close>

lemma reference_outcomes_append [simp]:
  "reference_outcomes (xs @ ys) = reference_outcomes xs @ reference_outcomes ys"
  by (induction xs rule: reference_outcomes.induct) auto

lemma attempts_of_outcomes: "reference_attempts cs = map fst (reference_outcomes cs)"
  by (induction cs rule: reference_outcomes.induct) auto

lemma written_of_outcomes:
  "references_written cs = map fst (filter snd (reference_outcomes cs))"
  by (induction cs rule: reference_outcomes.induct) auto

lemma no_reference_outcomes:
  "list_all (\<lambda>c. \<not> is_insert_reference c) cs \<Longrightarrow> reference_outcomes cs = []"
  by (induction cs rule: reference_outcomes.induct) auto

lemma attempts_follow_append:
  "attempts_follow W ps outs \<Longrightarrow>
   attempts_follow (W \<union> fst ` set (filter snd outs)) qs outs' \<Longrightarrow>
   attempts_follow W (ps @ qs) (outs @ outs')"
proof (induction ps arbitrary: W outs)
  case Nil
  then show ?case by simp
next
  case (Cons p ps)
  show ?case
  proof (cases "p \<in> W")
    case True
    with Cons show ?thesis by simp
  next
    case False
    with Cons.prems(1) obtain out outs1 where o: "outs = out # outs1" "fst out = p"
      "attempts_follow (if snd out then insert p W else W) ps outs1"
      by (cases outs) auto
    have "(if snd out then insert p W else W) \<union> fst ` set (filter snd outs1) =
        W \<union> fst ` set (filter snd outs)"
      using o(1,2) by auto
    with Cons.IH [OF o(3)] Cons.prems(2)
    have "attempts_follow (if snd out then insert p W else W) (ps @ qs) (outs1 @ outs')"
      by simp
    with False o show ?thesis by simp
  qed
qed

lemma attempts_follow_count:
  "attempts_follow W ps outs \<Longrightarrow> p \<notin> W \<Longrightarrow> p \<notin> fst ` set (filter snd outs) \<Longrightarrow>
     count_list (map fst outs) p = count_list ps p"
proof (induction ps arbitrary: W outs)
  case Nil
  then show ?case by simp
next
  case (Cons q ps)
  show ?case
  proof (cases "q \<in> W")
    case True
    with Cons.prems have "q \<noteq> p" by auto
    with Cons True show ?thesis by simp
  next
    case False
    with Cons.prems(1) obtain out outs1 where o: "outs = out # outs1" "fst out = q"
      "attempts_follow (if snd out then insert q W else W) ps outs1"
      by (cases outs) auto
    have 1: "p \<notin> (if snd out then insert q W else W)"
      using Cons.prems(2,3) o(1,2) by (auto split: if_splits)
    have 2: "p \<notin> fst ` set (filter snd outs1)"
      using Cons.prems(3) o(1) by (auto split: if_splits)
    from Cons.IH [OF o(3) 1 2] o show ?thesis by simp
  qed
qed

lemma attempts_from_refl: "attempts_from [] r r"
  by (simp add: attempts_from_def)

lemma attempts_from_trans:
  assumes "attempts_from ps r r1" and "attempts_from qs r1 r2"
  shows "attempts_from (ps @ qs) r r2"
proof -
  from assms(1) obtain cs where c: "calls r1 = calls r @ cs" "list_all is_insert_reference cs"
    "attempts_follow (inserted_reference_pairs r) ps (reference_outcomes cs)"
    "inserted_reference_pairs r1 = inserted_reference_pairs r \<union> set (references_written cs)"
    "original_id_to_db_id_map r1 = original_id_to_db_id_map r"
    "fuzzy_path_to_nodes_map r1 = fuzzy_path_to_nodes_map r"
    unfolding attempts_from_def by blast
  from assms(2) obtain ds where d: "calls r2 = calls r1 @ ds" "list_all is_insert_reference ds"
    "attempts_follow (inserted_reference_pairs r1) qs (reference_outcomes ds)"
    "inserted_reference_pairs r2 = inserted_reference_pairs r1 \<union> set (references_written ds)"
    "original_id_to_db_id_map r2 = original_id_to_db_id_map r1"
    "fuzzy_path_to_nodes_map r2 = fuzzy_path_to_nodes_map r1"
    unfolding attempts_from_def by blast
  have w: "inserted_reference_pairs r1 =
      inserted_reference_pairs r \<union> fst ` set (filter snd (reference_outcomes cs))"
    using c(4) by (simp add: written_of_outcomes)
  have "attempts_follow (inserted_reference_pairs r) (ps @ qs)
      (reference_outcomes cs @ reference_outcomes ds)"
    using attempts_follow_append [OF c(3)] d(3) w by simp
  then show ?thesis
    unfolding attempts_from_def
    using c d by (intro exI [of _ "cs @ ds"]) auto
qed

lemma attempts_from_fold:
  assumes step: "\<And>x b. original_id_to_db_id_map b = M \<Longrightarrow> fuzzy_path_to_nodes_map b = F
      \<Longrightarrow> attempts_from (g x) b (f x b)"
    and "original_id_to_db_id_map a = M" and "fuzzy_path_to_nodes_map a = F"
  shows "attempts_from (concat (map g xs)) a (fold f xs a)"
  using assms(2,3)
proof (induction xs arbitrary: a)
  case Nil
  show ?case by (simp add: attempts_from_refl)
next
  case (Cons x xs)
  note s = step [OF Cons.prems]
  from s Cons.prems have "original_id_to_db_id_map (f x a) = M"
    "fuzzy_path_to_nodes_map (f x a) = F"
    by (auto simp: attempts_from_def)
  from attempts_from_trans [OF s Cons.IH [OF this]] show ?case by simp
qed

lemma insert_reference_pair_attempts:
  "attempts_from [(s, t)] r (insert_reference_pair env ty st s t r)"
  by (auto simp: attempts_from_def insert_reference_pair_def db_insert_reference_def logged_def
      Let_def returned_def split: prod.splits sum.splits)

lemma exact_reference_attempts:
  "attempts_from (exact_discovered (original_id_to_db_id_map r) [pr]) r
     (exact_reference env pr r)"
  by (auto simp: exact_reference_def exact_discovered_def attempts_from_refl
      insert_reference_pair_attempts split: option.splits)

lemma exact_discovered_concat:
  "exact_discovered M refs = concat (map (\<lambda>pr. exact_discovered M [pr]) refs)"
  by (induction refs) (simp_all add: exact_discovered_def)

lemma exact_references_attempts:
  "attempts_from (exact_discovered (original_id_to_db_id_map r) refs) r
     (exact_references env refs r)"
proof -
  let ?M = "original_id_to_db_id_map r"
  have "attempts_from (concat (map (\<lambda>pr. exact_discovered ?M [pr]) refs)) r
      (fold (exact_reference env) refs r)"
  proof (rule attempts_from_fold [where M = ?M and F = "fuzzy_path_to_nodes_map r"])
    fix x and b :: "'a run"
    assume "original_id_to_db_id_map b = ?M"
    then show "attempts_from (exact_discovered ?M [x]) b (exact_reference env x b)"
      using exact_reference_attempts [of b x env] by simp
  qed simp_all
  then show ?thesis
    by (simp add: exact_references_def exact_discovered_concat [symmetric])
qed

lemma fuzzy_target_attempts:
  "attempts_from (fuzzy_targets_discovered (original_id_to_db_id_map r) s [tn]) r
     (fuzzy_target env s tn r)"
  by (auto simp: fuzzy_target_def fuzzy_targets_discovered_def attempts_from_refl
      insert_reference_pair_attempts split: option.splits)

lemma fuzzy_targets_discovered_concat:
  "fuzzy_targets_discovered M s tns =
     concat (map (\<lambda>tn. fuzzy_targets_discovered M s [tn]) tns)"
  by (induction tns) (simp_all add: fuzzy_targets_discovered_def)

lemma fuzzy_targets_attempts:
  "attempts_from (fuzzy_targets_discovered (original_id_to_db_id_map r) s tns) r
     (fold (fuzzy_target env s) tns r)"
proof -
  let ?M = "original_id_to_db_id_map r"
  have "attempts_from (concat (map (\<lambda>tn. fuzzy_targets_discovered ?M s [tn]) tns)) r
      (fold (fuzzy_target env s) tns r)"
  proof (rule attempts_from_fold [where M = ?M and F = "fuzzy_path_to_nodes_map r"])
    fix x and b :: "'a run"
    assume "original_id_to_db_id_map b = ?M"
    then show "attempts_from (fuzzy_targets_discovered ?M s [x]) b (fuzzy_target env s x b)"
      using fuzzy_target_attempts [of b s x env] by simp
  qed simp_all
  then show ?thesis
    by (simp add: fuzzy_targets_discovered_concat [symmetric])
qed

lemma fuzzy_item_attempts:
  "attempts_from
     (fuzzy_items_discovered (original_id_to_db_id_map r) (fuzzy_path_to_nodes_map r) s [it]) r
     (fuzzy_item env s it r)"
  by (auto simp: fuzzy_item_def fuzzy_items_discovered_def attempts_from_refl
      fuzzy_targets_attempts split: option.splits)

lemma fuzzy_items_discovered_concat:
  "fuzzy_items_discovered M F s its =
     concat (map (\<lambda>it. fuzzy_items_discovered M F s [it]) its)"
  by (induction its) (simp_all add: fuzzy_items_discovered_def)

lemma fuzzy_items_attempts:
  "attempts_from
     (fuzzy_items_discovered (original_id_to_db_id_map r) (fuzzy_path_to_nodes_map r) s its) r
     (fold (fuzzy_item env s) its r)"
proof -
  let ?M = "original_id_to_db_id_map r"
  let ?F = "fuzzy_path_to_nodes_map r"
  have "attempts_from (concat (map (\<lambda>it. fuzzy_items_discovered ?M ?F s [it]) its)) r
      (fold (fuzzy_item env s) its r)"
  proof (rule attempts_from_fold [where M = ?M and F = ?F])
    fix x and b :: "'a run"
    assume "original_id_to_db_id_map b = ?M" "fuzzy_path_to_nodes_map b = ?F"
    then show "attempts_from (fuzzy_items_discovered ?M ?F s [x]) b (fuzzy_item env s x b)"
      using fuzzy_item_attempts [of b s x env] by simp
  qed simp_all
  then show ?thesis
    by (simp add: fuzzy_items_discovered_concat [symmetric])
qed

lemma fuzzy_chunk_attempts:
  "attempts_from
     (fuzzy_discovered (original_id_to_db_id_map r) (fuzzy_path_to_nodes_map r) [item]) r
     (fuzzy_chunk env item r)"
  by (auto simp: fuzzy_chunk_def fuzzy_discovered_def attempts_from_refl
      fuzzy_items_attempts split: option.splits)

lemma fuzzy_discovered_concat:
  "fuzzy_discovered M F cm = concat (map (\<lambda>item. fuzzy_discovered M F [item]) cm)"
  by (induction cm) (simp_all add: fuzzy_discovered_def)

lemma fuzzy_references_attempts:
  "attempts_from
     (fuzzy_discovered (original_id_to_db_id_map r) (fuzzy_path_to_nodes_map r) cm) r
     (fuzzy_references env cm r)"
proof -
  let ?M = "original_id_to_db_id_map r"
  let ?F = "fuzzy_path_to_nodes_map r"
  have "attempts_from (concat (map (\<lambda>item. fuzzy_discovered ?M ?F [item]) cm)) r
      (fold (fuzzy_chunk env) cm r)"
  proof (rule attempts_from_fold [where M = ?M and F = ?F])
    fix x and b :: "'a run"
    assume "original_id_to_db_id_map b = ?M" "fuzzy_path_to_nodes_map b = ?F"
    then show "attempts_from (fuzzy_discovered ?M ?F [x]) b (fuzzy_chunk env x b)"
      using fuzzy_chunk_attempts [of b x env] by simp
  qed simp_all
  then show ?thesis
    by (simp add: fuzzy_references_def fuzzy_discovered_concat [symmetric])
qed


lemma nothing_discovered:
  "exact_discovered [] refs = []" "fuzzy_discovered [] F cm = []"
  by (induction refs) (simp_all add: exact_discovered_def fuzzy_discovered_def)

lemma store_graph_attempts:
  assumes sg: "store_graph env eff cm ex ns r = (Some x, rf)"
    and r0: "reference_outcomes (calls r) = []" "inserted_reference_pairs r = {}"
  shows "attempts_follow {}
      (exact_discovered (original_id_to_db_id_map rf) ex
        @ fuzzy_discovered (original_id_to_db_id_map rf) (fuzzy_path_to_nodes_map rf) cm)
      (reference_outcomes (calls rf))"
proof -
  let ?r1 = "snd (db_delete_nodes_by_document_id env eff r)"
  let ?r2 = "insert_nodes env ns ?r1"
  let ?r3 = "set_parent_links env cm ?r2"
  let ?r4 = "exact_references env ex ?r3"
  let ?r5 = "fuzzy_references env cm ?r4"
  from sg have rf: "rf = ?r5"
    by (auto simp: store_graph_def Let_def split: if_splits)
  have n: "\<And>c. is_delete c \<Longrightarrow> \<not> is_insert_reference c"
    "\<And>c. is_insert_node c \<Longrightarrow> \<not> is_insert_reference c"
    "\<And>c. is_update_parent c \<Longrightarrow> \<not> is_insert_reference c"
    by (case_tac [!] c) auto
  have a3: "adds_only (\<lambda>c. \<not> is_insert_reference c) r ?r3"
    by (rule adds_only_trans [OF adds_only_mono [OF delete_adds]
          adds_only_trans [OF adds_only_mono [OF insert_nodes_adds]
            adds_only_mono [OF set_parent_links_adds]]]) (simp_all add: n)
  then obtain ws where ws: "calls ?r3 = calls r @ ws"
    "list_all (\<lambda>c. \<not> is_insert_reference c) ws"
    by (auto simp: adds_only_def)
  have o3: "reference_outcomes (calls ?r3) = []"
    using ws r0(1) no_reference_outcomes [OF ws(2)] by simp
  have p3: "inserted_reference_pairs ?r3 = {}"
    using r0(2) by (simp add: set_parent_links_pairs insert_nodes_pairs delete_pairs)
  note e = exact_references_attempts [of ?r3 ex env]
  note f = fuzzy_references_attempts [of ?r4 cm env]
  from e have k4: "original_id_to_db_id_map ?r4 = original_id_to_db_id_map ?r3"
    "fuzzy_path_to_nodes_map ?r4 = fuzzy_path_to_nodes_map ?r3"
    by (auto simp: attempts_from_def)
  from attempts_from_trans [OF e f] k4
  have t: "attempts_from
      (exact_discovered (original_id_to_db_id_map ?r3) ex
        @ fuzzy_discovered (original_id_to_db_id_map ?r3) (fuzzy_path_to_nodes_map ?r3) cm)
      ?r3 ?r5"
    by simp
  then obtain cs where cs: "calls ?r5 = calls ?r3 @ cs"
    "attempts_follow (inserted_reference_pairs ?r3)
      (exact_discovered (original_id_to_db_id_map ?r3) ex
        @ fuzzy_discovered (original_id_to_db_id_map ?r3) (fuzzy_path_to_nodes_map ?r3) cm)
      (reference_outcomes cs)"
    "original_id_to_db_id_map ?r5 = original_id_to_db_id_map ?r3"
    "fuzzy_path_to_nodes_map ?r5 = fuzzy_path_to_nodes_map ?r3"
    unfolding attempts_from_def by blast
  have "reference_outcomes (calls ?r5) = reference_outcomes cs"
    using cs(1) o3 by simp
  with cs(2,3,4) p3 show ?thesis
    unfolding rf by simp
qed

lemma phase4_attempts:
  assumes p: "phase4 env eff cs r = (Some x, rf)"
    and r0: "calls r = []" "inserted_reference_pairs r = {}" "original_id_to_db_id_map r = []"
  shows "attempts_follow {}
      (exact_discovered (original_id_to_db_id_map rf)
          (exact_resolved_references (resolve_references (node_mapper eff cs)))
        @ fuzzy_discovered (original_id_to_db_id_map rf) (fuzzy_path_to_nodes_map rf)
            (original_id_to_chunk_map (node_mapper eff cs)))
      (reference_outcomes (calls rf))"
proof (cases "db_nodes_to_insert (node_mapper eff cs) = []")
  case True
  with p have "rf = r" by (simp add: phase4_def)
  with r0 show ?thesis by (simp add: nothing_discovered)
next
  case False
  let ?m = "node_mapper eff cs"
  let ?r1 = "fuzzy_lookups env eff (paths_needing_fuzzy_lookup (resolve_references ?m)) r"
  obtain y r2 where
    e: "embedder_generate_node_embeddings env (db_nodes_to_insert ?m) ?r1 = (y, r2)"
    by (cases "embedder_generate_node_embeddings env (db_nodes_to_insert ?m) ?r1")
  from p e False obtain ns0 where sg:
    "store_graph env eff (original_id_to_chunk_map ?m)
       (exact_resolved_references (resolve_references ?m)) ns0 r2 = (Some x, rf)"
    by (cases y) (auto simp: phase4_def Let_def)
  have n: "\<And>c. is_find c \<and> expected_call c \<Longrightarrow> \<not> is_insert_reference c"
    "\<And>c. is_generate c \<Longrightarrow> \<not> is_insert_reference c"
    by (case_tac [!] c) auto
  have "adds_only (\<lambda>c. \<not> is_insert_reference c) r r2"
    by (rule adds_only_trans [OF adds_only_mono [OF fuzzy_lookups_adds]
          adds_only_mono [OF embed_adds [OF e]]]) (simp_all add: n)
  then have o2: "reference_outcomes (calls r2) = []"
    using r0(1) no_reference_outcomes by (auto simp: adds_only_def)
  have p2: "inserted_reference_pairs r2 = {}"
    using embed_pairs [OF e] r0(2) by (simp add: fuzzy_lookups_pairs)
  from store_graph_attempts [OF sg o2 p2] show ?thesis .
qed


lemma insert_reference_pair_outcome:
  "(s, t) \<notin> inserted_reference_pairs r \<Longrightarrow>
     reference_outcomes (new_calls r (insert_reference_pair env ty st s t r)) =
       [((s, t), (s, t) \<in> inserted_reference_pairs (insert_reference_pair env ty st s t r))]"
  by (auto simp: insert_reference_pair_def db_insert_reference_def logged_def new_calls_def
      Let_def returned_def split: prod.splits sum.splits)

text \<open>
  Claim C1, as the code has it. The pair is checked against \<open>inserted_reference_pairs\<close>
  before the store write and added to the set only when the write has returned. So in
  every run the pairs written are pairwise different (at most one successful
  \<open>insert_reference\<close> for a directed pair, whether it is found by exact or by fuzzy
  resolution), the dedup set is exactly the set of pairs written, and no call of
  \<open>insert_reference\<close> is made for a pair that an earlier call has written.

  A pair in the set is passed over without any effect; for a pair that is not in the set
  exactly one call is made, and the pair is in the set afterwards exactly when the call
  returned. For a whole run that returns a document id, the calls of \<open>insert_reference\<close>
  in its log are exactly those that arise from walking through the pairs that the exact
  pass and then the fuzzy pass come across: every pair not yet written is attempted,
  whether or not it was attempted before. A pair that is never written in the run is
  therefore attempted as many times as the passes come across it.
\<close>

theorem dedup_written_pairs:
  "distinct (references_written (calls (snd (process_document env file_path document_id w))))
   \<and> inserted_reference_pairs (snd (process_document env file_path document_id w)) =
       set (references_written (calls (snd (process_document env file_path document_id w))))
   \<and> checked_before_write {} (calls (snd (process_document env file_path document_id w)))
   \<and> ((s, t) \<in> inserted_reference_pairs r \<longrightarrow> insert_reference_pair env ty st s t r = r)
   \<and> ((s, t) \<notin> inserted_reference_pairs r \<longrightarrow>
        reference_outcomes (new_calls r (insert_reference_pair env ty st s t r)) =
          [((s, t), (s, t) \<in> inserted_reference_pairs (insert_reference_pair env ty st s t r))])
   \<and> (path_exists env file_path w
        \<and> upstream (init_components env) (run_init w) = (Inr u, r1)
        \<and> upstream (read_text env file_path) r1 = (Inr markdown_text, r2)
        \<and> \<not> list_all py_isspace markdown_text
        \<and> enrich env markdown_text r2 = (Some cs, r3)
        \<and> process_document env file_path document_id w = (Some x, rf)
      \<longrightarrow> attempts_follow {}
            (exact_discovered (original_id_to_db_id_map rf)
                (exact_resolved_references (resolve_references
                   (node_mapper (effective_document_id env file_path document_id) cs)))
              @ fuzzy_discovered (original_id_to_db_id_map rf) (fuzzy_path_to_nodes_map rf)
                  (original_id_to_chunk_map
                     (node_mapper (effective_document_id env file_path document_id) cs)))
            (reference_outcomes (calls rf))
          \<and> (p \<notin> set (references_written (calls rf)) \<longrightarrow>
                count_list (reference_attempts (calls rf)) p =
                count_list
                  (exact_discovered (original_id_to_db_id_map rf)
                      (exact_resolved_references (resolve_references
                         (node_mapper (effective_document_id env file_path document_id) cs)))
                    @ fuzzy_discovered (original_id_to_db_id_map rf)
                        (fuzzy_path_to_nodes_map rf)
                        (original_id_to_chunk_map
                           (node_mapper (effective_document_id env file_path document_id) cs)))
                  p))"
proof -
  let ?eff = "effective_document_id env file_path document_id"
  let ?D = "\<lambda>rf. exact_discovered (original_id_to_db_id_map rf)
                (exact_resolved_references (resolve_references (node_mapper ?eff cs)))
              @ fuzzy_discovered (original_id_to_db_id_map rf) (fuzzy_path_to_nodes_map rf)
                  (original_id_to_chunk_map (node_mapper ?eff cs))"
  have inv: "distinct (references_written (calls (snd (process_document env file_path document_id w))))
   \<and> inserted_reference_pairs (snd (process_document env file_path document_id w)) =
       set (references_written (calls (snd (process_document env file_path document_id w))))
   \<and> checked_before_write {} (calls (snd (process_document env file_path document_id w)))"
    using process_document_dedup [of env file_path document_id w] by (simp add: dedup_ok_def)
  have s1: "insert_reference_pair env ty st s t r = r" if "(s, t) \<in> inserted_reference_pairs r"
    using that by (simp add: insert_reference_pair_def)
  note s2 = insert_reference_pair_outcome [of s t r env ty st]
  have run: "attempts_follow {} (?D rf) (reference_outcomes (calls rf))
          \<and> (p \<notin> set (references_written (calls rf)) \<longrightarrow>
                count_list (reference_attempts (calls rf)) p = count_list (?D rf) p)"
    if a: "path_exists env file_path w
        \<and> upstream (init_components env) (run_init w) = (Inr u, r1)
        \<and> upstream (read_text env file_path) r1 = (Inr markdown_text, r2)
        \<and> \<not> list_all py_isspace markdown_text
        \<and> enrich env markdown_text r2 = (Some cs, r3)
        \<and> process_document env file_path document_id w = (Some x, rf)"
  proof -
    from a have h: "path_exists env file_path w"
      "upstream (init_components env) (run_init w) = (Inr u, r1)"
      "upstream (read_text env file_path) r1 = (Inr markdown_text, r2)"
      "\<not> list_all py_isspace markdown_text"
      "enrich env markdown_text r2 = (Some cs, r3)"
      and pd: "process_document env file_path document_id w = (Some x, rf)"
      by simp_all
    from reaches_phase4(1) [OF h, of document_id] pd
    have p4: "phase4 env ?eff cs r3 = (Some x, rf)"
      by simp
    note r3 = reaches_phase4(2) [OF h]
    have "calls r3 = calls (run_init w)"
      "inserted_reference_pairs r3 = inserted_reference_pairs (run_init w)"
      "original_id_to_db_id_map r3 = original_id_to_db_id_map (run_init w)"
      by (subst r3, simp)+
    then have i: "calls r3 = []" "inserted_reference_pairs r3 = {}"
      "original_id_to_db_id_map r3 = []"
      by (simp_all add: run_init_def)
    note f = phase4_attempts [OF p4 i]
    have "count_list (reference_attempts (calls rf)) p = count_list (?D rf) p"
      if "p \<notin> set (references_written (calls rf))"
      using attempts_follow_count [OF f, of p] that
      by (simp add: attempts_of_outcomes written_of_outcomes)
    with f show ?thesis by blast
  qed
  from inv s1 s2 run show ?thesis by blast
qed

text \<open>
  Claim C1 as stated fails: a pair whose write raised is not in the set, and the next
  discovery of the pair attempts the write again. In the guide document the second chunk
  mentions \<open>Guide\<close> twice; when the first \<open>insert_reference\<close> raises, the pair
  \<open>(2, 1)\<close> is attempted twice.
\<close>

theorem dedup_attempts_counterexample:
  "reference_attempts (calls (snd retry_run)) = [(2, 1), (2, 1), (1, 2)]
   \<and> \<not> distinct (reference_attempts (calls (snd retry_run)))"
  by code_simp

text \<open>
  In that run each of the two pairs is written once and the dedup set holds both; a
  further discovery of \<open>(2, 1)\<close> changes nothing, while on a fresh state the write of
  \<open>(2, 1)\<close> is attempted and, having raised, leaves the pair out of the set. When the
  first four writes raise, the passes come across \<open>(2, 1)\<close> three times and \<open>(1, 2)\<close>
  once, and each of these four discoveries is attempted.
\<close>

theorem dedup_written_pairs_witness:
  "reference_attempts (calls (snd retry_run)) = [(2, 1), (2, 1), (1, 2)]
   \<and> references_written (calls (snd retry_run)) = [(2, 1), (1, 2)]
   \<and> distinct (references_written (calls (snd retry_run)))
   \<and> inserted_reference_pairs (snd retry_run) = {(2, 1), (1, 2)}
   \<and> checked_before_write {} (calls (snd retry_run))
   \<and> (2, 1) \<in> inserted_reference_pairs (snd retry_run)
   \<and> insert_reference_pair (demo_env guide_chunks guide_found) ''related_section_fuzzy'' 0.7
         2 1 (snd retry_run) = snd retry_run
   \<and> (2, 1) \<notin> inserted_reference_pairs (run_init (demo_world0\<lparr>ref_failures := 1\<rparr>))
   \<and> reference_outcomes (new_calls (run_init (demo_world0\<lparr>ref_failures := 1\<rparr>))
         (insert_reference_pair (demo_env guide_chunks guide_found) ''related_section_exact''
            0.9 2 1 (run_init (demo_world0\<lparr>ref_failures := 1\<rparr>)))) = [((2, 1), False)]
   \<and> path_exists (demo_env guide_chunks guide_found) ''guide.md''
         (demo_world0\<lparr>ref_failures := 4\<rparr>)
   \<and> upstream (init_components (demo_env guide_chunks guide_found))
         (run_init (demo_world0\<lparr>ref_failures := 4\<rparr>))
       = (Inr (), run_init (demo_world0\<lparr>ref_failures := 4\<rparr>))
   \<and> upstream (read_text (demo_env guide_chunks guide_found) ''guide.md'')
         (run_init (demo_world0\<lparr>ref_failures := 4\<rparr>))
       = (Inr ''# Guide'', run_init (demo_world0\<lparr>ref_failures := 4\<rparr>))
   \<and> \<not> list_all py_isspace ''# Guide''
   \<and> enrich (demo_env guide_chunks guide_found) ''# Guide''
         (run_init (demo_world0\<lparr>ref_failures := 4\<rparr>))
       = (Some guide_chunks, run_init (demo_world0\<lparr>ref_failures := 4\<rparr>))
   \<and> fst refused_run = Some ''guide''
   \<and> exact_discovered (original_id_to_db_id_map (snd refused_run))
         (exact_resolved_references (resolve_references (node_mapper ''guide'' guide_chunks)))
       = [(2, 1), (2, 1)]
   \<and> fuzzy_discovered (original_id_to_db_id_map (snd refused_run))
         (fuzzy_path_to_nodes_map (snd refused_run))
         (original_id_to_chunk_map (node_mapper ''guide'' guide_chunks))
       = [(1, 2), (2, 1)]
   \<and> reference_outcomes (calls (snd refused_run))
       = [((2, 1), False), ((2, 1), False), ((1, 2), False), ((2, 1), False)]
   \<and> attempts_follow {} [(2, 1), (2, 1), (1, 2), (2, 1)]
         (reference_outcomes (calls (snd refused_run)))
   \<and> (2, 1) \<notin> set (references_written (calls (snd refused_run)))
   \<and> count_list (reference_attempts (calls (snd refused_run))) (2, 1) = 3"
proof -
  let ?env = "demo_env guide_chunks guide_found"
  let ?w1 = "demo_world0\<lparr>ref_failures := 1\<rparr>"
  let ?w4 = "demo_world0\<lparr>ref_failures := 4\<rparr>"
  have a: "reference_attempts (calls (snd retry_run)) = [(2, 1), (2, 1), (1, 2)]"
    "references_written (calls (snd retry_run)) = [(2, 1), (1, 2)]"
    by code_simp+
  note t1 = dedup_written_pairs [where env = ?env and file_path = "''guide.md''"
      and document_id = None and w = ?w1 and s = 2 and t = 1 and r = "snd retry_run"
      and ty = "''related_section_fuzzy''" and st = "0.7"]
  from t1 a have old: "distinct (references_written (calls (snd retry_run)))
     \<and> inserted_reference_pairs (snd retry_run) = {(2, 1), (1, 2)}
     \<and> checked_before_write {} (calls (snd retry_run))"
    by (simp add: retry_run_def)
  then have m: "(2, 1) \<in> inserted_reference_pairs (snd retry_run)"
    by simp
  from t1 m have s1: "insert_reference_pair ?env ''related_section_fuzzy'' 0.7 2 1
      (snd retry_run) = snd retry_run"
    by blast
  have n: "(2, 1) \<notin> inserted_reference_pairs (run_init ?w1)"
    by (simp add: run_init_def)
  have ni: "((2, 1) \<in> inserted_reference_pairs
      (insert_reference_pair ?env ''related_section_exact'' 0.9 2 1 (run_init ?w1))) = False"
    by (simp add: insert_reference_pair_def db_insert_reference_def logged_def run_init_def
        demo_env_def demo_world0_def Let_def)
  from dedup_written_pairs [where env = ?env and s = 2 and t = 1 and r = "run_init ?w1"
      and ty = "''related_section_exact''" and st = "0.9"] n
  have "reference_outcomes (new_calls (run_init ?w1)
         (insert_reference_pair ?env ''related_section_exact'' 0.9 2 1 (run_init ?w1))) =
       [((2, 1), (2, 1) \<in> inserted_reference_pairs
          (insert_reference_pair ?env ''related_section_exact'' 0.9 2 1 (run_init ?w1)))]"
    by blast
  then have s2: "reference_outcomes (new_calls (run_init ?w1)
         (insert_reference_pair ?env ''related_section_exact'' 0.9 2 1 (run_init ?w1))) =
       [((2, 1), False)]"
    unfolding ni .
  have g1: "path_exists ?env ''guide.md'' ?w4"
    by code_simp
  have g2: "upstream (init_components ?env) (run_init ?w4) = (Inr (), run_init ?w4)"
    by (simp add: upstream_def demo_env_def)
  have g3: "upstream (read_text ?env ''guide.md'') (run_init ?w4) = (Inr ''# Guide'', run_init ?w4)"
    by (simp add: upstream_def demo_env_def)
  have g4: "\<not> list_all py_isspace ''# Guide''"
    by code_simp
  have g5: "enrich ?env ''# Guide'' (run_init ?w4) = (Some guide_chunks, run_init ?w4)"
    by (simp add: enrich_def upstream_def demo_env_def)
  have res: "fst refused_run = Some ''guide''"
    by code_simp
  have g6: "process_document ?env ''guide.md'' None ?w4 = (Some ''guide'', snd refused_run)"
    using res by (simp add: refused_run_def prod_eq_iff)
  have eff: "effective_document_id ?env ''guide.md'' None = ''guide''"
    by code_simp
  have d: "exact_discovered (original_id_to_db_id_map (snd refused_run))
         (exact_resolved_references (resolve_references (node_mapper ''guide'' guide_chunks)))
       = [(2, 1), (2, 1)]"
    "fuzzy_discovered (original_id_to_db_id_map (snd refused_run))
         (fuzzy_path_to_nodes_map (snd refused_run))
         (original_id_to_chunk_map (node_mapper ''guide'' guide_chunks))
       = [(1, 2), (2, 1)]"
    "reference_outcomes (calls (snd refused_run))
       = [((2, 1), False), ((2, 1), False), ((1, 2), False), ((2, 1), False)]"
    by code_simp+
  have nw: "(2, 1) \<notin> set (references_written (calls (snd refused_run)))"
    by code_simp
  note t4 = dedup_written_pairs [where env = ?env and file_path = "''guide.md''"
      and document_id = None and w = ?w4 and u = "()" and ?r1.0 = "run_init ?w4"
      and markdown_text = "''# Guide''" and ?r2.0 = "run_init ?w4" and cs = guide_chunks
      and ?r3.0 = "run_init ?w4" and x = "''guide''" and rf = "snd refused_run"
      and p = "(2, 1)"]
  from t4 g1 g2 g3 g4 g5 g6 nw
  have run: "attempts_follow {}
            (exact_discovered (original_id_to_db_id_map (snd refused_run))
                (exact_resolved_references (resolve_references
                   (node_mapper (effective_document_id ?env ''guide.md'' None) guide_chunks)))
              @ fuzzy_discovered (original_id_to_db_id_map (snd refused_run))
                  (fuzzy_path_to_nodes_map (snd refused_run))
                  (original_id_to_chunk_map
                     (node_mapper (effective_document_id ?env ''guide.md'' None) guide_chunks)))
            (reference_outcomes (calls (snd refused_run)))"
    and cnt: "count_list (reference_attempts (calls (snd refused_run))) (2, 1) =
                count_list
                  (exact_discovered (original_id_to_db_id_map (snd refused_run))
                      (exact_resolved_references (resolve_references
                         (node_mapper (effective_document_id ?env ''guide.md'' None)
                            guide_chunks)))
                    @ fuzzy_discovered (original_id_to_db_id_map (snd refused_run))
                        (fuzzy_path_to_nodes_map (snd refused_run))
                        (original_id_to_chunk_map
                           (node_mapper (effective_document_id ?env ''guide.md'' None)
                              guide_chunks)))
                  (2, 1)"
    by blast+
  from run have 1: "attempts_follow {} [(2, 1), (2, 1), (1, 2), (2, 1)]
         (reference_outcomes (calls (snd refused_run)))"
    unfolding eff d(1,2) by simp
  from cnt have 2: "count_list (reference_attempts (calls (snd refused_run))) (2, 1) = 3"
    unfolding eff d(1,2) by simp
  from a old m s1 n s2 g1 g2 g3 g4 g5 res d nw 1 2 show ?thesis by simp
qed

section \<open>The returned document id\<close>

text \<open>
  Claim C10, as the code has it. Whenever \<open>process_document\<close> returns a document id, it
  is the effective id: the file name's stem when no id is given, the caller's id when it
  is given and not empty, and the stem again when the caller's id is the empty string
  (\<open>document_id or Path(file_path).stem\<close>).
\<close>

theorem returned_document_id:
  "(fst (process_document env file_path document_id w) = Some x \<longrightarrow>
      x = effective_document_id env file_path document_id)
   \<and> effective_document_id env file_path None = path_stem env file_path
   \<and> (d \<noteq> [] \<longrightarrow> effective_document_id env file_path (Some d) = d)
   \<and> effective_document_id env file_path (Some []) = path_stem env file_path"
proof -
  obtain res r where p: "process_document env file_path document_id w = (res, r)"
    by (cases "process_document env file_path document_id w")
  from process_document_summary [OF p]
  have "res \<noteq> None \<longrightarrow> res = Some (effective_document_id env file_path document_id)"
    by (simp add: run_summary_def)
  with p show ?thesis by (auto simp: effective_document_id_def)
qed

text \<open>
  Claim C10 as stated fails when the caller gives the empty string as id: the run returns
  the stem \<open>guide\<close>, not the id given.
\<close>

theorem returned_document_id_counterexample:
  "fst (process_document (demo_env guide_chunks guide_found) ''guide.md'' (Some []) demo_world0)
     = Some ''guide''
   \<and> fst (process_document (demo_env guide_chunks guide_found) ''guide.md'' (Some []) demo_world0)
     \<noteq> Some []"
  by code_simp

text \<open>
  With the id \<open>doc-7\<close> the run on the guide document returns \<open>doc-7\<close>; without an id
  the effective id is the stem of \<open>guide.md\<close>.
\<close>

theorem returned_document_id_witness:
  "fst (process_document (demo_env guide_chunks guide_found) ''guide.md'' (Some ''doc-7'')
          demo_world0) = Some ''doc-7''
   \<and> ''doc-7'' \<noteq> []
   \<and> ''doc-7'' = effective_document_id (demo_env guide_chunks guide_found) ''guide.md''
                    (Some ''doc-7'')
   \<and> effective_document_id (demo_env guide_chunks guide_found) ''guide.md'' None = ''guide''"
proof -
  have a: "fst (process_document (demo_env guide_chunks guide_found) ''guide.md''
               (Some ''doc-7'') demo_world0) = Some ''doc-7''"
    by code_simp
  have s: "path_stem (demo_env guide_chunks guide_found) ''guide.md'' = ''guide''"
    by code_simp
  have n: "''doc-7'' \<noteq> []" by simp
  from returned_document_id [of "demo_env guide_chunks guide_found" "''guide.md''"
      "Some ''doc-7''" demo_world0 "''doc-7''" "''doc-7''"] a s n
  show ?thesis by simp
qed

section \<open>An empty batch\<close>

lemma map_chunk_nodes:
  "db_nodes_to_insert (map_chunk d c m) =
     db_nodes_to_insert m @
       (case c_id c of None \<Rightarrow> []
        | Some i \<Rightarrow> (case c_metadata c of None \<Rightarrow> [] | Some md \<Rightarrow> [node_data d c i md]))"
  by (simp add: map_chunk_def Let_def split: option.splits)

lemma fold_map_chunk_nodes:
  "db_nodes_to_insert (fold (map_chunk d) cs m) =
     db_nodes_to_insert m @
       concat (map (\<lambda>c. case c_id c of None \<Rightarrow> []
          | Some i \<Rightarrow> (case c_metadata c of None \<Rightarrow> [] | Some md \<Rightarrow> [node_data d c i md])) cs)"
  by (induction cs arbitrary: m) (simp_all add: map_chunk_nodes)

lemma node_mapper_empty:
  "(db_nodes_to_insert (node_mapper d cs) = []) =
     list_all (\<lambda>c. c_id c = None \<or> c_metadata c = None) cs"
  by (auto simp: node_mapper_def fold_map_chunk_nodes mapped_empty_def list_all_iff
      split: option.splits)

text \<open>
  Claim C6. The list of node records is empty exactly when every chunk lacks \<open>id\<close> or
  \<open>metadata\<close>. Then the rest of \<open>process_document\<close> returns the document id and
  leaves the state of the run as it found it: no reference is resolved, and no lookup,
  embedding call or store write is made. For the whole function: when the file exists, the
  components initialise, the text is read and is not blank, and phases 1 to 3 deliver such
  chunks, \<open>process_document\<close> returns the document id with an empty log of calls.
\<close>

theorem empty_batch:
  "(db_nodes_to_insert (node_mapper eff cs) = []) =
      list_all (\<lambda>c. c_id c = None \<or> c_metadata c = None) cs
   \<and> (db_nodes_to_insert (node_mapper eff cs) = [] \<longrightarrow> phase4 env eff cs r = (Some eff, r))
   \<and> (path_exists env file_path w
        \<and> upstream (init_components env) (run_init w) = (Inr u, r1)
        \<and> upstream (read_text env file_path) r1 = (Inr markdown_text, r2)
        \<and> \<not> list_all py_isspace markdown_text
        \<and> enrich env markdown_text r2 = (Some cs, r3)
        \<and> db_nodes_to_insert
             (node_mapper (effective_document_id env file_path document_id) cs) = []
      \<longrightarrow> process_document env file_path document_id w =
            (Some (effective_document_id env file_path document_id), r3)
          \<and> calls r3 = [])"
proof (intro conjI impI)
  show "(db_nodes_to_insert (node_mapper eff cs) = []) =
      list_all (\<lambda>c. c_id c = None \<or> c_metadata c = None) cs"
    by (rule node_mapper_empty)
  show "phase4 env eff cs r = (Some eff, r)" if "db_nodes_to_insert (node_mapper eff cs) = []"
    using that by (simp add: phase4_def)
next
  assume a: "path_exists env file_path w
        \<and> upstream (init_components env) (run_init w) = (Inr u, r1)
        \<and> upstream (read_text env file_path) r1 = (Inr markdown_text, r2)
        \<and> \<not> list_all py_isspace markdown_text
        \<and> enrich env markdown_text r2 = (Some cs, r3)
        \<and> db_nodes_to_insert
             (node_mapper (effective_document_id env file_path document_id) cs) = []"
  then show "process_document env file_path document_id w =
            (Some (effective_document_id env file_path document_id), r3)"
    by (simp add: process_document_def Let_def phase4_def)
  from a have u1: "upstream (init_components env) (run_init w) = (Inr u, r1)"
    and u2: "upstream (read_text env file_path) r1 = (Inr markdown_text, r2)"
    and u3: "enrich env markdown_text r2 = (Some cs, r3)"
    by simp_all
  from upstream_quiet [OF u1] upstream_quiet [OF u2] enrich_quiet [OF u3]
  show "calls r3 = []" by (simp add: run_init_def)
qed

text \<open>
  A document whose two chunks are both discarded: the run returns \<open>guide\<close> and has
  called neither the store nor the embedding generator.
\<close>

theorem empty_batch_witness:
  "list_all (\<lambda>c. c_id c = None \<or> c_metadata c = None) discarded_chunks
   \<and> path_exists (demo_env discarded_chunks guide_found) ''guide.md'' demo_world0
   \<and> upstream (init_components (demo_env discarded_chunks guide_found)) (run_init demo_world0)
        = (Inr (), run_init demo_world0)
   \<and> upstream (read_text (demo_env discarded_chunks guide_found) ''guide.md'')
        (run_init demo_world0) = (Inr ''# Guide'', run_init demo_world0)
   \<and> \<not> list_all py_isspace ''# Guide''
   \<and> enrich (demo_env discarded_chunks guide_found) ''# Guide'' (run_init demo_world0)
        = (Some discarded_chunks, run_init demo_world0)
   \<and> process_document (demo_env discarded_chunks guide_found) ''guide.md'' None demo_world0
        = (Some ''guide'', run_init demo_world0)
   \<and> calls (run_init demo_world0) = []"
proof -
  let ?env = "demo_env discarded_chunks guide_found"
  have h0: "list_all (\<lambda>c. c_id c = None \<or> c_metadata c = None) discarded_chunks"
    by code_simp
  have h1: "path_exists ?env ''guide.md'' demo_world0"
    by code_simp
  have h2: "upstream (init_components ?env) (run_init demo_world0) = (Inr (), run_init demo_world0)"
    by (simp add: upstream_def demo_env_def)
  have h3: "upstream (read_text ?env ''guide.md'') (run_init demo_world0)
        = (Inr ''# Guide'', run_init demo_world0)"
    by (simp add: upstream_def demo_env_def)
  have h4: "\<not> list_all py_isspace ''# Guide''"
    by code_simp
  have h5: "enrich ?env ''# Guide'' (run_init demo_world0)
        = (Some discarded_chunks, run_init demo_world0)"
    by (simp add: enrich_def upstream_def demo_env_def)
  have e: "effective_document_id ?env ''guide.md'' None = ''guide''"
    by code_simp
  note t = empty_batch [of "''guide''" discarded_chunks ?env "run_init demo_world0"
      "''guide.md''" demo_world0 "()" "run_init demo_world0" "''# Guide''" "run_init demo_world0"
      "run_init demo_world0" None]
  from t h0 have n: "db_nodes_to_insert (node_mapper ''guide'' discarded_chunks) = []"
    by blast
  from t h1 h2 h3 h4 h5 n e show ?thesis using h0 by simp
qed

section \<open>Batch fuzzy lookups\<close>

lemma set_add_distinct: "distinct xs \<Longrightarrow> distinct (set_add x xs)"
  by (simp add: set_add_def)

lemma resolve_item_distinct:
  "distinct (paths_needing_fuzzy_lookup r) \<Longrightarrow>
     distinct (paths_needing_fuzzy_lookup (resolve_item pm s it r))"
  by (auto simp: resolve_item_def Let_def set_add_distinct split: option.splits)

lemma resolve_references_distinct:
  "distinct (paths_needing_fuzzy_lookup (resolve_references m))"
  unfolding resolve_references_def resolve_chunk_def
  by (intro fold_invariant [where P = "\<lambda>r. distinct (paths_needing_fuzzy_lookup r)"])
     (auto simp: resolved_empty_def intro: resolve_item_distinct)

lemma fuzzy_lookup_step:
  "calls (fuzzy_lookup env d p r) =
     calls r @ [FindNodesByPath (''%'' @ p @ ''%'') 10 (lookup_result env p r)]"
  "fuzzy_lookup_errors (fuzzy_lookup env d p r) =
     fuzzy_lookup_errors r + (case lookup_result env p r of None \<Rightarrow> 1 | Some rows \<Rightarrow> 0)"
  "map_of (fuzzy_path_to_nodes_map (fuzzy_lookup env d p r)) q =
     (if q = p then
        (case lookup_result env p r of
           None \<Rightarrow> map_of (fuzzy_path_to_nodes_map r) q
         | Some rows \<Rightarrow>
             if same_document d rows = [] then map_of (fuzzy_path_to_nodes_map r) q
             else Some (same_document d rows))
      else map_of (fuzzy_path_to_nodes_map r) q)"
  by (auto simp: fuzzy_lookup_def db_find_nodes_by_path_def logged_def Let_def
      lookup_result_def returned_value_def same_document_def update_conv'
      split: prod.splits sum.splits)

lemma fuzzy_lookups_steps:
  "\<exists>cs. calls (fuzzy_lookups env d ps r) = calls r @ cs
     \<and> map query_of cs = map (\<lambda>p. Some (''%'' @ p @ ''%'', 10)) ps
     \<and> fuzzy_lookup_errors (fuzzy_lookups env d ps r) = fuzzy_lookup_errors r + raised_finds cs
     \<and> (\<forall>q. q \<notin> set ps \<longrightarrow>
           map_of (fuzzy_path_to_nodes_map (fuzzy_lookups env d ps r)) q =
             map_of (fuzzy_path_to_nodes_map r) q)
     \<and> (distinct ps \<longrightarrow> (\<forall>q \<in> set ps. \<exists>x.
           FindNodesByPath (''%'' @ q @ ''%'') 10 x \<in> set cs
           \<and> map_of (fuzzy_path_to_nodes_map (fuzzy_lookups env d ps r)) q =
               (case x of
                  None \<Rightarrow> map_of (fuzzy_path_to_nodes_map r) q
                | Some rows \<Rightarrow>
                    if same_document d rows = [] then map_of (fuzzy_path_to_nodes_map r) q
                    else Some (same_document d rows))))"
proof (induction ps arbitrary: r)
  case Nil
  show ?case by (simp add: fuzzy_lookups_def)
next
  case (Cons p ps)
  let ?r1 = "fuzzy_lookup env d p r"
  let ?r' = "fuzzy_lookups env d ps ?r1"
  let ?x = "lookup_result env p r"
  have eq: "fuzzy_lookups env d (p # ps) r = ?r'"
    by (simp add: fuzzy_lookups_def)
  from Cons.IH [of ?r1] obtain cs where
    c: "calls ?r' = calls ?r1 @ cs"
    and qs: "map query_of cs = map (\<lambda>p. Some (''%'' @ p @ ''%'', 10)) ps"
    and er: "fuzzy_lookup_errors ?r' = fuzzy_lookup_errors ?r1 + raised_finds cs"
    and out: "\<And>q. q \<notin> set ps \<Longrightarrow>
           map_of (fuzzy_path_to_nodes_map ?r') q = map_of (fuzzy_path_to_nodes_map ?r1) q"
    and inn: "distinct ps \<Longrightarrow> (\<forall>q \<in> set ps. \<exists>x.
           FindNodesByPath (''%'' @ q @ ''%'') 10 x \<in> set cs
           \<and> map_of (fuzzy_path_to_nodes_map ?r') q =
               (case x of
                  None \<Rightarrow> map_of (fuzzy_path_to_nodes_map ?r1) q
                | Some rows \<Rightarrow>
                    if same_document d rows = [] then map_of (fuzzy_path_to_nodes_map ?r1) q
                    else Some (same_document d rows)))"
    by blast
  let ?cs = "FindNodesByPath (''%'' @ p @ ''%'') 10 ?x # cs"
  have 1: "calls ?r' = calls r @ ?cs"
    using c by (simp add: fuzzy_lookup_step(1))
  have 2: "map query_of ?cs = map (\<lambda>p. Some (''%'' @ p @ ''%'', 10)) (p # ps)"
    using qs by simp
  have 3: "fuzzy_lookup_errors ?r' = fuzzy_lookup_errors r + raised_finds ?cs"
    using er by (simp add: fuzzy_lookup_step(2) split: option.splits)
  have 4: "map_of (fuzzy_path_to_nodes_map ?r') q = map_of (fuzzy_path_to_nodes_map r) q"
    if "q \<notin> set (p # ps)" for q
    using that out [of q] by (simp add: fuzzy_lookup_step(3))
  have 5: "\<exists>x. FindNodesByPath (''%'' @ q @ ''%'') 10 x \<in> set ?cs
           \<and> map_of (fuzzy_path_to_nodes_map ?r') q =
               (case x of
                  None \<Rightarrow> map_of (fuzzy_path_to_nodes_map r) q
                | Some rows \<Rightarrow>
                    if same_document d rows = [] then map_of (fuzzy_path_to_nodes_map r) q
                    else Some (same_document d rows))"
    if d: "distinct (p # ps)" and q: "q \<in> set (p # ps)" for q
  proof (cases "q = p")
    case True
    with d have "q \<notin> set ps" by simp
    from out [OF this] True show ?thesis
      by (intro exI [of _ ?x]) (auto simp: fuzzy_lookup_step(3) split: option.splits)
  next
    case False
    with q d have "q \<in> set ps" "distinct ps" by simp_all
    with inn obtain x where
      x: "FindNodesByPath (''%'' @ q @ ''%'') 10 x \<in> set cs"
      "map_of (fuzzy_path_to_nodes_map ?r') q =
               (case x of
                  None \<Rightarrow> map_of (fuzzy_path_to_nodes_map ?r1) q
                | Some rows \<Rightarrow>
                    if same_document d rows = [] then map_of (fuzzy_path_to_nodes_map ?r1) q
                    else Some (same_document d rows))"
      by blast
    from False have "map_of (fuzzy_path_to_nodes_map ?r1) q = map_of (fuzzy_path_to_nodes_map r) q"
      by (simp add: fuzzy_lookup_step(3))
    with x show ?thesis
      by (intro exI [of _ x]) (auto split: option.splits)
  qed
  show ?case
    unfolding eq using 1 2 3 4 5 by (intro exI [of _ ?cs]) blast
qed

section \<open>The lookups of a run\<close>

lemma embed_lookup_state:
  "embedder_generate_node_embeddings env ns r = (x, r') \<Longrightarrow> lookup_state r' = lookup_state r"
  by (auto simp: lookup_state_def embedder_generate_node_embeddings_def logged_def
      split: prod.splits)

lemma delete_lookup_state:
  "lookup_state (snd (db_delete_nodes_by_document_id env d r)) = lookup_state r"
  by (auto simp: lookup_state_def db_delete_nodes_by_document_id_def logged_def
      split: prod.splits)

lemma insert_one_lookup_state: "lookup_state (insert_one env n r) = lookup_state r"
  by (auto simp: lookup_state_def insert_one_def count_failed_def db_insert_node_def logged_def
      split: option.splits prod.splits sum.splits)

lemma insert_nodes_lookup_state: "lookup_state (insert_nodes env ns r) = lookup_state r"
  unfolding insert_nodes_def by (rule fold_preserves) (rule insert_one_lookup_state)

lemma set_parent_link_lookup_state:
  "lookup_state (set_parent_link env cm item r) = lookup_state r"
  by (auto simp: lookup_state_def set_parent_link_def db_update_node_parent_def logged_def
      split: prod.splits sum.splits option.splits)

lemma set_parent_links_lookup_state: "lookup_state (set_parent_links env cm r) = lookup_state r"
  unfolding set_parent_links_def by (rule fold_preserves) (rule set_parent_link_lookup_state)

lemma insert_reference_pair_lookup_state:
  "lookup_state (insert_reference_pair env ty st s t r) = lookup_state r"
  by (auto simp: lookup_state_def insert_reference_pair_def db_insert_reference_def logged_def
      Let_def split: prod.splits sum.splits)

lemma exact_reference_lookup_state: "lookup_state (exact_reference env pr r) = lookup_state r"
  by (auto simp: exact_reference_def insert_reference_pair_lookup_state split: option.splits)

lemma exact_references_lookup_state:
  "lookup_state (exact_references env refs r) = lookup_state r"
  unfolding exact_references_def by (rule fold_preserves) (rule exact_reference_lookup_state)

lemma fuzzy_target_lookup_state: "lookup_state (fuzzy_target env s tn r) = lookup_state r"
  by (auto simp: fuzzy_target_def insert_reference_pair_lookup_state split: option.splits)

lemma fuzzy_item_lookup_state: "lookup_state (fuzzy_item env s m r) = lookup_state r"
proof -
  have "fuzzy_path_to_nodes_map r = fst (lookup_state r)"
    by (simp add: lookup_state_def)
  then show ?thesis
    by (auto simp: fuzzy_item_def fold_preserves [of lookup_state, OF fuzzy_target_lookup_state]
        split: option.splits)
qed

lemma fuzzy_chunk_lookup_state: "lookup_state (fuzzy_chunk env item r) = lookup_state r"
  by (auto simp: fuzzy_chunk_def fold_preserves [of lookup_state, OF fuzzy_item_lookup_state]
      split: option.splits)

lemma fuzzy_references_lookup_state:
  "lookup_state (fuzzy_references env cm r) = lookup_state r"
  unfolding fuzzy_references_def by (rule fold_preserves) (rule fuzzy_chunk_lookup_state)

lemma store_graph_lookup_state:
  "lookup_state (snd (store_graph env eff cm ex ns r)) = lookup_state r"
  by (simp add: store_graph_def Let_def fuzzy_references_lookup_state
      exact_references_lookup_state set_parent_links_lookup_state insert_nodes_lookup_state
      delete_lookup_state)

lemma raised_finds_append [simp]: "raised_finds (xs @ ys) = raised_finds xs + raised_finds ys"
  by (induction xs rule: raised_finds.induct) (auto split: option.splits)

lemma no_find_calls:
  "list_all (\<lambda>c. \<not> is_find c) cs \<Longrightarrow> filter is_find cs = [] \<and> raised_finds cs = 0"
  by (induction cs rule: raised_finds.induct) auto

lemma queries_are_finds:
  "map query_of cs = map (\<lambda>p. Some (f p)) ps \<Longrightarrow> filter is_find cs = cs"
proof (induction cs arbitrary: ps)
  case Nil
  show ?case by simp
next
  case (Cons c cs)
  then obtain p ps' where "ps = p # ps'" "query_of c = Some (f p)"
    "map query_of cs = map (\<lambda>p. Some (f p)) ps'"
    by (cases ps) auto
  with Cons.IH [of ps'] show ?case by (cases c) auto
qed


lemma phase4_lookups:
  assumes p: "phase4 env eff cs r = (res, rf)"
    and r0: "calls r = []" "lookup_state r = ([], 0)"
    and ne: "db_nodes_to_insert (node_mapper eff cs) \<noteq> []"
  shows "map query_of (filter is_find (calls rf)) =
           map (\<lambda>p. Some (''%'' @ p @ ''%'', 10))
             (paths_needing_fuzzy_lookup (resolve_references (node_mapper eff cs)))"
    and "fuzzy_lookup_errors rf = raised_finds (calls rf)"
    and "q \<in> set (paths_needing_fuzzy_lookup (resolve_references (node_mapper eff cs))) \<Longrightarrow>
           \<exists>x. FindNodesByPath (''%'' @ q @ ''%'') 10 x \<in> set (calls rf)
             \<and> map_of (fuzzy_path_to_nodes_map rf) q =
                 (case x of
                    None \<Rightarrow> None
                  | Some rows \<Rightarrow>
                      if same_document eff rows = [] then None
                      else Some (same_document eff rows))"
    and "q \<notin> set (paths_needing_fuzzy_lookup (resolve_references (node_mapper eff cs))) \<Longrightarrow>
           map_of (fuzzy_path_to_nodes_map rf) q = None"
proof -
  let ?m = "node_mapper eff cs"
  let ?ps = "paths_needing_fuzzy_lookup (resolve_references ?m)"
  let ?r1 = "fuzzy_lookups env eff ?ps r"
  have f0: "fuzzy_path_to_nodes_map r = []" "fuzzy_lookup_errors r = 0"
    using r0(2) by (simp_all add: lookup_state_def)
  from fuzzy_lookups_steps [of env eff ?ps r]
  obtain fs where fs0: "calls ?r1 = calls r @ fs"
    and qs: "map query_of fs = map (\<lambda>p. Some (''%'' @ p @ ''%'', 10)) ?ps"
    and er0: "fuzzy_lookup_errors ?r1 = fuzzy_lookup_errors r + raised_finds fs"
    and out0: "\<forall>q. q \<notin> set ?ps \<longrightarrow>
           map_of (fuzzy_path_to_nodes_map ?r1) q = map_of (fuzzy_path_to_nodes_map r) q"
    and inn0: "distinct ?ps \<longrightarrow> (\<forall>q \<in> set ?ps. \<exists>x.
           FindNodesByPath (''%'' @ q @ ''%'') 10 x \<in> set fs
           \<and> map_of (fuzzy_path_to_nodes_map ?r1) q =
               (case x of
                  None \<Rightarrow> map_of (fuzzy_path_to_nodes_map r) q
                | Some rows \<Rightarrow>
                    if same_document eff rows = [] then map_of (fuzzy_path_to_nodes_map r) q
                    else Some (same_document eff rows)))"
    by blast
  have fs: "calls ?r1 = fs" using fs0 r0(1) by simp
  have er: "fuzzy_lookup_errors ?r1 = raised_finds fs" using er0 f0 by simp
  have out: "map_of (fuzzy_path_to_nodes_map ?r1) q = None" if "q \<notin> set ?ps" for q
    using out0 that f0 by simp
  have inn: "\<exists>x. FindNodesByPath (''%'' @ q @ ''%'') 10 x \<in> set fs
           \<and> map_of (fuzzy_path_to_nodes_map ?r1) q =
               (case x of
                  None \<Rightarrow> None
                | Some rows \<Rightarrow>
                    if same_document eff rows = [] then None
                    else Some (same_document eff rows))"
    if "q \<in> set ?ps" for q
  proof -
    from inn0 resolve_references_distinct [of ?m] that
    obtain x where x: "FindNodesByPath (''%'' @ q @ ''%'') 10 x \<in> set fs"
      "map_of (fuzzy_path_to_nodes_map ?r1) q =
               (case x of
                  None \<Rightarrow> map_of (fuzzy_path_to_nodes_map r) q
                | Some rows \<Rightarrow>
                    if same_document eff rows = [] then map_of (fuzzy_path_to_nodes_map r) q
                    else Some (same_document eff rows))"
      by blast
    from x(2) f0 have "map_of (fuzzy_path_to_nodes_map ?r1) q =
               (case x of
                  None \<Rightarrow> None
                | Some rows \<Rightarrow>
                    if same_document eff rows = [] then None
                    else Some (same_document eff rows))"
      by (simp split: option.splits)
    with x(1) show ?thesis by blast
  qed
  obtain x r2 where
    e: "embedder_generate_node_embeddings env (db_nodes_to_insert ?m) ?r1 = (x, r2)"
    by (cases "embedder_generate_node_embeddings env (db_nodes_to_insert ?m) ?r1")
  have c2: "calls r2 = fs @ [GenerateNodeEmbeddings (db_nodes_to_insert ?m) (returned_value x)]"
    using embed_calls [OF e] fs by simp
  have l2: "lookup_state r2 = lookup_state ?r1"
    by (rule embed_lookup_state [OF e])
  have "\<exists>ws. calls rf = fs @ ws \<and> list_all (\<lambda>c. \<not> is_find c) ws
          \<and> lookup_state rf = lookup_state ?r1"
  proof (cases x)
    case (Inl a)
    with p e ne have "rf = r2" by (auto simp: phase4_def Let_def)
    with c2 l2 show ?thesis by simp
  next
    case (Inr ns0)
    with p e ne have sg:
      "store_graph env eff (original_id_to_chunk_map ?m)
         (exact_resolved_references (resolve_references ?m)) ns0 r2 = (res, rf)"
      by (auto simp: phase4_def Let_def)
    from store_graph_writes [of r2 env eff "original_id_to_chunk_map ?m"
        "exact_resolved_references (resolve_references ?m)" ns0] sg
    obtain ws where ws: "calls rf = calls r2 @ ws"
      "list_all (\<lambda>c. \<not> is_find c \<and> \<not> is_generate c) ws"
      by (auto simp: adds_only_def)
    from store_graph_lookup_state [of env eff "original_id_to_chunk_map ?m"
        "exact_resolved_references (resolve_references ?m)" ns0 r2] sg l2
    have "lookup_state rf = lookup_state ?r1" by simp
    with ws c2 show ?thesis by (auto simp: list_all_iff)
  qed
  then obtain ws where ws: "calls rf = fs @ ws" "list_all (\<lambda>c. \<not> is_find c) ws"
    and lf: "lookup_state rf = lookup_state ?r1"
    by blast
  from lf have mf: "fuzzy_path_to_nodes_map rf = fuzzy_path_to_nodes_map ?r1"
    and ef: "fuzzy_lookup_errors rf = fuzzy_lookup_errors ?r1"
    by (simp_all add: lookup_state_def)
  show "map query_of (filter is_find (calls rf)) = map (\<lambda>p. Some (''%'' @ p @ ''%'', 10)) ?ps"
    using ws no_find_calls [OF ws(2)] queries_are_finds [OF qs] qs by simp
  show "fuzzy_lookup_errors rf = raised_finds (calls rf)"
    using ws no_find_calls [OF ws(2)] er ef by simp
  show "\<exists>x. FindNodesByPath (''%'' @ q @ ''%'') 10 x \<in> set (calls rf)
             \<and> map_of (fuzzy_path_to_nodes_map rf) q =
                 (case x of
                    None \<Rightarrow> None
                  | Some rows \<Rightarrow>
                      if same_document eff rows = [] then None
                      else Some (same_document eff rows))"
    if "q \<in> set ?ps"
    using inn [OF that] ws(1) mf by auto
  show "map_of (fuzzy_path_to_nodes_map rf) q = None" if "q \<notin> set ?ps"
    using out [OF that] mf by simp
qed

text \<open>
  Claim C5. The lookup loop adds to the log exactly one \<open>find_nodes_by_path\<close> call per
  pattern, in order, with the pattern between two \<open>%\<close> and the cap \<open>10\<close>, whether or
  not earlier lookups raised; \<open>fuzzy_lookup_errors\<close> grows by the number of lookups that
  raised. For a pattern of a list without repetitions, the entry of the output map is the
  result of its lookup filtered to the rows of the current document, and the map is left
  as it was for that pattern when the lookup raised or no row of the document remained.
  Patterns that are not looked up keep their entry. The pending patterns that the resolver
  hands to this loop are without repetitions.

  For a whole run of \<open>process_document\<close> that gets a non-empty batch of node records from
  the chunks \<open>cs\<close>: the lookups in its log are exactly one per pending pattern of \<open>cs\<close>,
  each between two \<open>%\<close> and with the cap \<open>10\<close>; \<open>fuzzy_lookup_errors\<close> is the number
  of lookups that raised; a pending pattern is in the final map exactly when its lookup
  returned a row of the run's document id, and then with exactly those rows; and no other
  key is in the map.
\<close>

theorem fuzzy_lookup_batch:
  "map query_of (new_calls r (fuzzy_lookups env d ps r)) =
      map (\<lambda>p. Some (''%'' @ p @ ''%'', 10)) ps
   \<and> fuzzy_lookup_errors (fuzzy_lookups env d ps r) =
       fuzzy_lookup_errors r + raised_finds (new_calls r (fuzzy_lookups env d ps r))
   \<and> (distinct ps \<and> q \<in> set ps \<longrightarrow>
        (\<exists>x. FindNodesByPath (''%'' @ q @ ''%'') 10 x
                 \<in> set (new_calls r (fuzzy_lookups env d ps r))
           \<and> map_of (fuzzy_path_to_nodes_map (fuzzy_lookups env d ps r)) q =
               (case x of
                  None \<Rightarrow> map_of (fuzzy_path_to_nodes_map r) q
                | Some rows \<Rightarrow>
                    if same_document d rows = [] then map_of (fuzzy_path_to_nodes_map r) q
                    else Some (same_document d rows))))
   \<and> (q \<notin> set ps \<longrightarrow>
        map_of (fuzzy_path_to_nodes_map (fuzzy_lookups env d ps r)) q =
          map_of (fuzzy_path_to_nodes_map r) q)
   \<and> distinct (paths_needing_fuzzy_lookup (resolve_references m))
   \<and> (path_exists env file_path w
        \<and> upstream (init_components env) (run_init w) = (Inr u, r1)
        \<and> upstream (read_text env file_path) r1 = (Inr markdown_text, r2)
        \<and> \<not> list_all py_isspace markdown_text
        \<and> enrich env markdown_text r2 = (Some cs, r3)
        \<and> db_nodes_to_insert
             (node_mapper (effective_document_id env file_path document_id) cs) \<noteq> []
        \<and> process_document env file_path document_id w = (res, rf)
      \<longrightarrow> map query_of (filter is_find (calls rf)) =
            map (\<lambda>p. Some (''%'' @ p @ ''%'', 10))
              (paths_needing_fuzzy_lookup (resolve_references
                 (node_mapper (effective_document_id env file_path document_id) cs)))
          \<and> fuzzy_lookup_errors rf = raised_finds (calls rf)
          \<and> (if k \<in> set (paths_needing_fuzzy_lookup (resolve_references
                 (node_mapper (effective_document_id env file_path document_id) cs)))
              then \<exists>x. FindNodesByPath (''%'' @ k @ ''%'') 10 x \<in> set (calls rf)
                     \<and> map_of (fuzzy_path_to_nodes_map rf) k =
                         (case x of
                            None \<Rightarrow> None
                          | Some rows \<Rightarrow>
                              if same_document
                                   (effective_document_id env file_path document_id) rows = []
                              then None
                              else Some (same_document
                                   (effective_document_id env file_path document_id) rows))
              else map_of (fuzzy_path_to_nodes_map rf) k = None))"
proof -
  from fuzzy_lookups_steps [of env d ps r] obtain cs' where
    c: "calls (fuzzy_lookups env d ps r) = calls r @ cs'"
    and rest: "map query_of cs' = map (\<lambda>p. Some (''%'' @ p @ ''%'', 10)) ps"
     "fuzzy_lookup_errors (fuzzy_lookups env d ps r) = fuzzy_lookup_errors r + raised_finds cs'"
     "\<forall>q. q \<notin> set ps \<longrightarrow>
           map_of (fuzzy_path_to_nodes_map (fuzzy_lookups env d ps r)) q =
             map_of (fuzzy_path_to_nodes_map r) q"
     "distinct ps \<longrightarrow> (\<forall>q \<in> set ps. \<exists>x.
           FindNodesByPath (''%'' @ q @ ''%'') 10 x \<in> set cs'
           \<and> map_of (fuzzy_path_to_nodes_map (fuzzy_lookups env d ps r)) q =
               (case x of
                  None \<Rightarrow> map_of (fuzzy_path_to_nodes_map r) q
                | Some rows \<Rightarrow>
                    if same_document d rows = [] then map_of (fuzzy_path_to_nodes_map r) q
                    else Some (same_document d rows)))"
    by blast
  have n: "new_calls r (fuzzy_lookups env d ps r) = cs'"
    using c by (simp add: new_calls_def)
  have loop: "map query_of (new_calls r (fuzzy_lookups env d ps r)) =
      map (\<lambda>p. Some (''%'' @ p @ ''%'', 10)) ps
   \<and> fuzzy_lookup_errors (fuzzy_lookups env d ps r) =
       fuzzy_lookup_errors r + raised_finds (new_calls r (fuzzy_lookups env d ps r))
   \<and> (distinct ps \<and> q \<in> set ps \<longrightarrow>
        (\<exists>x. FindNodesByPath (''%'' @ q @ ''%'') 10 x
                 \<in> set (new_calls r (fuzzy_lookups env d ps r))
           \<and> map_of (fuzzy_path_to_nodes_map (fuzzy_lookups env d ps r)) q =
               (case x of
                  None \<Rightarrow> map_of (fuzzy_path_to_nodes_map r) q
                | Some rows \<Rightarrow>
                    if same_document d rows = [] then map_of (fuzzy_path_to_nodes_map r) q
                    else Some (same_document d rows))))
   \<and> (q \<notin> set ps \<longrightarrow>
        map_of (fuzzy_path_to_nodes_map (fuzzy_lookups env d ps r)) q =
          map_of (fuzzy_path_to_nodes_map r) q)
   \<and> distinct (paths_needing_fuzzy_lookup (resolve_references m))"
    unfolding n using rest resolve_references_distinct [of m] by blast
  let ?eff = "effective_document_id env file_path document_id"
  let ?ps = "paths_needing_fuzzy_lookup (resolve_references (node_mapper ?eff cs))"
  have run: "map query_of (filter is_find (calls rf)) =
            map (\<lambda>p. Some (''%'' @ p @ ''%'', 10)) ?ps
          \<and> fuzzy_lookup_errors rf = raised_finds (calls rf)
          \<and> (if k \<in> set ?ps
              then \<exists>x. FindNodesByPath (''%'' @ k @ ''%'') 10 x \<in> set (calls rf)
                     \<and> map_of (fuzzy_path_to_nodes_map rf) k =
                         (case x of
                            None \<Rightarrow> None
                          | Some rows \<Rightarrow>
                              if same_document ?eff rows = [] then None
                              else Some (same_document ?eff rows))
              else map_of (fuzzy_path_to_nodes_map rf) k = None)"
    if a: "path_exists env file_path w
        \<and> upstream (init_components env) (run_init w) = (Inr u, r1)
        \<and> upstream (read_text env file_path) r1 = (Inr markdown_text, r2)
        \<and> \<not> list_all py_isspace markdown_text
        \<and> enrich env markdown_text r2 = (Some cs, r3)
        \<and> db_nodes_to_insert (node_mapper ?eff cs) \<noteq> []
        \<and> process_document env file_path document_id w = (res, rf)"
  proof -
    from a have h: "path_exists env file_path w"
      "upstream (init_components env) (run_init w) = (Inr u, r1)"
      "upstream (read_text env file_path) r1 = (Inr markdown_text, r2)"
      "\<not> list_all py_isspace markdown_text"
      "enrich env markdown_text r2 = (Some cs, r3)"
      and ne: "db_nodes_to_insert (node_mapper ?eff cs) \<noteq> []"
      and pd: "process_document env file_path document_id w = (res, rf)"
      by simp_all
    from reaches_phase4(1) [OF h, of document_id] pd
    have p4: "phase4 env ?eff cs r3 = (res, rf)"
      by simp
    note r3 = reaches_phase4(2) [OF h]
    have "calls r3 = calls (run_init w)" "lookup_state r3 = lookup_state (run_init w)"
      by (subst r3, simp add: lookup_state_def)+
    then have i: "calls r3 = []" "lookup_state r3 = ([], 0)"
      by (simp_all add: run_init_def lookup_state_def)
    note l = phase4_lookups [OF p4 i ne]
    show ?thesis
      using l(1) l(2) l(3) [of k] l(4) [of k] by simp
  qed
  from loop run show ?thesis by blast
qed

text \<open>
  Three patterns, the second of which raises and the third of which only matches another
  document: three lookups are logged, one error is counted, and only the first pattern is
  in the map, with the three rows of the document. The same holds for the run on a
  document whose chunks mention these three paths.
\<close>

theorem fuzzy_lookup_batch_witness:
  "distinct [''Missing'', ''Gone'', ''Elsewhere'']
   \<and> ''Missing'' \<in> set [''Missing'', ''Gone'', ''Elsewhere'']
   \<and> ''Unasked'' \<notin> set [''Missing'', ''Gone'', ''Elsewhere'']
   \<and> map query_of (new_calls (run_init demo_world0)
         (fuzzy_lookups lookup_env ''guide'' [''Missing'', ''Gone'', ''Elsewhere'']
            (run_init demo_world0)))
       = [Some (''%Missing%'', 10), Some (''%Gone%'', 10), Some (''%Elsewhere%'', 10)]
   \<and> fuzzy_lookup_errors
         (fuzzy_lookups lookup_env ''guide'' [''Missing'', ''Gone'', ''Elsewhere'']
            (run_init demo_world0)) = 1
   \<and> map_of (fuzzy_path_to_nodes_map
         (fuzzy_lookups lookup_env ''guide'' [''Missing'', ''Gone'', ''Elsewhere'']
            (run_init demo_world0))) ''Unasked'' = None
   \<and> map_of (fuzzy_path_to_nodes_map
         (fuzzy_lookups lookup_env ''guide'' [''Missing'', ''Gone'', ''Elsewhere'']
            (run_init demo_world0))) ''Missing'' = Some (same_document ''guide'' guide_found)
   \<and> fuzzy_path_to_nodes_map
         (fuzzy_lookups lookup_env ''guide'' [''Missing'', ''Gone'', ''Elsewhere'']
            (run_init demo_world0))
       = [(''Missing'', same_document ''guide'' guide_found)]
   \<and> map fn_id (same_document ''guide'' guide_found) = [Some 1, Some 2, Some 9]
   \<and> paths_needing_fuzzy_lookup (resolve_references (node_mapper ''guide'' guide_chunks))
       = [''Missing'']
   \<and> path_exists lookup_env ''guide.md'' demo_world0
   \<and> upstream (init_components lookup_env) (run_init demo_world0)
        = (Inr (), run_init demo_world0)
   \<and> upstream (read_text lookup_env ''guide.md'') (run_init demo_world0)
        = (Inr ''# Guide'', run_init demo_world0)
   \<and> \<not> list_all py_isspace ''# Guide''
   \<and> enrich lookup_env ''# Guide'' (run_init demo_world0)
        = (Some lookup_chunks, run_init demo_world0)
   \<and> db_nodes_to_insert (node_mapper ''guide'' lookup_chunks) \<noteq> []
   \<and> paths_needing_fuzzy_lookup (resolve_references (node_mapper ''guide'' lookup_chunks))
       = [''Missing'', ''Gone'', ''Elsewhere'']
   \<and> fst lookup_run = Some ''guide''
   \<and> map query_of (filter is_find (calls (snd lookup_run)))
       = [Some (''%Missing%'', 10), Some (''%Gone%'', 10), Some (''%Elsewhere%'', 10)]
   \<and> fuzzy_lookup_errors (snd lookup_run) = 1
   \<and> map_of (fuzzy_path_to_nodes_map (snd lookup_run)) ''Missing''
       = Some (same_document ''guide'' guide_found)
   \<and> map_of (fuzzy_path_to_nodes_map (snd lookup_run)) ''Gone'' = None
   \<and> map_of (fuzzy_path_to_nodes_map (snd lookup_run)) ''Unasked'' = None"
proof -
  let ?ps = "[''Missing'', ''Gone'', ''Elsewhere'']"
  let ?r0 = "run_init demo_world0"
  let ?R = "fuzzy_lookups lookup_env ''guide'' ?ps ?r0"
  have h: "distinct ?ps \<and> ''Missing'' \<in> set ?ps" "''Unasked'' \<notin> set ?ps"
    by simp_all
  have e: "raised_finds (new_calls ?r0 ?R) = 1" "fuzzy_lookup_errors ?r0 = 0"
    "map_of (fuzzy_path_to_nodes_map ?r0) ''Unasked'' = None"
    "map_of (fuzzy_path_to_nodes_map ?r0) ''Missing'' = None"
    by code_simp+
  have f: "fuzzy_path_to_nodes_map ?R = [(''Missing'', same_document ''guide'' guide_found)]"
    "map fn_id (same_document ''guide'' guide_found) = [Some 1, Some 2, Some 9]"
    "paths_needing_fuzzy_lookup (resolve_references (node_mapper ''guide'' guide_chunks))
       = [''Missing'']"
    by code_simp+
  have nc: "new_calls ?r0 ?R =
      [FindNodesByPath ''%Missing%'' 10 (Some guide_found),
       FindNodesByPath ''%Gone%'' 10 None,
       FindNodesByPath ''%Elsewhere%'' 10
         (Some [\<lparr> fn_id = Some 5, fn_document_id = Some ''other'',
                  fn_path = ''%Elsewhere%'' \<rparr>])]"
    by code_simp
  have ne: "same_document ''guide'' guide_found \<noteq> []"
    by code_simp
  have g1: "path_exists lookup_env ''guide.md'' demo_world0"
    by code_simp
  have g2: "upstream (init_components lookup_env) ?r0 = (Inr (), ?r0)"
    by (simp add: upstream_def lookup_env_def demo_env_def)
  have g3: "upstream (read_text lookup_env ''guide.md'') ?r0 = (Inr ''# Guide'', ?r0)"
    by (simp add: upstream_def lookup_env_def demo_env_def)
  have g4: "\<not> list_all py_isspace ''# Guide''"
    by code_simp
  have g5: "enrich lookup_env ''# Guide'' ?r0 = (Some lookup_chunks, ?r0)"
    by (simp add: enrich_def upstream_def lookup_env_def demo_env_def)
  have g6: "db_nodes_to_insert (node_mapper ''guide'' lookup_chunks) \<noteq> []"
    by code_simp
  have eff: "effective_document_id lookup_env ''guide.md'' None = ''guide''"
    by code_simp
  have g7: "process_document lookup_env ''guide.md'' None demo_world0
      = (fst lookup_run, snd lookup_run)"
    by (simp add: lookup_run_def)
  have pend: "paths_needing_fuzzy_lookup (resolve_references (node_mapper ''guide'' lookup_chunks))
       = [''Missing'', ''Gone'', ''Elsewhere'']"
    by code_simp
  have res: "fst lookup_run = Some ''guide''"
    by code_simp
  have fc: "filter is_find (calls (snd lookup_run)) =
      [FindNodesByPath ''%Missing%'' 10 (Some guide_found),
       FindNodesByPath ''%Gone%'' 10 None,
       FindNodesByPath ''%Elsewhere%'' 10
         (Some [\<lparr> fn_id = Some 5, fn_document_id = Some ''other'',
                  fn_path = ''%Elsewhere%'' \<rparr>])]"
    "raised_finds (calls (snd lookup_run)) = 1"
    by code_simp+
  note t = fuzzy_lookup_batch [where r = ?r0 and env = lookup_env and d = "''guide''"
      and ps = ?ps and m = "node_mapper ''guide'' guide_chunks"
      and file_path = "''guide.md''" and w = demo_world0 and u = "()" and ?r1.0 = ?r0
      and markdown_text = "''# Guide''" and ?r2.0 = ?r0 and cs = lookup_chunks and ?r3.0 = ?r0
      and document_id = None and res = "fst lookup_run" and rf = "snd lookup_run"]
  note t1 = t [where q = "''Unasked''" and k = "''Unasked''"]
  note t2 = t [where q = "''Missing''" and k = "''Missing''"]
  note t3 = t [where q = "''Missing''" and k = "''Gone''"]
  from t1 have 1: "map query_of (new_calls ?r0 ?R) =
       [Some (''%Missing%'', 10), Some (''%Gone%'', 10), Some (''%Elsewhere%'', 10)]"
    by simp
  from t1 e have 2: "fuzzy_lookup_errors ?R = 1"
    by simp
  from t1 h(2) e(3) have 3: "map_of (fuzzy_path_to_nodes_map ?R) ''Unasked'' = None"
    by simp
  from t2 h(1)
  obtain x where x: "FindNodesByPath ''%Missing%'' 10 x \<in> set (new_calls ?r0 ?R)"
    "map_of (fuzzy_path_to_nodes_map ?R) ''Missing'' =
       (case x of
          None \<Rightarrow> map_of (fuzzy_path_to_nodes_map ?r0) ''Missing''
        | Some rows \<Rightarrow>
            if same_document ''guide'' rows = []
            then map_of (fuzzy_path_to_nodes_map ?r0) ''Missing''
            else Some (same_document ''guide'' rows))"
    by auto
  from x(1) nc have "x = Some guide_found" by simp
  with x(2) ne have 4: "map_of (fuzzy_path_to_nodes_map ?R) ''Missing'' =
      Some (same_document ''guide'' guide_found)"
    by simp
  have hyp: "path_exists lookup_env ''guide.md'' demo_world0
        \<and> upstream (init_components lookup_env) (run_init demo_world0) = (Inr (), ?r0)
        \<and> upstream (read_text lookup_env ''guide.md'') ?r0 = (Inr ''# Guide'', ?r0)
        \<and> \<not> list_all py_isspace ''# Guide''
        \<and> enrich lookup_env ''# Guide'' ?r0 = (Some lookup_chunks, ?r0)
        \<and> db_nodes_to_insert
             (node_mapper (effective_document_id lookup_env ''guide.md'' None) lookup_chunks) \<noteq> []
        \<and> process_document lookup_env ''guide.md'' None demo_world0
             = (fst lookup_run, snd lookup_run)"
    using g1 g2 g3 g4 g5 g6 g7 eff by simp
  from t1 hyp have run1: "map query_of (filter is_find (calls (snd lookup_run))) =
            map (\<lambda>p. Some (''%'' @ p @ ''%'', 10))
              (paths_needing_fuzzy_lookup (resolve_references
                 (node_mapper (effective_document_id lookup_env ''guide.md'' None) lookup_chunks)))"
    and run2: "fuzzy_lookup_errors (snd lookup_run) = raised_finds (calls (snd lookup_run))"
    by blast+
  from run1 have 5: "map query_of (filter is_find (calls (snd lookup_run)))
       = [Some (''%Missing%'', 10), Some (''%Gone%'', 10), Some (''%Elsewhere%'', 10)]"
    by (simp add: eff pend)
  from run2 fc(2) have 6: "fuzzy_lookup_errors (snd lookup_run) = 1"
    by simp
  have mem: "FindNodesByPath p n y \<in> set (calls (snd lookup_run))
      \<longleftrightarrow> FindNodesByPath p n y \<in> set (filter is_find (calls (snd lookup_run)))" for p n y
    by simp
  let ?E = "effective_document_id lookup_env ''guide.md'' None"
  let ?P = "paths_needing_fuzzy_lookup (resolve_references (node_mapper ?E lookup_chunks))"
  let ?entry = "\<lambda>k. if k \<in> set ?P
      then \<exists>x. FindNodesByPath (''%'' @ k @ ''%'') 10 x \<in> set (calls (snd lookup_run))
             \<and> map_of (fuzzy_path_to_nodes_map (snd lookup_run)) k =
                 (case x of None \<Rightarrow> None
                  | Some rows \<Rightarrow> if same_document ?E rows = [] then None
                                 else Some (same_document ?E rows))
      else map_of (fuzzy_path_to_nodes_map (snd lookup_run)) k = None"
  from t1 hyp have "?entry ''Unasked''" by blast
  then have 7: "map_of (fuzzy_path_to_nodes_map (snd lookup_run)) ''Unasked'' = None"
    unfolding eff pend by simp
  from t2 hyp have "?entry ''Missing''" by blast
  then have "\<exists>x. FindNodesByPath ''%Missing%'' 10 x \<in> set (calls (snd lookup_run))
             \<and> map_of (fuzzy_path_to_nodes_map (snd lookup_run)) ''Missing'' =
                 (case x of None \<Rightarrow> None
                  | Some rows \<Rightarrow> if same_document ''guide'' rows = [] then None
                                 else Some (same_document ''guide'' rows))"
    unfolding eff pend by simp
  then obtain y where y: "FindNodesByPath ''%Missing%'' 10 y \<in> set (calls (snd lookup_run))"
    "map_of (fuzzy_path_to_nodes_map (snd lookup_run)) ''Missing'' =
       (case y of None \<Rightarrow> None
        | Some rows \<Rightarrow> if same_document ''guide'' rows = [] then None
                       else Some (same_document ''guide'' rows))"
    by blast
  from y(1) have "y = Some guide_found" unfolding mem fc(1) by simp
  with y(2) ne have 8: "map_of (fuzzy_path_to_nodes_map (snd lookup_run)) ''Missing''
       = Some (same_document ''guide'' guide_found)"
    by simp
  from t3 hyp have "?entry ''Gone''" by blast
  then have "\<exists>x. FindNodesByPath ''%Gone%'' 10 x \<in> set (calls (snd lookup_run))
             \<and> map_of (fuzzy_path_to_nodes_map (snd lookup_run)) ''Gone'' =
                 (case x of None \<Rightarrow> None
                  | Some rows \<Rightarrow> if same_document ''guide'' rows = [] then None
                                 else Some (same_document ''guide'' rows))"
    unfolding eff pend by simp
  then obtain z where z: "FindNodesByPath ''%Gone%'' 10 z \<in> set (calls (snd lookup_run))"
    "map_of (fuzzy_path_to_nodes_map (snd lookup_run)) ''Gone'' =
       (case z of None \<Rightarrow> None
        | Some rows \<Rightarrow> if same_document ''guide'' rows = [] then None
                       else Some (same_document ''guide'' rows))"
    by blast
  from z(1) have "z = None" unfolding mem fc(1) by simp
  with z(2) have 9: "map_of (fuzzy_path_to_nodes_map (snd lookup_run)) ''Gone'' = None"
    by simp
  from h 1 2 3 4 f g1 g2 g3 g4 g5 g6 pend res 5 6 7 8 9 show ?thesis by simp
qed

section \<open>The path index\<close>

lemma map_chunk_path_map:
  "path_to_original_id_map (map_chunk d c m) =
     (case registered_key c of
        None \<Rightarrow> path_to_original_id_map m
      | Some ki \<Rightarrow> AList.update (fst ki) (snd ki) (path_to_original_id_map m))"
  by (simp add: map_chunk_def registered_key_def Let_def split: option.splits)

lemma map_chunk_lookup:
  "map_of (path_to_original_id_map (map_chunk d c m)) k =
     (case registered_key c of
        None \<Rightarrow> map_of (path_to_original_id_map m) k
      | Some ki \<Rightarrow> if fst ki = k then Some (snd ki) else map_of (path_to_original_id_map m) k)"
  by (auto simp: map_chunk_path_map update_conv' split: option.splits)

lemma fold_map_chunk_other:
  "list_all (\<lambda>c. map_option fst (registered_key c) \<noteq> Some k) cs \<Longrightarrow>
     map_of (path_to_original_id_map (fold (map_chunk d) cs m)) k =
       map_of (path_to_original_id_map m) k"
  by (induction cs arbitrary: m) (auto simp: map_chunk_lookup split: option.splits)

lemma fold_map_chunk_from:
  "map_of (path_to_original_id_map (fold (map_chunk d) cs m)) k = Some i \<Longrightarrow>
     map_of (path_to_original_id_map m) k = Some i
     \<or> (\<exists>c \<in> set cs. registered_key c = Some (k, i))"
proof (induction cs arbitrary: m)
  case Nil
  then show ?case by simp
next
  case (Cons c cs)
  from Cons.IH [of "map_chunk d c m"] Cons.prems
  have "map_of (path_to_original_id_map (map_chunk d c m)) k = Some i
     \<or> (\<exists>c \<in> set cs. registered_key c = Some (k, i))"
    by simp
  then show ?case
    by (auto simp: map_chunk_lookup split: option.splits if_splits)
qed

lemma registered_key_truthy:
  "registered_key c = Some (k, i) \<Longrightarrow> k \<noteq> unknown_path \<and> id_truthy i"
  by (auto simp: registered_key_def Let_def split: option.splits if_splits)

lemma node_mapper_registered:
  assumes "map_of (path_to_original_id_map (node_mapper d cs)) k = Some i"
  shows "k \<noteq> unknown_path \<and> id_truthy i \<and> (\<exists>c \<in> set cs. registered_key c = Some (k, i))"
proof -
  from fold_map_chunk_from [of d cs mapped_empty k i] assms
  obtain c where c: "c \<in> set cs" "registered_key c = Some (k, i)"
    by (auto simp: node_mapper_def mapped_empty_def)
  with registered_key_truthy [OF c(2)] show ?thesis by blast
qed

lemma node_mapper_last_writer:
  assumes "registered_key c = Some (k, i)"
    and "list_all (\<lambda>c'. map_option fst (registered_key c') \<noteq> Some k) post"
  shows "map_of (path_to_original_id_map (node_mapper d (pre @ c # post))) k = Some i"
  using assms
  by (simp add: node_mapper_def fold_map_chunk_other map_chunk_lookup)

lemma resolve_item_hit:
  "path_key_str it = Some k \<Longrightarrow> map_of pm k = Some t \<Longrightarrow> id_truthy t \<Longrightarrow> s \<noteq> t \<Longrightarrow>
     resolve_item pm s it r =
       r\<lparr>exact_resolved_references := exact_resolved_references r @ [(s, t)]\<rparr>"
  by (simp add: resolve_item_def Let_def)

text \<open>
  Claim C9, as the code has it. A chunk registers its path key when it is not discarded,
  its path is not the sentinel \<open>Unknown Path\<close> and its id is true in Python. Among the
  chunks that register a key, the last one wins: after a chunk that registers \<open>k\<close>, if
  no later chunk registers \<open>k\<close>, the index maps \<open>k\<close> to that chunk's id. Every entry
  of the index was registered by some chunk of the batch, so its key is not the sentinel
  and its id is true. A mention with key \<open>k\<close> from another chunk is resolved to the id
  that the index holds for \<open>k\<close>.
\<close>

theorem last_writer_wins:
  "(registered_key c = Some (k, i)
      \<and> list_all (\<lambda>c'. map_option fst (registered_key c') \<noteq> Some k) post
    \<longrightarrow> map_of (path_to_original_id_map (node_mapper d (pre @ c # post))) k = Some i)
   \<and> (map_of (path_to_original_id_map (node_mapper d cs)) k = Some i
    \<longrightarrow> k \<noteq> unknown_path \<and> id_truthy i \<and> (\<exists>c' \<in> set cs. registered_key c' = Some (k, i)))
   \<and> (path_key_str it = Some k \<and> map_of (path_to_original_id_map (node_mapper d cs)) k = Some t
        \<and> s \<noteq> t
    \<longrightarrow> resolve_item (path_to_original_id_map (node_mapper d cs)) s it r =
          r\<lparr>exact_resolved_references := exact_resolved_references r @ [(s, t)]\<rparr>)"
proof (intro conjI impI)
  assume "registered_key c = Some (k, i)
      \<and> list_all (\<lambda>c'. map_option fst (registered_key c') \<noteq> Some k) post"
  then show "map_of (path_to_original_id_map (node_mapper d (pre @ c # post))) k = Some i"
    by (simp add: node_mapper_last_writer)
next
  assume a: "map_of (path_to_original_id_map (node_mapper d cs)) k = Some i"
  from node_mapper_registered [OF a]
  show "k \<noteq> unknown_path" "id_truthy i" "\<exists>c' \<in> set cs. registered_key c' = Some (k, i)"
    by blast+
next
  assume a: "path_key_str it = Some k
    \<and> map_of (path_to_original_id_map (node_mapper d cs)) k = Some t \<and> s \<noteq> t"
  then have "id_truthy t" using node_mapper_registered [of d cs k t] by blast
  with a show "resolve_item (path_to_original_id_map (node_mapper d cs)) s it r =
          r\<lparr>exact_resolved_references := exact_resolved_references r @ [(s, t)]\<rparr>"
    by (simp add: resolve_item_hit)
qed

text \<open>
  Claim C9 as stated fails when the later chunk has an id that is false in Python: both
  chunks get the path \<open>P\<close>, the later one has the id \<open>0\<close>, and the index still maps
  \<open>P\<close> to the earlier chunk.
\<close>

theorem last_writer_counterexample:
  "map n_path (db_nodes_to_insert (node_mapper ''guide'' clash_chunks)) = [''P'', ''P'']
   \<and> c_id (last clash_chunks) = Some (IntId 0)
   \<and> map_of (path_to_original_id_map (node_mapper ''guide'' clash_chunks)) ''P''
       = Some (StrId ''a'')
   \<and> map_of (path_to_original_id_map (node_mapper ''guide'' clash_chunks)) ''P''
       \<noteq> c_id (last clash_chunks)"
  by code_simp

text \<open>
  Two chunks with the path \<open>P\<close> and string ids: the index maps \<open>P\<close> to the later
  one, and the mention of \<open>P\<close> in the third chunk is resolved to it.
\<close>

theorem last_writer_wins_witness:
  "registered_key (demo_chunk (StrId ''b'') [''P''] ''second'' [] None) = Some (''P'', StrId ''b'')
   \<and> list_all (\<lambda>c'. map_option fst (registered_key c') \<noteq> Some ''P'')
        [demo_chunk (StrId ''c'') [''Q''] ''third'' [MStr ''P''] None]
   \<and> map_of (path_to_original_id_map (node_mapper ''guide'' twin_chunks)) ''P''
       = Some (StrId ''b'')
   \<and> ''P'' \<noteq> unknown_path \<and> id_truthy (StrId ''b'')
   \<and> path_key_str (MStr ''P'') = Some ''P'' \<and> StrId ''c'' \<noteq> StrId ''b''
   \<and> exact_resolved_references
         (resolve_item (path_to_original_id_map (node_mapper ''guide'' twin_chunks))
            (StrId ''c'') (MStr ''P'') resolved_empty) = [(StrId ''c'', StrId ''b'')]
   \<and> exact_resolved_references (resolve_references (node_mapper ''guide'' twin_chunks))
       = [(StrId ''c'', StrId ''b'')]"
proof -
  let ?a = "demo_chunk (StrId ''a'') [''P''] ''first'' [] None"
  let ?b = "demo_chunk (StrId ''b'') [''P''] ''second'' [] None"
  let ?c = "demo_chunk (StrId ''c'') [''Q''] ''third'' [MStr ''P''] None"
  have tw: "twin_chunks = [?a] @ ?b # [?c]"
    by (simp add: twin_chunks_def)
  have h1: "registered_key ?b = Some (''P'', StrId ''b'')
     \<and> list_all (\<lambda>c'. map_option fst (registered_key c') \<noteq> Some ''P'') [?c]"
    by code_simp
  have h3: "path_key_str (MStr ''P'') = Some ''P''" "StrId ''c'' \<noteq> StrId ''b''"
    by simp_all
  have e: "exact_resolved_references resolved_empty = []"
    by (simp add: resolved_empty_def)
  have f: "exact_resolved_references (resolve_references (node_mapper ''guide'' twin_chunks))
       = [(StrId ''c'', StrId ''b'')]"
    by code_simp
  note t = last_writer_wins [where c = ?b and k = "''P''" and i = "StrId ''b''"
      and post = "[?c]" and pre = "[?a]" and d = "''guide''" and cs = twin_chunks
      and it = "MStr ''P''" and t = "StrId ''b''" and s = "StrId ''c''" and r = resolved_empty]
  from t h1 tw have 1:
    "map_of (path_to_original_id_map (node_mapper ''guide'' twin_chunks)) ''P''
       = Some (StrId ''b'')"
    by simp
  from t 1 have 2: "''P'' \<noteq> unknown_path \<and> id_truthy (StrId ''b'')"
    by blast
  from t 1 h3 have
    "resolve_item (path_to_original_id_map (node_mapper ''guide'' twin_chunks))
       (StrId ''c'') (MStr ''P'') resolved_empty =
     resolved_empty\<lparr>exact_resolved_references :=
       exact_resolved_references resolved_empty @ [(StrId ''c'', StrId ''b'')]\<rparr>"
    by blast
  then have 3: "exact_resolved_references
         (resolve_item (path_to_original_id_map (node_mapper ''guide'' twin_chunks))
            (StrId ''c'') (MStr ''P'') resolved_empty) = [(StrId ''c'', StrId ''b'')]"
    using e by simp
  from h1 h3 1 2 3 f show ?thesis by simp
qed

section \<open>Paths of nodes and of mentions\<close>









end
